(* ===== verification/Nf_Prelude.thy ===== *)
theory Nf_Prelude
  imports
    Main
    "HOL-Library.AList"
    "HOL-Library.Char_ord"
    "HOL-Library.List_Lexorder"
    "HOL-Library.Product_Lexorder"
    "HOL-Library.Sublist"
begin

section \<open>Prelude: exceptions, state steps, keyed tables and Python strings\<close>

text \<open>
  What every component of the development shares.

  \<^item> \<open>exn\<close> has one constructor per exception class the modelled Python code raises; the
    argument is the message the code builds.
  \<^item> A step of stateful code is a function \<open>'s \<Rightarrow> 'a res \<times> 's\<close>: the result (or the exception)
    together with the state that is left behind.  Python does not undo earlier effects when it
    raises, so the state is returned on both branches; \<open>and_then\<close> is sequential composition.
  \<^item> A SQLite table with a primary key is an association list from keys to rows, in rowid order:
    an upsert of an existing key keeps the row's position, an insert appends.
  \<^item> A Python \<open>str\<close> is a \<open>string\<close> whose characters are code points below 256.
\<close>

subsection \<open>Exceptions and results\<close>

datatype exn =
    RegistryError string
  | StorageError string
  | RejectFlowError string
  | IngestError string
  | LivePhotoError string
  | IntegrityError string
  | OSError string
  | ValueError string
  | LookupError string
  | AttributeError string
  | ThumbnailNotFoundError string
  | ThumbnailGenerationError string
  | GraphError string string "int option"
  | GraphResyncRequired "string option"
  | DownloadError string string "int option"
  | AuthError string
  | HashImportError string
  | HashImportParseError string nat string
  | SyncImportError string
  | ConfigError string
  | ParserError string
  | TypeError string
  | HTTPException int string

type_synonym 'a res = "exn + 'a"

named_theorems step_simps \<open>unfolding equations of state steps\<close>
named_theorems inv_intros \<open>preservation rules for invariants of state steps\<close>

definition and_then :: "'a res \<times> 's \<Rightarrow> ('a \<Rightarrow> 's \<Rightarrow> 'b res \<times> 's) \<Rightarrow> 'b res \<times> 's" where
  "and_then r k = (case r of (Inl e, s) \<Rightarrow> (Inl e, s) | (Inr x, s) \<Rightarrow> k x s)"

lemma and_then_Inl [simp]: "and_then (Inl e, s) k = (Inl e, s)"
  by (simp add: and_then_def)

lemma and_then_Inr [simp]: "and_then (Inr x, s) k = k x s"
  by (simp add: and_then_def)

lemma and_then_eq_Inr:
  "and_then r k = (Inr y, s') \<longleftrightarrow> (\<exists>x s. r = (Inr x, s) \<and> k x s = (Inr y, s'))"
  by (cases r; cases "fst r") (auto simp: and_then_def)

lemma and_then_eq_Inl:
  "and_then r k = (Inl e, s') \<longleftrightarrow>
     r = (Inl e, s') \<or> (\<exists>x s. r = (Inr x, s) \<and> k x s = (Inl e, s'))"
  by (cases r; cases "fst r") (auto simp: and_then_def)

lemma and_then_cong [fundef_cong]:
  "r = r' \<Longrightarrow> (\<And>x s. r' = (Inr x, s) \<Longrightarrow> k x s = k' x s) \<Longrightarrow> and_then r k = and_then r' k'"
  by (cases r'; cases "fst r'") (auto simp: and_then_def)

lemma and_then_inv:
  assumes "P (snd r)" and "\<And>x s. r = (Inr x, s) \<Longrightarrow> P s \<Longrightarrow> P (snd (k x s))"
  shows "P (snd (and_then r k))"
  using assms by (cases r; cases "fst r") (auto simp: and_then_def)

text \<open>
  Raising the exception of a guard, without touching the state, and going on otherwise.
\<close>

text \<open>A computation for each element, in order; the first exception ends it.\<close>

fun map_res :: "('a \<Rightarrow> 'b res) \<Rightarrow> 'a list \<Rightarrow> 'b list res" where
  "map_res f [] = Inr []"
| "map_res f (x # xs) =
     (case f x of Inl e \<Rightarrow> Inl e | Inr y \<Rightarrow> (case map_res f xs of Inl e \<Rightarrow> Inl e | Inr ys \<Rightarrow> Inr (y # ys)))"

lemma map_res_Inr: "map_res f xs = Inr ys \<longleftrightarrow> map f xs = map Inr ys"
proof (induction xs arbitrary: ys)
  case (Cons x xs)
  then have "map_res f xs = Inl e \<Longrightarrow> map f xs \<noteq> map Inr zs" for e zs by (metis sum.distinct(1))
  with Cons show ?case by (auto split: sum.splits simp: Cons_eq_map_conv)
qed auto

lemma map_res_all: "(\<And>x. x \<in> set xs \<Longrightarrow> f x = Inr (g x)) \<Longrightarrow> map_res f xs = Inr (map g xs)"
  by (simp add: map_res_Inr)

definition guard :: "bool \<Rightarrow> exn \<Rightarrow> 's \<Rightarrow> ('s \<Rightarrow> 'a res \<times> 's) \<Rightarrow> 'a res \<times> 's" where
  "guard b e s k = (if b then k s else (Inl e, s))"

lemma guard_True [simp]: "guard True e s k = k s"
  and guard_False [simp]: "guard False e s k = (Inl e, s)"
  by (simp_all add: guard_def)

lemma guard_eq_Inr: "guard b e s k = (Inr y, s') \<longleftrightarrow> b \<and> k s = (Inr y, s')"
  by (simp add: guard_def)

lemma guard_inv: "P s \<Longrightarrow> (b \<Longrightarrow> P (snd (k s))) \<Longrightarrow> P (snd (guard b e s k))"
  by (simp add: guard_def)

text \<open>
  A preorder on states that single steps respect is respected by their composition.  The
  components use it for the frame properties of whole handlers: the audit log only grows,
  no file becomes accepted.
\<close>

locale step_frame =
  fixes R :: "'s \<Rightarrow> 's \<Rightarrow> bool"
  assumes frame_refl: "R s s"
    and frame_trans: "R s t \<Longrightarrow> R t u \<Longrightarrow> R s u"
begin

lemma frame_and_then:
  assumes "R s0 (snd r)" and "\<And>x s. r = (Inr x, s) \<Longrightarrow> R s (snd (k x s))"
  shows "R s0 (snd (and_then r k))"
  using assms frame_trans by (cases r; cases "fst r") (auto simp: and_then_def)

lemma frame_guard:
  assumes "b \<Longrightarrow> R s (snd (k s))"
  shows "R s (snd (guard b e s k))"
  using assms by (simp add: guard_def frame_refl)

end

subsection \<open>Keyed tables\<close>

text \<open>
  The three statements the registry issues against a table with a primary key:
  \<open>INSERT \<dots> ON CONFLICT(key) DO UPDATE\<close> (\<open>tbl_upsert\<close>: the new row when the key is absent,
  a merge of the old row otherwise), \<open>UPDATE \<dots> WHERE key = ?\<close> (\<open>tbl_update\<close>: nothing when
  the key is absent) and \<open>INSERT OR IGNORE\<close> (\<open>tbl_insert_ignore\<close>).
\<close>

type_synonym ('k, 'r) tbl = "('k \<times> 'r) list"

abbreviation tbl_get :: "('k, 'r) tbl \<Rightarrow> 'k \<Rightarrow> 'r option" where
  "tbl_get t k \<equiv> map_of t k"

definition tbl_upsert :: "'k \<Rightarrow> 'r \<Rightarrow> ('r \<Rightarrow> 'r) \<Rightarrow> ('k, 'r) tbl \<Rightarrow> ('k, 'r) tbl" where
  "tbl_upsert k new merge t =
     AList.update k (case map_of t k of None \<Rightarrow> new | Some old \<Rightarrow> merge old) t"

definition tbl_update :: "'k \<Rightarrow> ('r \<Rightarrow> 'r) \<Rightarrow> ('k, 'r) tbl \<Rightarrow> ('k, 'r) tbl" where
  "tbl_update k f t = (case map_of t k of None \<Rightarrow> t | Some old \<Rightarrow> AList.update k (f old) t)"

definition tbl_insert_ignore :: "'k \<Rightarrow> 'r \<Rightarrow> ('k, 'r) tbl \<Rightarrow> ('k, 'r) tbl" where
  "tbl_insert_ignore k new t = (case map_of t k of None \<Rightarrow> t @ [(k, new)] | Some _ \<Rightarrow> t)"

text \<open>
  What a client of a keyed table may rely on.  A row predicate that holds of every row is kept
  by each statement as soon as the new or changed row satisfies it.
\<close>

locale keyed_table =
  fixes get :: "'t \<Rightarrow> 'k \<Rightarrow> 'r option"
    and upsert :: "'k \<Rightarrow> 'r \<Rightarrow> ('r \<Rightarrow> 'r) \<Rightarrow> 't \<Rightarrow> 't"
    and upd :: "'k \<Rightarrow> ('r \<Rightarrow> 'r) \<Rightarrow> 't \<Rightarrow> 't"
    and ins_ignore :: "'k \<Rightarrow> 'r \<Rightarrow> 't \<Rightarrow> 't"
  assumes get_upsert:
      "get (upsert k new mrg t) =
         (get t)(k \<mapsto> (case get t k of None \<Rightarrow> new | Some old \<Rightarrow> mrg old))"
    and get_upd: "get (upd k f t) = (get t)(k := map_option f (get t k))"
    and get_ins_ignore:
      "get (ins_ignore k new t) = (get t)(k \<mapsto> (case get t k of None \<Rightarrow> new | Some old \<Rightarrow> old))"
begin

lemma upsert_other: "k' \<noteq> k \<Longrightarrow> get (upsert k new mrg t) k' = get t k'"
  by (simp add: get_upsert)

lemma upd_other: "k' \<noteq> k \<Longrightarrow> get (upd k f t) k' = get t k'"
  by (simp add: get_upd)

lemma dom_upsert: "dom (get (upsert k new mrg t)) = insert k (dom (get t))"
  by (auto simp: get_upsert)

lemma dom_upd: "dom (get (upd k f t)) = dom (get t)"
  by (auto simp: get_upd split: if_splits)

lemma dom_ins_ignore: "dom (get (ins_ignore k new t)) = insert k (dom (get t))"
  by (auto simp: get_ins_ignore)

lemma upd_absent: "get t k = None \<Longrightarrow> get (upd k f t) = get t"
  by (auto simp: get_upd)

lemma rows_upsert:
  assumes "\<And>k r. get t k = Some r \<Longrightarrow> P k r"
    and "P k0 new" and "\<And>old. get t k0 = Some old \<Longrightarrow> P k0 old \<Longrightarrow> P k0 (mrg old)"
    and "get (upsert k0 new mrg t) k = Some r"
  shows "P k r"
  using assms by (auto simp: get_upsert split: if_splits option.splits)

lemma rows_upd:
  assumes "\<And>k r. get t k = Some r \<Longrightarrow> P k r"
    and "\<And>old. get t k0 = Some old \<Longrightarrow> P k0 old \<Longrightarrow> P k0 (f old)"
    and "get (upd k0 f t) k = Some r"
  shows "P k r"
  using assms by (auto simp: get_upd split: if_splits)

lemma rows_ins_ignore:
  assumes "\<And>k r. get t k = Some r \<Longrightarrow> P k r"
    and "P k0 new" and "get (ins_ignore k0 new t) k = Some r"
  shows "P k r"
  using assms by (auto simp: get_ins_ignore split: if_splits option.splits)

lemma ins_ignore_idem:
  "get (ins_ignore k new (ins_ignore k new' t)) = get (ins_ignore k new' t)"
  by (auto simp: get_ins_ignore split: option.splits)

end

interpretation at: keyed_table map_of tbl_upsert tbl_update tbl_insert_ignore
  by unfold_locales
    (auto simp: tbl_upsert_def tbl_update_def tbl_insert_ignore_def update_conv' fun_eq_iff
      map_add_def split: option.splits)

lemma distinct_tbl_upsert [intro]:
  "distinct (map fst t) \<Longrightarrow> distinct (map fst (tbl_upsert k new mrg t))"
  by (simp add: tbl_upsert_def distinct_update)

lemma distinct_tbl_update [intro]:
  "distinct (map fst t) \<Longrightarrow> distinct (map fst (tbl_update k f t))"
  by (simp add: tbl_update_def distinct_update split: option.split)

lemma distinct_tbl_insert_ignore [intro]:
  "distinct (map fst t) \<Longrightarrow> distinct (map fst (tbl_insert_ignore k new t))"
  by (auto simp: tbl_insert_ignore_def map_of_eq_None_iff split: option.split)

lemmas tbl_simps = at.get_upsert at.get_upd at.get_ins_ignore

end
