(* ===== verification/Py_Strings.thy ===== *)
theory Py_Strings
  imports Nf_Prelude
begin

section \<open>The string operations of Python the sources use\<close>

text \<open>
  \<open>str.strip\<close>, \<open>str.lower\<close>, \<open>str.replace\<close>, \<open>str.split\<close> on one character, \<open>join\<close>, the
  \<open>in\<close> test and the decimal rendering of numbers (\<open>f"{n}"\<close>, \<open>f"{n:04d}"\<close>), each as a total
  executable function on \<open>string\<close>, with the algebraic facts the components need.
\<close>

subsection \<open>Character classes\<close>

definition py_space :: "char \<Rightarrow> bool" where
  "py_space c = (let n = (of_char c :: nat) in
     9 \<le> n \<and> n \<le> 13 \<or> 28 \<le> n \<and> n \<le> 32 \<or> n = 133 \<or> n = 160)"

definition ascii_digit :: "char \<Rightarrow> bool" where
  "ascii_digit c = (let n = (of_char c :: nat) in 48 \<le> n \<and> n \<le> 57)"

definition ascii_upper :: "char \<Rightarrow> bool" where
  "ascii_upper c = (let n = (of_char c :: nat) in 65 \<le> n \<and> n \<le> 90)"

definition ascii_lower :: "char \<Rightarrow> bool" where
  "ascii_lower c = (let n = (of_char c :: nat) in 97 \<le> n \<and> n \<le> 122)"

definition lower_char :: "char \<Rightarrow> char" where
  "lower_char c = (let n = (of_char c :: nat) in
     if 65 \<le> n \<and> n \<le> 90 \<or> 192 \<le> n \<and> n \<le> 222 \<and> n \<noteq> 215 then char_of (n + 32) else c)"

definition py_lower :: "string \<Rightarrow> string" where
  "py_lower s = map lower_char s"

lemma length_py_lower [simp]: "length (py_lower s) = length s"
  by (simp add: py_lower_def)

subsection \<open>Stripping\<close>

definition strip_by :: "(char \<Rightarrow> bool) \<Rightarrow> string \<Rightarrow> string" where
  "strip_by P s = rev (dropWhile P (rev (dropWhile P s)))"

definition py_strip :: "string \<Rightarrow> string" where
  "py_strip s = strip_by py_space s"

lemma set_dropWhile_subset: "set (dropWhile P xs) \<subseteq> set xs"
  by (induction xs) auto

lemma set_strip_by: "set (strip_by P s) \<subseteq> set s"
  unfolding strip_by_def set_rev
  using set_dropWhile_subset [of P "rev (dropWhile P s)"] set_dropWhile_subset [of P s] by simp

lemma strip_by_last: "strip_by P s \<noteq> [] \<Longrightarrow> \<not> P (last (strip_by P s))"
  unfolding strip_by_def using hd_dropWhile [of P "rev (dropWhile P s)"] by (simp add: last_rev)

lemma strip_by_hd:
  assumes "strip_by P s \<noteq> []" shows "\<not> P (hd (strip_by P s))"
proof -
  let ?d = "dropWhile P s"
  have "dropWhile P (rev ?d) \<noteq> []"
    using assms by (simp add: strip_by_def)
  then obtain x where x: "x \<in> set ?d" "\<not> P x"
    by (metis dropWhile_eq_Nil_conv set_rev)
  then have ne: "?d \<noteq> []" by force
  have nP: "\<not> P (hd ?d)" using ne by (rule hd_dropWhile)
  have "rev ?d = takeWhile P (rev ?d) @ dropWhile P (rev ?d)" by simp
  then have "?d = strip_by P s @ rev (takeWhile P (rev ?d))"
    unfolding strip_by_def by (metis rev_append rev_rev_ident)
  then have "hd ?d = hd (strip_by P s)"
    using assms by (metis hd_append2)
  with nP show ?thesis by simp
qed

lemma dropWhile_hd_id: "xs = [] \<or> \<not> P (hd xs) \<Longrightarrow> dropWhile P xs = xs"
  by (cases xs) auto

lemma strip_by_id:
  assumes "s = [] \<or> \<not> P (hd s) \<and> \<not> P (last s)" shows "strip_by P s = s"
  using assms unfolding strip_by_def
  by (cases "s = []") (auto simp: dropWhile_hd_id hd_rev)

lemma strip_by_idem: "strip_by P (strip_by P s) = strip_by P s"
  by (rule strip_by_id) (use strip_by_hd strip_by_last in blast)

subsection \<open>Replacement, splitting, joining\<close>

text \<open>
  \<open>s.replace(old, new)\<close> for a non-empty \<open>old\<close>: the leftmost non-overlapping occurrences.
\<close>

function replace_str :: "string \<Rightarrow> string \<Rightarrow> string \<Rightarrow> string" where
  "replace_str old new s =
     (case s of
        [] \<Rightarrow> []
      | c # cs \<Rightarrow>
          if old \<noteq> [] \<and> prefix old s then new @ replace_str old new (drop (length old) s)
          else c # replace_str old new cs)"
  by pat_completeness auto
termination
  by (relation "measure (\<lambda>(old, new, s). length s)") (auto simp: prefix_def)

declare replace_str.simps [simp del]

lemma replace_str_Nil [simp]: "replace_str old new [] = []"
  by (subst replace_str.simps) simp

lemma replace_str_hit:
  assumes "old \<noteq> []"
  shows "replace_str old new (old @ s) = new @ replace_str old new s"
proof -
  obtain a as where old: "old = a # as" using assms by (cases old) auto
  then show ?thesis unfolding replace_str.simps [of old new "old @ s"] by simp
qed

lemma replace_str_miss:
  "\<not> prefix old (c # cs) \<Longrightarrow> replace_str old new (c # cs) = c # replace_str old new cs"
  by (subst replace_str.simps) simp

lemma replace_str_step [code_unfold]:
  "old \<noteq> [] \<Longrightarrow> prefix old (c # cs) \<Longrightarrow>
     replace_str old new (c # cs) = new @ replace_str old new (drop (length old) (c # cs))"
  by (subst replace_str.simps) simp

lemma set_replace_str: "set (replace_str old new s) \<subseteq> set new \<union> set s"
proof (induction old new s rule: replace_str.induct)
  case (1 old new s)
  show ?case
  proof (cases s)
    case (Cons c cs)
    show ?thesis
    proof (cases "old \<noteq> [] \<and> prefix old s")
      case True
      with 1 Cons have "set (replace_str old new (drop (length old) s))
          \<subseteq> set new \<union> set (drop (length old) s)" by simp
      with True Cons set_drop_subset [of "length old" s] show ?thesis
        unfolding replace_str.simps [of old new s] by auto
    next
      case False
      with 1 Cons show ?thesis unfolding replace_str.simps [of old new s] by auto
    qed
  qed simp
qed

fun split_on :: "char \<Rightarrow> string \<Rightarrow> string list" where
  "split_on c [] = [[]]"
| "split_on c (x # xs) =
     (if x = c then [] # split_on c xs
      else (case split_on c xs of [] \<Rightarrow> [[x]] | y # ys \<Rightarrow> (x # y) # ys))"

fun join_with :: "string \<Rightarrow> string list \<Rightarrow> string" where
  "join_with sep [] = []"
| "join_with sep [x] = x"
| "join_with sep (x # y # zs) = x @ sep @ join_with sep (y # zs)"

lemma split_on_nonempty [simp]: "split_on c s \<noteq> []"
  by (cases s) (auto split: list.splits)

lemma split_on_no_sep: "p \<in> set (split_on c s) \<Longrightarrow> c \<notin> set p"
proof (induction s arbitrary: p)
  case (Cons x xs)
  then show ?case
    by (cases "split_on c xs") (auto split: if_splits)
qed simp

lemma split_on_single: "c \<notin> set s \<Longrightarrow> split_on c s = [s]"
  by (induction s) auto

lemma split_on_append_sep: "c \<notin> set s \<Longrightarrow> split_on c (s @ c # t) = s # split_on c t"
  by (induction s) auto

lemma split_on_join:
  assumes "xs \<noteq> []" and "\<And>x. x \<in> set xs \<Longrightarrow> c \<notin> set x"
  shows "split_on c (join_with [c] xs) = xs"
  using assms
  by (induction "[c]" xs rule: join_with.induct) (auto simp: split_on_single split_on_append_sep)

lemma set_join_with: "set (join_with sep xs) \<subseteq> set sep \<union> \<Union> (set (map set xs))"
  by (induction sep xs rule: join_with.induct) auto

lemma join_with_eq_Nil: "sep \<noteq> [] \<Longrightarrow> join_with sep xs = [] \<longleftrightarrow> xs = [] \<or> xs = [[]]"
  by (cases "(sep, xs)" rule: join_with.cases) auto

text \<open>The test \<open>needle in hay\<close>.\<close>

fun contains_str :: "string \<Rightarrow> string \<Rightarrow> bool" where
  "contains_str needle [] = (needle = [])"
| "contains_str needle (c # cs) = (prefix needle (c # cs) \<or> contains_str needle cs)"

lemma contains_str_iff: "contains_str n s \<longleftrightarrow> (\<exists>u v. s = u @ n @ v)"
proof (induction s)
  case (Cons c cs)
  show ?case
  proof
    assume "contains_str n (c # cs)"
    then consider "prefix n (c # cs)" | "contains_str n cs" by auto
    then show "\<exists>u v. c # cs = u @ n @ v"
    proof cases
      case 1
      then show ?thesis unfolding prefix_def by (metis append_Nil)
    next
      case 2
      then show ?thesis using Cons.IH by (metis append_Cons)
    qed
  next
    assume "\<exists>u v. c # cs = u @ n @ v"
    then obtain u v where uv: "c # cs = u @ n @ v" by blast
    show "contains_str n (c # cs)"
    proof (cases u)
      case Nil
      with uv have "prefix n (c # cs)" by (simp add: prefix_def)
      then show ?thesis by simp
    next
      case (Cons d ds)
      with uv have "cs = ds @ n @ v" by simp
      then show ?thesis using Cons.IH by auto
    qed
  qed
qed simp

text \<open>The text of a simple string inside a message: \<open>'{s}'\<close>.\<close>

definition py_quote :: "string \<Rightarrow> string" where
  "py_quote s = [CHR 0x27] @ s @ [CHR 0x27]"

subsection \<open>Decimal numbers\<close>

definition digit_char :: "nat \<Rightarrow> char" where
  "digit_char n = char_of (48 + n)"

fun nat_str :: "nat \<Rightarrow> string" where
  "nat_str n = (if n < 10 then [digit_char n] else nat_str (n div 10) @ [digit_char (n mod 10)])"

declare nat_str.simps [simp del]

definition int_str :: "int \<Rightarrow> string" where
  "int_str i = (if i < 0 then CHR ''-'' # nat_str (nat (- i)) else nat_str (nat i))"

text \<open>\<open>f"{n:0wd}"\<close>\<close>

definition pad0 :: "nat \<Rightarrow> nat \<Rightarrow> string" where
  "pad0 w n = (let d = nat_str n in replicate (w - length d) (CHR ''0'') @ d)"

lemma nat_str_nonempty [simp]: "nat_str n \<noteq> []" "[] \<noteq> nat_str n"
  by (subst nat_str.simps, simp)+

lemma digit_char_inj: "m < 10 \<Longrightarrow> n < 10 \<Longrightarrow> digit_char m = digit_char n \<Longrightarrow> m = n"
  by (auto simp: digit_char_def dest!: char_of_eq_iff [THEN iffD1])

lemma digit_char_digit: "n < 10 \<Longrightarrow> ascii_digit (digit_char n)"
  by (simp add: digit_char_def ascii_digit_def)

lemma nat_str_digits: "c \<in> set (nat_str n) \<Longrightarrow> ascii_digit c"
proof (induction n rule: nat_str.induct)
  case (1 n)
  then show ?case
    by (cases "n < 10") (auto simp: nat_str.simps [of n] digit_char_digit)
qed

lemma nat_str_inj: "nat_str m = nat_str n \<Longrightarrow> m = n"
proof (induction m arbitrary: n rule: nat_str.induct)
  case (1 m)
  show ?case
  proof (cases "m < 10")
    case True
    with "1.prems" show ?thesis
      by (cases "n < 10") (simp_all add: nat_str.simps [of m] nat_str.simps [of n] digit_char_inj)
  next
    case False
    note mf = False
    show ?thesis
    proof (cases "n < 10")
      case True
      with mf "1.prems" show ?thesis by (auto simp: nat_str.simps [of m] nat_str.simps [of n])
    next
      case False
      with mf "1.prems" have "nat_str (m div 10) = nat_str (n div 10)"
        and "digit_char (m mod 10) = digit_char (n mod 10)"
        by (auto simp: nat_str.simps [of m] nat_str.simps [of n])
      with "1.IH" [OF mf, of "n div 10"] digit_char_inj [of "m mod 10" "n mod 10"]
      show ?thesis by (metis div_mult_mod_eq mod_less_divisor zero_less_numeral)
    qed
  qed
qed

lemma pad0_nonempty [simp]: "pad0 w n \<noteq> []"
  by (simp add: pad0_def Let_def)

lemma pad0_digits: "c \<in> set (pad0 w n) \<Longrightarrow> ascii_digit c"
  by (auto simp: pad0_def Let_def ascii_digit_def dest: nat_str_digits [unfolded ascii_digit_def])


text \<open>\<open>re.sub(r"[^\<dots>]+", "_", s)\<close>: each maximal run of characters outside a class becomes one underscore.\<close>

function sub_runs :: "(char \<Rightarrow> bool) \<Rightarrow> string \<Rightarrow> string" where
  "sub_runs ok [] = []"
| "sub_runs ok (c # cs) =
     (if ok c then c # sub_runs ok cs else CHR ''_'' # sub_runs ok (dropWhile (\<lambda>x. \<not> ok x) cs))"
  by pat_completeness auto
termination
  by (relation "measure (\<lambda>(ok, s). length s)") (auto simp: le_imp_less_Suc length_dropWhile_le)

lemma set_sub_runs: "set (sub_runs ok s) \<subseteq> insert (CHR ''_'') {c. ok c}"
  by (induction ok s rule: sub_runs.induct) auto

lemma sub_runs_id: "\<forall>c \<in> set s. ok c \<Longrightarrow> sub_runs ok s = s"
  by (induction s) auto

end
