(* ===== verification/Registry.thy ===== *)
theory Registry
  imports Py_Strings
begin

section \<open>The registry (\<open>domain/registry.py\<close>)\<close>

text \<open>
  The SQLite system of record: one record per table row, one association list per keyed table,
  a list and an AUTOINCREMENT counter per log table.  Each method of \<open>Registry\<close> is a step
  \<open>registry_db \<Rightarrow> 'a res \<times> registry_db\<close>; the timestamps it draws from \<open>_utc_now()\<close> are its first
  arguments.  Every method runs in one \<open>BEGIN IMMEDIATE\<close> transaction and rolls back when it
  raises, so a failing method returns the database it was given.  Foreign keys are enforced
  (\<open>_set_pragmas\<close>): a violated one is an \<open>IntegrityError\<close>.  The database file is taken to be
  bootstrapped; \<open>initialize\<close> models the bootstrap and the version check.
\<close>

subsection \<open>Rows\<close>

record file_record =
  f_sha256 :: string
  f_size_bytes :: int
  f_status :: string
  f_original_filename :: "string option"
  f_current_path :: "string option"
  f_first_seen_at :: string
  f_updated_at :: string

record audit_record =
  au_id :: nat
  au_sha256 :: "string option"
  au_account_name :: "string option"
  au_action :: string
  au_reason :: "string option"
  au_details_json :: "string option"
  au_actor :: string
  au_ts :: string

record live_photo_pair_record =
  lp_pair_id :: string
  lp_account :: string
  lp_stem :: string
  lp_photo_sha256 :: string
  lp_video_sha256 :: string
  lp_status :: string
  lp_created_at :: string
  lp_updated_at :: string

record accept_context =
  ac_account :: string
  ac_source_path :: string
  ac_modified_time :: string

record metadata_row =
  m_account_name :: string
  m_onedrive_id :: string
  m_size_bytes :: int
  m_modified_time :: string
  m_sha256 :: string
  m_created_at :: string
  m_updated_at :: string

record origin_row =
  o_account :: string
  o_onedrive_id :: string
  o_sha256 :: string
  o_path_hint :: "string option"
  o_first_seen_at :: string
  o_last_seen_at :: string

record accepted_row =
  ar_id :: nat
  ar_sha256 :: string
  ar_account :: string
  ar_source_path :: string
  ar_accepted_at :: string

record hash_cache_row =
  hc_account_name :: string
  hc_source_relpath :: "string option"
  hc_hash_algo :: string
  hc_hash_value :: string
  hc_verified_sha256 :: "string option"
  hc_first_seen_at :: string
  hc_updated_at :: string

record terminal_row =
  t_id :: nat
  t_batch_run_id :: string
  t_sequence_no :: int
  t_account :: string
  t_onedrive_id :: string
  t_sha256 :: "string option"
  t_action :: string
  t_reason :: "string option"
  t_actor :: string
  t_ts :: string

record blocked_rule_row =
  br_id :: nat
  br_pattern :: string
  br_rule_type :: string
  br_reason :: "string option"
  br_enabled :: bool
  br_created_at :: string
  br_updated_at :: string

record idempotency_row =
  ik_key :: string
  ik_action :: string
  ik_item_id :: string
  ik_response_status :: int
  ik_response_body_json :: string
  ik_created_at :: string
  ik_expires_at :: string

type_synonym hash_key = "string \<times> string option \<times> string \<times> string"

record registry_db =
  user_version :: int
  files :: "(string, file_record) tbl"
  metadata_index :: "(string \<times> string, metadata_row) tbl"
  accepted_records :: "accepted_row list"
  accepted_seq :: nat
  file_origins :: "(string \<times> string, origin_row) tbl"
  audit_log :: "audit_record list"
  audit_seq :: nat
  live_photo_pairs :: "(string, live_photo_pair_record) tbl"
  external_hash_cache :: "(hash_key, hash_cache_row) tbl"
  relpath_notnull :: bool
  ingest_terminal_audit :: "terminal_row list"
  terminal_seq :: nat
  blocked_rules :: "blocked_rule_row list"
  blocked_seq :: nat
  ui_action_idempotency :: "(string, idempotency_row) tbl"

definition ALLOWED_FILE_STATUSES :: "string list" where
  "ALLOWED_FILE_STATUSES = [''pending'', ''accepted'', ''rejected'', ''purged'']"

definition PAIR_STATUSES :: "string list" where
  "PAIR_STATUSES = [''paired'', ''pending'', ''accepted'', ''rejected'', ''purged'']"

definition LATEST_SCHEMA_VERSION :: int where
  "LATEST_SCHEMA_VERSION = 2"

definition HASH_IMPORT_ACCOUNT :: string where
  "HASH_IMPORT_ACCOUNT = ''__hash_import__''"

subsection \<open>Bootstrap\<close>

text \<open>
  A database file that was never initialised has \<open>user_version\<close> 0 and no tables, which the model
  reads as empty ones.
\<close>

definition empty_db :: registry_db where
  "empty_db = \<lparr>user_version = 0, files = [], metadata_index = [], accepted_records = [],
     accepted_seq = 0, file_origins = [], audit_log = [], audit_seq = 0, live_photo_pairs = [],
     external_hash_cache = [], relpath_notnull = False, ingest_terminal_audit = [],
     terminal_seq = 0, blocked_rules = [], blocked_seq = 0, ui_action_idempotency = []\<rparr>"

definition run_migrations :: "registry_db \<Rightarrow> unit res \<times> registry_db" where
  "run_migrations d =
     (if user_version d > LATEST_SCHEMA_VERSION
      then (Inl (RegistryError (''Database schema version '' @ int_str (user_version d) @
              '' is newer than supported '' @ int_str LATEST_SCHEMA_VERSION)), d)
      else if user_version d = 0
      then (Inr (), d\<lparr>user_version := LATEST_SCHEMA_VERSION\<rparr>)
      else if user_version d \<noteq> LATEST_SCHEMA_VERSION
      then (Inl (RegistryError (''Legacy registry schema detected. v2.0 requires a freshly bootstrapped '' @
              ''registry.db at schema '' @ int_str LATEST_SCHEMA_VERSION @ ''; found schema '' @
              int_str (user_version d) @ ''.'')), d)
      else (Inr (), d))"

text \<open>
  The H1 migration rebuilds \<open>external_hash_cache\<close> with a nullable \<open>source_relpath\<close> and copies
  every row.
\<close>

definition ensure_external_hash_cache_h1_schema :: "registry_db \<Rightarrow> registry_db" where
  "ensure_external_hash_cache_h1_schema d =
     (if relpath_notnull d
      then d\<lparr>external_hash_cache := external_hash_cache d, relpath_notnull := False\<rparr> else d)"

definition initialize :: "registry_db \<Rightarrow> unit res \<times> registry_db" where
  "initialize d =
     and_then (run_migrations d) (\<lambda>_ d. (Inr (), ensure_external_hash_cache_h1_schema d))"

definition schema_version :: "registry_db \<Rightarrow> int" where
  "schema_version d = user_version d"

subsection \<open>Row insertion helpers\<close>

definition file_known :: "registry_db \<Rightarrow> string \<Rightarrow> bool" where
  "file_known d sha \<longleftrightarrow> tbl_get (files d) sha \<noteq> None"

definition add_audit ::
  "string option \<Rightarrow> string option \<Rightarrow> string \<Rightarrow> string option \<Rightarrow> string option \<Rightarrow> string \<Rightarrow> string
     \<Rightarrow> registry_db \<Rightarrow> registry_db" where
  "add_audit sha acct action reason details actor now d =
     d\<lparr>audit_log := audit_log d @ [\<lparr>au_id = Suc (audit_seq d), au_sha256 = sha,
          au_account_name = acct, au_action = action, au_reason = reason,
          au_details_json = details, au_actor = actor, au_ts = now\<rparr>],
       audit_seq := Suc (audit_seq d)\<rparr>"

definition coalesce :: "'a option \<Rightarrow> 'a option \<Rightarrow> 'a option" where
  "coalesce a b = (case a of Some x \<Rightarrow> Some x | None \<Rightarrow> b)"

definition put_file ::
  "string \<Rightarrow> int \<Rightarrow> string \<Rightarrow> string option \<Rightarrow> string option \<Rightarrow> string \<Rightarrow> registry_db \<Rightarrow> registry_db" where
  "put_file sha sz st orig cur now d =
     d\<lparr>files := tbl_upsert sha
        \<lparr>f_sha256 = sha, f_size_bytes = sz, f_status = st, f_original_filename = orig,
         f_current_path = cur, f_first_seen_at = now, f_updated_at = now\<rparr>
        (\<lambda>old. old\<lparr>f_size_bytes := sz, f_status := st,
            f_original_filename := coalesce orig (f_original_filename old),
            f_current_path := cur, f_updated_at := now\<rparr>)
        (files d)\<rparr>"

definition put_metadata ::
  "string \<Rightarrow> string \<Rightarrow> int \<Rightarrow> string \<Rightarrow> string \<Rightarrow> string \<Rightarrow> registry_db \<Rightarrow> registry_db" where
  "put_metadata account oid sz mtime sha now d =
     d\<lparr>metadata_index := tbl_upsert (account, oid)
        \<lparr>m_account_name = account, m_onedrive_id = oid, m_size_bytes = sz,
         m_modified_time = mtime, m_sha256 = sha, m_created_at = now, m_updated_at = now\<rparr>
        (\<lambda>old. old\<lparr>m_size_bytes := sz, m_modified_time := mtime, m_sha256 := sha,
            m_updated_at := now\<rparr>)
        (metadata_index d)\<rparr>"

definition put_origin ::
  "string \<Rightarrow> string \<Rightarrow> string \<Rightarrow> string option \<Rightarrow> string \<Rightarrow> registry_db \<Rightarrow> registry_db" where
  "put_origin account oid sha hint now d =
     d\<lparr>file_origins := tbl_upsert (account, oid)
        \<lparr>o_account = account, o_onedrive_id = oid, o_sha256 = sha, o_path_hint = hint,
         o_first_seen_at = now, o_last_seen_at = now\<rparr>
        (\<lambda>old. old\<lparr>o_sha256 := sha, o_path_hint := hint, o_last_seen_at := now\<rparr>)
        (file_origins d)\<rparr>"

definition add_accepted :: "string \<Rightarrow> string \<Rightarrow> string \<Rightarrow> string \<Rightarrow> registry_db \<Rightarrow> registry_db" where
  "add_accepted sha account source now d =
     d\<lparr>accepted_records := accepted_records d @ [\<lparr>ar_id = Suc (accepted_seq d), ar_sha256 = sha,
          ar_account = account, ar_source_path = source, ar_accepted_at = now\<rparr>],
       accepted_seq := Suc (accepted_seq d)\<rparr>"

definition update_file :: "string \<Rightarrow> (file_record \<Rightarrow> file_record) \<Rightarrow> registry_db \<Rightarrow> registry_db" where
  "update_file sha g d = d\<lparr>files := tbl_update sha g (files d)\<rparr>"

text \<open>The foreign key of \<open>file_origins\<close>, \<open>accepted_records\<close> and \<open>live_photo_pairs\<close>.\<close>

definition fk_exn :: exn where
  "fk_exn = IntegrityError ''FOREIGN KEY constraint failed''"

subsection \<open>Write methods\<close>

definition validate_status :: "string \<Rightarrow> bool" where
  "validate_status st \<longleftrightarrow> st \<in> set ALLOWED_FILE_STATUSES"

definition invalid_status_exn :: "string \<Rightarrow> exn" where
  "invalid_status_exn st =
     RegistryError (''Invalid status '' @ py_quote st @ '', expected one of ['' @
       join_with '', '' (map py_quote (sort ALLOWED_FILE_STATUSES)) @ '']'')"

definition create_or_update_file ::
  "string \<Rightarrow> string \<Rightarrow> int \<Rightarrow> string \<Rightarrow> string option \<Rightarrow> string option \<Rightarrow> registry_db
     \<Rightarrow> unit res \<times> registry_db" where
  "create_or_update_file now sha sz st orig cur d =
     guard (validate_status st) (invalid_status_exn st) d
       (\<lambda>d. (Inr (), put_file sha sz st orig cur now d))"

definition upsert_metadata_index ::
  "string \<Rightarrow> string \<Rightarrow> string \<Rightarrow> int \<Rightarrow> string \<Rightarrow> string \<Rightarrow> registry_db \<Rightarrow> unit res \<times> registry_db" where
  "upsert_metadata_index now account oid sz mtime sha d =
     (Inr (), put_metadata account oid sz mtime sha now d)"

definition upsert_file_origin ::
  "string \<Rightarrow> string \<Rightarrow> string \<Rightarrow> string \<Rightarrow> string option \<Rightarrow> registry_db \<Rightarrow> unit res \<times> registry_db" where
  "upsert_file_origin now sha account oid hint d =
     guard (file_known d sha) fk_exn d (\<lambda>d. (Inr (), put_origin account oid sha hint now d))"

definition record_acceptance ::
  "string \<Rightarrow> string \<Rightarrow> string \<Rightarrow> string \<Rightarrow> registry_db \<Rightarrow> unit res \<times> registry_db" where
  "record_acceptance now sha account source d =
     guard (file_known d sha) fk_exn d (\<lambda>d. (Inr (), add_accepted sha account source now d))"

text \<open>
  \<open>fail_after_step\<close> is the failure injection of the source: after the numbered write the
  transaction is rolled back and an error raised.
\<close>

definition finalize_unknown_ingest ::
  "string \<Rightarrow> string \<Rightarrow> int \<Rightarrow> string \<Rightarrow> string \<Rightarrow> string \<Rightarrow> string \<Rightarrow> string \<Rightarrow> string \<Rightarrow> string
     \<Rightarrow> nat option \<Rightarrow> registry_db \<Rightarrow> unit res \<times> registry_db" where
  "finalize_unknown_ingest now sha sz orig cur account oid source mtime actor fail_after_step d =
     (let d1 = put_file sha sz ''pending'' (Some orig) (Some cur) now d;
          d2 = put_metadata account oid sz mtime sha now d1;
          d3 = put_origin account oid sha (Some source) now d2;
          d4 = add_audit (Some sha) (Some account) ''pending'' (Some ''unknown_hash'') None actor now d3
      in if fail_after_step = Some 1
         then (Inl (RegistryError ''Injected failure after files write''), d)
         else if fail_after_step = Some 2
         then (Inl (RegistryError ''Injected failure after metadata_index write''), d)
         else if fail_after_step = Some 3
         then (Inl (RegistryError ''Injected failure after file_origins write''), d)
         else if fail_after_step = Some 4
         then (Inl (RegistryError ''Injected failure after audit_log write''), d)
         else (Inr (), d4))"

definition finalize_accept_from_pending ::
  "string \<Rightarrow> string \<Rightarrow> string \<Rightarrow> string \<Rightarrow> string \<Rightarrow> string \<Rightarrow> string \<Rightarrow> registry_db
     \<Rightarrow> unit res \<times> registry_db" where
  "finalize_accept_from_pending now sha new_path account source actor reason d =
     (case tbl_get (files d) sha of
        None \<Rightarrow> (Inl (RegistryError (''Cannot accept missing sha256: '' @ sha)), d)
      | Some row \<Rightarrow>
          if f_status row \<noteq> ''pending''
          then (Inl (RegistryError (''Cannot accept file with status '' @ py_quote (f_status row) @
                  '': expected '' @ py_quote ''pending'')), d)
          else (Inr (), add_audit (Some sha) (Some account) ''accepted'' (Some reason) None actor now
                  (add_accepted sha account source now
                    (update_file sha (\<lambda>r. r\<lparr>f_status := ''accepted'',
                        f_current_path := Some new_path, f_updated_at := now\<rparr>) d))))"

definition finalize_known_ingest ::
  "string \<Rightarrow> string \<Rightarrow> string \<Rightarrow> string \<Rightarrow> string \<Rightarrow> string \<Rightarrow> string \<Rightarrow> int \<Rightarrow> string \<Rightarrow> registry_db
     \<Rightarrow> unit res \<times> registry_db" where
  "finalize_known_ingest now sha known_status account oid source mtime sz actor d =
     guard (known_status \<in> set ALLOWED_FILE_STATUSES)
       (RegistryError (''Invalid known status: '' @ known_status)) d
       (\<lambda>d. guard (file_known d sha) fk_exn d
         (\<lambda>d. (Inr (), add_audit (Some sha) (Some account) (''discard_'' @ known_status)
                  (Some ''known_hash'') None actor now
                  (put_origin account oid sha (Some source) now
                    (put_metadata account oid sz mtime sha now d)))))"

definition clear_current_path :: "string \<Rightarrow> string \<Rightarrow> registry_db \<Rightarrow> unit res \<times> registry_db" where
  "clear_current_path now sha d =
     (Inr (), update_file sha (\<lambda>r. r\<lparr>f_current_path := None, f_updated_at := now\<rparr>) d)"

definition update_current_path ::
  "string \<Rightarrow> string \<Rightarrow> string \<Rightarrow> registry_db \<Rightarrow> unit res \<times> registry_db" where
  "update_current_path now sha new_path d =
     (Inr (), update_file sha (\<lambda>r. r\<lparr>f_current_path := Some new_path, f_updated_at := now\<rparr>) d)"

definition finalize_purge_from_rejected ::
  "string \<Rightarrow> string \<Rightarrow> string \<Rightarrow> string \<Rightarrow> registry_db \<Rightarrow> unit res \<times> registry_db" where
  "finalize_purge_from_rejected now sha reason actor d =
     (case tbl_get (files d) sha of
        None \<Rightarrow> (Inl (RegistryError (''Cannot purge missing sha256: '' @ sha)), d)
      | Some row \<Rightarrow>
          if f_status row \<noteq> ''rejected''
          then (Inl (RegistryError (''Cannot purge sha256 with status '' @ py_quote (f_status row) @
                  '': expected '' @ py_quote ''rejected'')), d)
          else (Inr (), add_audit (Some sha) None ''purged'' (Some reason) None actor now
                  (update_file sha (\<lambda>r. r\<lparr>f_status := ''purged'', f_current_path := None,
                      f_updated_at := now\<rparr>) d)))"

definition transition_status ::
  "string \<Rightarrow> string \<Rightarrow> string \<Rightarrow> string \<Rightarrow> string \<Rightarrow> registry_db \<Rightarrow> unit res \<times> registry_db" where
  "transition_status now sha new_status reason actor d =
     guard (validate_status new_status) (invalid_status_exn new_status) d
       (\<lambda>d. guard (file_known d sha)
          (RegistryError (''Cannot transition missing sha256: '' @ sha)) d
          (\<lambda>d. (Inr (), add_audit (Some sha) None new_status (Some reason) None actor now
                   (update_file sha (\<lambda>r. r\<lparr>f_status := new_status, f_updated_at := now\<rparr>) d))))"

definition append_audit_event ::
  "string \<Rightarrow> string option \<Rightarrow> string \<Rightarrow> string option \<Rightarrow> string \<Rightarrow> string option \<Rightarrow> string option
     \<Rightarrow> registry_db \<Rightarrow> nat res \<times> registry_db" where
  "append_audit_event now sha action reason actor account details d =
     (Inr (Suc (audit_seq d)), add_audit sha account action reason details actor now d)"

definition append_ingest_terminal_event ::
  "string \<Rightarrow> string \<Rightarrow> int \<Rightarrow> string \<Rightarrow> string \<Rightarrow> string option \<Rightarrow> string \<Rightarrow> string option \<Rightarrow> string
     \<Rightarrow> registry_db \<Rightarrow> nat res \<times> registry_db" where
  "append_ingest_terminal_event now run seqno account oid sha action reason actor d =
     (Inr (Suc (terminal_seq d)),
      d\<lparr>ingest_terminal_audit := ingest_terminal_audit d @ [\<lparr>t_id = Suc (terminal_seq d),
           t_batch_run_id = run, t_sequence_no = seqno, t_account = account, t_onedrive_id = oid,
           t_sha256 = sha, t_action = action, t_reason = reason, t_actor = actor, t_ts = now\<rparr>],
        terminal_seq := Suc (terminal_seq d)\<rparr>)"

subsection \<open>Read methods\<close>

definition get_file :: "registry_db \<Rightarrow> string \<Rightarrow> file_record option" where
  "get_file d sha = tbl_get (files d) sha"

definition list_audit_events :: "registry_db \<Rightarrow> string \<Rightarrow> audit_record list" where
  "list_audit_events d sha = sort_key au_id (filter (\<lambda>r. au_sha256 r = Some sha) (audit_log d))"

definition acceptance_count :: "registry_db \<Rightarrow> string \<Rightarrow> nat" where
  "acceptance_count d sha = length (filter (\<lambda>r. ar_sha256 r = sha) (accepted_records d))"

text \<open>
  \<open>ORDER BY last_seen_at DESC LIMIT 1\<close>; among equal timestamps, whose order SQL leaves open, the
  earliest row of the table.
\<close>

fun latest_origin :: "origin_row list \<Rightarrow> origin_row option" where
  "latest_origin [] = None"
| "latest_origin (r # rs) =
     (case latest_origin rs of
        None \<Rightarrow> Some r
      | Some b \<Rightarrow> if o_last_seen_at r < o_last_seen_at b then Some b else Some r)"

definition origins_of :: "registry_db \<Rightarrow> string \<Rightarrow> origin_row list" where
  "origins_of d sha = filter (\<lambda>r. o_sha256 r = sha) (map snd (file_origins d))"

definition get_accept_context :: "string \<Rightarrow> registry_db \<Rightarrow> string \<Rightarrow> accept_context option" where
  "get_accept_context now d sha =
     (case latest_origin (origins_of d sha) of
        None \<Rightarrow> None
      | Some r \<Rightarrow>
          Some \<lparr>ac_account = o_account r,
            ac_source_path = (case o_path_hint r of Some h \<Rightarrow> h | None \<Rightarrow> ''/''),
            ac_modified_time =
              (case tbl_get (metadata_index d) (o_account r, o_onedrive_id r) of
                 Some m \<Rightarrow> if m_sha256 m = o_sha256 r \<and> m_modified_time m \<noteq> [] then m_modified_time m
                           else now
               | None \<Rightarrow> now)\<rparr>)"

subsection \<open>Hash caches\<close>

definition upsert_external_hash_cache ::
  "string \<Rightarrow> string \<Rightarrow> string option \<Rightarrow> string \<Rightarrow> string \<Rightarrow> string option \<Rightarrow> registry_db
     \<Rightarrow> unit res \<times> registry_db" where
  "upsert_external_hash_cache now account relpath algo val verified d =
     guard (relpath \<noteq> None \<or> \<not> relpath_notnull d)
       (IntegrityError ''NOT NULL constraint failed: external_hash_cache.source_relpath'') d
       (\<lambda>d. (Inr (), d\<lparr>external_hash_cache := tbl_upsert (account, relpath, algo, val)
          \<lparr>hc_account_name = account, hc_source_relpath = relpath, hc_hash_algo = algo,
           hc_hash_value = val, hc_verified_sha256 = verified, hc_first_seen_at = now,
           hc_updated_at = now\<rparr>
          (\<lambda>old. old\<lparr>hc_verified_sha256 := coalesce verified (hc_verified_sha256 old),
              hc_updated_at := now\<rparr>)
          (external_hash_cache d)\<rparr>))"

definition import_key :: "string \<Rightarrow> hash_key" where
  "import_key h = (HASH_IMPORT_ACCOUNT, None, ''sha256'', h)"

text \<open>
  \<open>INSERT OR IGNORE\<close> skips a row that violates a NOT NULL constraint too, so on a database whose
  \<open>source_relpath\<close> is not nullable nothing is imported.
\<close>

definition insert_import_hash :: "string \<Rightarrow> string \<Rightarrow> registry_db \<Rightarrow> registry_db" where
  "insert_import_hash now h d =
     (if relpath_notnull d then d else d\<lparr>external_hash_cache := tbl_insert_ignore (import_key h)
        \<lparr>hc_account_name = HASH_IMPORT_ACCOUNT, hc_source_relpath = None, hc_hash_algo = ''sha256'',
         hc_hash_value = h, hc_verified_sha256 = Some h, hc_first_seen_at = now,
         hc_updated_at = now\<rparr> (external_hash_cache d)\<rparr>)"

record chunk_result =
  cr_chunk_index :: nat
  cr_imported :: nat
  cr_skipped_existing :: nat

text \<open>
  One chunk is one transaction; \<open>imported\<close> is the difference of \<open>total_changes\<close>, the number of
  rows the chunk inserted.
\<close>

definition import_chunk :: "string \<Rightarrow> nat \<Rightarrow> string list \<Rightarrow> registry_db \<Rightarrow> chunk_result \<times> registry_db" where
  "import_chunk now idx hs d =
     (let d' = fold (insert_import_hash now) hs d;
          imported = length (external_hash_cache d') - length (external_hash_cache d)
      in (\<lparr>cr_chunk_index = idx, cr_imported = imported,
           cr_skipped_existing = length hs - imported\<rparr>, d'))"

function import_chunks ::
  "string \<Rightarrow> nat \<Rightarrow> nat \<Rightarrow> string list \<Rightarrow> registry_db \<Rightarrow> chunk_result list \<times> registry_db" where
  "import_chunks now sz idx hs d =
     (if sz = 0 \<or> hs = [] then ([], d)
      else let (r, d1) = import_chunk now idx (take sz hs) d;
               (rs, d2) = import_chunks now sz (Suc idx) (drop sz hs) d1
           in (r # rs, d2))"
  by pat_completeness auto
termination
  by (relation "measure (\<lambda>(now, sz, idx, hs, d). length hs)") auto

declare import_chunks.simps [simp del]

definition bulk_insert_hash_import ::
  "string \<Rightarrow> string list \<Rightarrow> int \<Rightarrow> registry_db \<Rightarrow> chunk_result list res \<times> registry_db" where
  "bulk_insert_hash_import now hashes chunk_size d =
     guard (chunk_size > 0) (RegistryError ''chunk_size must be > 0'') d
       (\<lambda>d. if hashes = [] then (Inr [], d)
            else let (rs, d') = import_chunks now (nat chunk_size) 1 hashes d
                 in (Inr rs, d'))"

subsection \<open>Live photo pairs\<close>

definition upsert_live_photo_pair ::
  "string \<Rightarrow> string \<Rightarrow> string \<Rightarrow> string \<Rightarrow> string \<Rightarrow> string \<Rightarrow> string \<Rightarrow> registry_db
     \<Rightarrow> unit res \<times> registry_db" where
  "upsert_live_photo_pair now pair_id account stem photo video st d =
     guard (st \<in> set PAIR_STATUSES) (RegistryError (''Invalid live photo pair status: '' @ st)) d
       (\<lambda>d. guard (file_known d photo \<and> file_known d video) fk_exn d
         (\<lambda>d. (Inr (), d\<lparr>live_photo_pairs := tbl_upsert pair_id
            \<lparr>lp_pair_id = pair_id, lp_account = account, lp_stem = stem, lp_photo_sha256 = photo,
             lp_video_sha256 = video, lp_status = st, lp_created_at = now, lp_updated_at = now\<rparr>
            (\<lambda>old. old\<lparr>lp_account := account, lp_stem := stem, lp_photo_sha256 := photo,
                lp_video_sha256 := video, lp_status := st, lp_updated_at := now\<rparr>)
            (live_photo_pairs d)\<rparr>)))"

definition get_live_photo_pair :: "registry_db \<Rightarrow> string \<Rightarrow> live_photo_pair_record option" where
  "get_live_photo_pair d pair_id = tbl_get (live_photo_pairs d) pair_id"

definition get_live_photo_pair_for_member ::
  "registry_db \<Rightarrow> string \<Rightarrow> live_photo_pair_record option" where
  "get_live_photo_pair_for_member d sha =
     find (\<lambda>p. lp_photo_sha256 p = sha \<or> lp_video_sha256 p = sha) (map snd (live_photo_pairs d))"

text \<open>
  Three transactions with a timestamp each; the first that fails leaves the earlier ones
  committed.
\<close>

definition apply_live_photo_pair_status ::
  "string \<Rightarrow> string \<Rightarrow> string \<Rightarrow> string \<Rightarrow> string \<Rightarrow> string \<Rightarrow> string \<Rightarrow> registry_db
     \<Rightarrow> unit res \<times> registry_db" where
  "apply_live_photo_pair_status now1 now2 now3 pair_id new_status reason actor d =
     guard (new_status \<in> set [''pending'', ''accepted'', ''rejected'', ''purged''])
       (RegistryError (''Invalid live photo propagated status: '' @ new_status)) d
       (\<lambda>d. case get_live_photo_pair d pair_id of
          None \<Rightarrow> (Inl (RegistryError (''Missing live photo pair: '' @ pair_id)), d)
        | Some pair \<Rightarrow>
            and_then (transition_status now1 (lp_photo_sha256 pair) new_status reason actor d)
              (\<lambda>_ d. and_then (transition_status now2 (lp_video_sha256 pair) new_status reason actor d)
                (\<lambda>_ d. (Inr (), d\<lparr>live_photo_pairs := tbl_update pair_id
                    (\<lambda>p. p\<lparr>lp_status := new_status, lp_updated_at := now3\<rparr>)
                    (live_photo_pairs d)\<rparr>))))"

subsection \<open>Audit maintenance\<close>

text \<open>
  The rebuilt \<open>audit_log\<close> table keeps the ids of the retained rows.  Its AUTOINCREMENT counter is
  the one of the new table: the largest id copied into it, since SQLite drops the old table's
  counter with the table and renames the new one.
\<close>

definition prune_auth_failure_audit_backlog ::
  "int \<Rightarrow> registry_db \<Rightarrow> nat res \<times> registry_db" where
  "prune_auth_failure_audit_backlog keep_latest d =
     guard (keep_latest \<ge> 0) (RegistryError ''keep_latest must be >= 0'') d
       (\<lambda>d. let fails = filter (\<lambda>r. au_action r = ''auth_failure'') (audit_log d);
                prune_count = nat (max 0 (int (length fails) - keep_latest))
            in if prune_count = 0 then (Inr 0, d)
               else let kept_ids = map au_id (take (nat keep_latest) (rev (sort_key au_id fails)));
                        kept = sort_key au_id
                          (filter (\<lambda>r. au_action r \<noteq> ''auth_failure'' \<or> au_id r \<in> set kept_ids)
                             (audit_log d))
                    in (Inr prune_count,
                        d\<lparr>audit_log := kept, audit_seq := Max (insert 0 (set (map au_id kept)))\<rparr>))"

end
