(* ===== verification/Registry_Inv.thy ===== *)
theory Registry_Inv
  imports Registry
begin

section \<open>Invariants of the registry\<close>

text \<open>
  \<open>wf_db\<close> is the integrity of the whole database: unique keys, rows stored under their own key,
  statuses from the declared sets, foreign keys that resolve, log ids that increase strictly and
  stay within the AUTOINCREMENT counters.  Each write helper keeps it, hence each method does.
  The frame relations say what every method leaves alone: the audit log only grows
  (\<open>audit_extends\<close>), no file record disappears (\<open>records_kept\<close>), and, for the methods the ingest
  pipeline uses, no file becomes accepted (\<open>no_new_accepted\<close>).
\<close>

subsection \<open>The integrity predicate\<close>

definition increasing_ids :: "nat list \<Rightarrow> nat \<Rightarrow> bool" where
  "increasing_ids ids mx \<longleftrightarrow> sorted_wrt (<) ids \<and> list_all (\<lambda>i. 0 < i \<and> i \<le> mx) ids"

definition wf_files :: "registry_db \<Rightarrow> bool" where
  "wf_files d \<longleftrightarrow> distinct (map fst (files d)) \<and>
     list_all (\<lambda>(k, r). f_sha256 r = k \<and> validate_status (f_status r)) (files d)"

definition wf_metadata :: "registry_db \<Rightarrow> bool" where
  "wf_metadata d \<longleftrightarrow> distinct (map fst (metadata_index d)) \<and>
     list_all (\<lambda>(k, r). (m_account_name r, m_onedrive_id r) = k) (metadata_index d)"

definition wf_origins :: "registry_db \<Rightarrow> bool" where
  "wf_origins d \<longleftrightarrow> distinct (map fst (file_origins d)) \<and>
     list_all (\<lambda>(k, r). (o_account r, o_onedrive_id r) = k \<and> file_known d (o_sha256 r)) (file_origins d)"

definition wf_accepted :: "registry_db \<Rightarrow> bool" where
  "wf_accepted d \<longleftrightarrow> increasing_ids (map ar_id (accepted_records d)) (accepted_seq d) \<and>
     list_all (\<lambda>r. file_known d (ar_sha256 r)) (accepted_records d)"

definition wf_audit :: "registry_db \<Rightarrow> bool" where
  "wf_audit d \<longleftrightarrow> increasing_ids (map au_id (audit_log d)) (audit_seq d)"

definition wf_pairs :: "registry_db \<Rightarrow> bool" where
  "wf_pairs d \<longleftrightarrow> distinct (map fst (live_photo_pairs d)) \<and>
     list_all (\<lambda>(k, r). lp_pair_id r = k \<and> lp_status r \<in> set PAIR_STATUSES \<and>
        file_known d (lp_photo_sha256 r) \<and> file_known d (lp_video_sha256 r)) (live_photo_pairs d)"

definition wf_cache :: "registry_db \<Rightarrow> bool" where
  "wf_cache d \<longleftrightarrow> distinct (map fst (external_hash_cache d)) \<and>
     list_all (\<lambda>(k, r). (hc_account_name r, hc_source_relpath r, hc_hash_algo r, hc_hash_value r) = k)
       (external_hash_cache d)"

definition wf_terminal :: "registry_db \<Rightarrow> bool" where
  "wf_terminal d \<longleftrightarrow> increasing_ids (map t_id (ingest_terminal_audit d)) (terminal_seq d)"

definition wf_rules :: "registry_db \<Rightarrow> bool" where
  "wf_rules d \<longleftrightarrow> increasing_ids (map br_id (blocked_rules d)) (blocked_seq d) \<and>
     distinct (map br_pattern (blocked_rules d)) \<and>
     list_all (\<lambda>r. br_rule_type r \<in> {''filename'', ''regex''}) (blocked_rules d)"

definition wf_idem :: "registry_db \<Rightarrow> bool" where
  "wf_idem d \<longleftrightarrow> distinct (map fst (ui_action_idempotency d)) \<and>
     list_all (\<lambda>(k, r). ik_key r = k) (ui_action_idempotency d)"

definition wf_db :: "registry_db \<Rightarrow> bool" where
  "wf_db d \<longleftrightarrow> wf_files d \<and> wf_metadata d \<and> wf_origins d \<and> wf_accepted d \<and> wf_audit d \<and>
     wf_pairs d \<and> wf_cache d \<and> wf_terminal d \<and> wf_rules d \<and> wf_idem d"

lemmas wf_defs = wf_files_def wf_metadata_def wf_origins_def wf_accepted_def wf_audit_def
  wf_pairs_def wf_cache_def wf_terminal_def wf_rules_def wf_idem_def

subsection \<open>Tables and ids\<close>

lemma set_alist_update: "set (AList.update k v t) \<subseteq> insert (k, v) (set t)"
  by (induction t) auto

lemma list_all_upsert:
  assumes "list_all P t" and "P (k, new)" and "\<And>old. (k, old) \<in> set t \<Longrightarrow> P (k, mrg old)"
  shows "list_all P (tbl_upsert k new mrg t)"
  using assms set_alist_update [of k _ t] unfolding tbl_upsert_def list_all_iff
  by (auto split: option.splits dest: map_of_SomeD; blast dest: map_of_SomeD)

lemma list_all_update:
  assumes "list_all P t" and "\<And>old. (k, old) \<in> set t \<Longrightarrow> P (k, g old)"
  shows "list_all P (tbl_update k g t)"
  using assms set_alist_update [of k _ t] unfolding tbl_update_def list_all_iff
  by (auto split: option.splits; blast dest: map_of_SomeD)

lemma list_all_memD: "list_all P xs \<Longrightarrow> x \<in> set xs \<Longrightarrow> P x"
  by (simp add: list_all_iff)

lemma list_all_insert_ignore:
  "list_all P t \<Longrightarrow> P (k, new) \<Longrightarrow> list_all P (tbl_insert_ignore k new t)"
  by (auto simp: tbl_insert_ignore_def split: option.splits)

lemma increasing_ids_snoc [intro]:
  "increasing_ids ids mx \<Longrightarrow> increasing_ids (ids @ [Suc mx]) (Suc mx)"
  by (fastforce simp: increasing_ids_def sorted_wrt_append list_all_iff)

lemma increasing_ids_Nil [simp]: "increasing_ids [] n"
  by (simp add: increasing_ids_def)

lemma file_known_get: "file_known d sha \<longleftrightarrow> (\<exists>r. get_file d sha = Some r)"
  by (auto simp: file_known_def get_file_def)

subsection \<open>The lookup laws of the file table\<close>

text \<open>
  The contract between the registry and the flows that use it: what \<open>get_file\<close> returns after
  each write, as a locale over a lookup, a creation and a row update.
\<close>

locale file_registry =
  fixes look :: "'d \<Rightarrow> string \<Rightarrow> file_record option"
    and create :: "string \<Rightarrow> int \<Rightarrow> string \<Rightarrow> string option \<Rightarrow> string option \<Rightarrow> string \<Rightarrow> 'd \<Rightarrow> 'd"
    and modify :: "string \<Rightarrow> (file_record \<Rightarrow> file_record) \<Rightarrow> 'd \<Rightarrow> 'd"
  assumes look_create_same: "\<exists>r. look (create sha sz st orig cur now d) sha = Some r \<and>
        f_status r = st \<and> f_current_path r = cur"
    and look_create_other: "sha' \<noteq> sha \<Longrightarrow> look (create sha sz st orig cur now d) sha' = look d sha'"
    and look_modify: "look (modify sha g d) = (look d)(sha := map_option g (look d sha))"
begin

definition status_of :: "'d \<Rightarrow> string \<Rightarrow> string option" where
  "status_of d sha = map_option f_status (look d sha)"

lemma status_create: "status_of (create sha sz st orig cur now d) = (status_of d)(sha \<mapsto> st)"
proof
  fix x
  show "status_of (create sha sz st orig cur now d) x = ((status_of d)(sha \<mapsto> st)) x"
    using look_create_same [of sha sz st orig cur now d] look_create_other [of x sha sz st orig cur now d]
    by (auto simp: status_of_def)
qed

lemma status_modify:
  assumes "\<And>r. f_status (g r) = st"
  shows "status_of (modify sha g d) =
    (case look d sha of None \<Rightarrow> status_of d | Some _ \<Rightarrow> (status_of d)(sha \<mapsto> st))"
  using assms by (auto simp: status_of_def look_modify fun_eq_iff split: option.split)

lemma status_modify_same:
  assumes "\<And>r. f_status (g r) = f_status r"
  shows "status_of (modify sha g d) = status_of d"
  using assms by (auto simp: status_of_def look_modify fun_eq_iff option.map_comp comp_def)

lemma dom_create: "dom (look (create sha sz st orig cur now d)) = insert sha (dom (look d))"
proof (intro set_eqI)
  fix x
  show "x \<in> dom (look (create sha sz st orig cur now d)) \<longleftrightarrow> x \<in> insert sha (dom (look d))"
    using look_create_same [of sha sz st orig cur now d] look_create_other [of x sha sz st orig cur now d]
    by (cases "x = sha") (auto simp: domIff)
qed

lemma dom_modify: "dom (look (modify sha g d)) = dom (look d)"
  by (auto simp: look_modify split: if_splits)

end

lemma get_file_update: "get_file (update_file sha g d) = (get_file d)(sha := map_option g (get_file d sha))"
  by (simp add: get_file_def update_file_def at.get_upd fun_eq_iff)

interpretation fr: file_registry get_file put_file update_file
proof (unfold_locales, goal_cases)
  case (1 sha sz st orig cur now d)
  show ?case
    by (auto simp: get_file_def put_file_def at.get_upsert split: option.split)
next
  case (2 sha' sha sz st orig cur now d)
  then show ?case by (simp add: get_file_def put_file_def at.get_upsert)
next
  case (3 sha g d)
  show ?case by (rule get_file_update)
qed

abbreviation status_of :: "registry_db \<Rightarrow> string \<Rightarrow> string option" where
  "status_of \<equiv> fr.status_of"

lemmas status_of_def = fr.status_of_def

lemma get_file_frame [simp]:
  "get_file (put_metadata a b n e g h d) = get_file d"
  "get_file (put_origin a b sha hi g d) = get_file d"
  "get_file (add_accepted sha a b g d) = get_file d"
  "get_file (add_audit s ac x y z u v d) = get_file d"
  by (simp_all add: get_file_def fun_eq_iff put_metadata_def put_origin_def add_accepted_def add_audit_def)

lemma file_known_frame [simp]:
  "file_known (put_metadata a b n e g h d) = file_known d"
  "file_known (put_origin a b sha hi g d) = file_known d"
  "file_known (add_accepted sha a b g d) = file_known d"
  "file_known (add_audit s ac x y z u v d) = file_known d"
  "file_known (update_file sha gf d) = file_known d"
  by (simp_all add: file_known_def fun_eq_iff put_metadata_def put_origin_def add_accepted_def
      add_audit_def update_file_def at.get_upd)

lemma file_known_fields [simp]:
  "file_known (audit_log_update h1 d) = file_known d"
  "file_known (audit_seq_update h2 d) = file_known d"
  "file_known (live_photo_pairs_update h3 d) = file_known d"
  "file_known (external_hash_cache_update h4 d) = file_known d"
  "file_known (blocked_rules_update h5 d) = file_known d"
  "file_known (blocked_seq_update h2 d) = file_known d"
  "file_known (ui_action_idempotency_update h6 d) = file_known d"
  by (simp_all add: file_known_def fun_eq_iff)

lemma get_file_fields [simp]:
  "get_file (audit_log_update h1 d) = get_file d"
  "get_file (audit_seq_update h2 d) = get_file d"
  "get_file (live_photo_pairs_update h3 d) = get_file d"
  "get_file (external_hash_cache_update h4 d) = get_file d"
  "get_file (ingest_terminal_audit_update h7 d) = get_file d"
  "get_file (terminal_seq_update h2 d) = get_file d"
  "get_file (blocked_rules_update h5 d) = get_file d"
  "get_file (blocked_seq_update h2 d) = get_file d"
  "get_file (ui_action_idempotency_update h6 d) = get_file d"
  by (simp_all add: get_file_def fun_eq_iff)

lemma file_known_put_file [simp]: "file_known (put_file sha sz st orig cur now d) x \<longleftrightarrow> x = sha \<or> file_known d x"
  by (auto simp: file_known_def put_file_def at.get_upsert)

subsection \<open>The write helpers keep the invariant\<close>

lemmas wf_and_then [inv_intros] = and_then_inv [where P = wf_db]
lemmas wf_guard [inv_intros] = guard_inv [where P = wf_db]

lemma list_all_mono_strong: "list_all P xs \<Longrightarrow> (\<And>x. x \<in> set xs \<Longrightarrow> P x \<Longrightarrow> Q x) \<Longrightarrow> list_all Q xs"
  by (simp add: list_all_iff)

lemma wf_put_file [inv_intros]:
  assumes "wf_db d" and "validate_status st"
  shows "wf_db (put_file sha sz st orig cur now d)"
proof -
  let ?d = "put_file sha sz st orig cur now d"
  have "wf_files ?d"
    using assms unfolding wf_db_def wf_files_def put_file_def
    by (auto intro!: list_all_upsert dest: list_all_memD)
  moreover have "wf_origins ?d" "wf_accepted ?d" "wf_pairs ?d"
    using assms(1) unfolding wf_db_def wf_defs
    by (auto simp: put_file_def list_all_iff file_known_def at.get_upsert split: if_splits)
  moreover have "wf_metadata ?d" "wf_audit ?d" "wf_cache ?d" "wf_terminal ?d" "wf_rules ?d" "wf_idem ?d"
    using assms(1) unfolding wf_db_def wf_defs by (simp_all add: put_file_def)
  ultimately show ?thesis by (simp add: wf_db_def)
qed

lemma wf_update_file [inv_intros]:
  assumes "wf_db d" and "\<And>r. f_sha256 (g r) = f_sha256 r"
    and "\<And>r. validate_status (f_status r) \<Longrightarrow> validate_status (f_status (g r))"
  shows "wf_db (update_file sha g d)"
proof -
  let ?d = "update_file sha g d"
  have "wf_files ?d"
    using assms unfolding wf_db_def wf_files_def update_file_def
    by (auto intro!: list_all_update dest: list_all_memD)
  moreover have "wf_origins ?d" "wf_accepted ?d" "wf_pairs ?d"
    using assms(1) unfolding wf_db_def wf_origins_def wf_accepted_def wf_pairs_def file_known_frame
    by (simp_all add: update_file_def)
  moreover have "wf_metadata ?d" "wf_audit ?d" "wf_cache ?d" "wf_terminal ?d" "wf_rules ?d" "wf_idem ?d"
    using assms(1) unfolding wf_db_def wf_defs by (simp_all add: update_file_def)
  ultimately show ?thesis by (simp add: wf_db_def)
qed

lemma wf_put_metadata [inv_intros]: "wf_db d \<Longrightarrow> wf_db (put_metadata account oid sz mt sha now d)"
  unfolding wf_db_def wf_defs put_metadata_def file_known_def
  by (auto intro!: list_all_upsert dest: list_all_memD)

lemma wf_put_origin [inv_intros]:
  "wf_db d \<Longrightarrow> file_known d sha \<Longrightarrow> wf_db (put_origin account oid sha hint now d)"
  unfolding wf_db_def wf_defs put_origin_def file_known_def
  by (auto intro!: list_all_upsert dest: list_all_memD)

lemma wf_add_accepted [inv_intros]:
  "wf_db d \<Longrightarrow> file_known d sha \<Longrightarrow> wf_db (add_accepted sha account source now d)"
  unfolding wf_db_def wf_defs add_accepted_def file_known_def by auto

lemma wf_add_audit [inv_intros]: "wf_db d \<Longrightarrow> wf_db (add_audit sha ac action reason det actor now d)"
  unfolding wf_db_def wf_defs add_audit_def file_known_def by auto

lemma wf_insert_import_hash [inv_intros]: "wf_db d \<Longrightarrow> wf_db (insert_import_hash now h d)"
  unfolding wf_db_def wf_defs insert_import_hash_def file_known_def import_key_def
  by (auto intro!: list_all_insert_ignore)

subsection \<open>The methods keep the invariant\<close>

lemma validate_status_simps [simp]:
  "validate_status ''pending''" "validate_status ''accepted''"
  "validate_status ''rejected''" "validate_status ''purged''"
  by (simp_all add: validate_status_def ALLOWED_FILE_STATUSES_def)

lemma wf_create_or_update_file [inv_intros]:
  "wf_db d \<Longrightarrow> wf_db (snd (create_or_update_file now sha sz st orig cur d))"
  by (auto simp: create_or_update_file_def guard_def intro: inv_intros)

lemma wf_upsert_metadata_index [inv_intros]:
  "wf_db d \<Longrightarrow> wf_db (snd (upsert_metadata_index now account oid sz mt sha d))"
  by (auto simp: upsert_metadata_index_def intro: inv_intros)

lemma wf_upsert_file_origin [inv_intros]:
  "wf_db d \<Longrightarrow> wf_db (snd (upsert_file_origin now sha account oid hint d))"
  by (auto simp: upsert_file_origin_def guard_def intro: inv_intros)

lemma wf_record_acceptance [inv_intros]:
  "wf_db d \<Longrightarrow> wf_db (snd (record_acceptance now sha account source d))"
  by (auto simp: record_acceptance_def guard_def intro: inv_intros)

lemma wf_finalize_unknown_ingest [inv_intros]:
  "wf_db d \<Longrightarrow> wf_db (snd (finalize_unknown_ingest now sha sz orig cur account oid source mt actor k d))"
  by (auto simp: finalize_unknown_ingest_def Let_def intro!: inv_intros)

lemma wf_finalize_accept_from_pending [inv_intros]:
  "wf_db d \<Longrightarrow> wf_db (snd (finalize_accept_from_pending now sha p account source actor reason d))"
  by (auto simp: finalize_accept_from_pending_def file_known_def intro!: inv_intros split: option.split)

lemma wf_finalize_known_ingest [inv_intros]:
  "wf_db d \<Longrightarrow> wf_db (snd (finalize_known_ingest now sha ks account oid source mt sz actor d))"
  by (auto simp: finalize_known_ingest_def guard_def intro!: inv_intros)

lemma wf_clear_current_path [inv_intros]: "wf_db d \<Longrightarrow> wf_db (snd (clear_current_path now sha d))"
  by (auto simp: clear_current_path_def intro!: inv_intros)

lemma wf_update_current_path [inv_intros]: "wf_db d \<Longrightarrow> wf_db (snd (update_current_path now sha p d))"
  by (auto simp: update_current_path_def intro!: inv_intros)

lemma wf_finalize_purge_from_rejected [inv_intros]:
  "wf_db d \<Longrightarrow> wf_db (snd (finalize_purge_from_rejected now sha reason actor d))"
  by (auto simp: finalize_purge_from_rejected_def intro!: inv_intros split: option.split)

lemma wf_transition_status [inv_intros]:
  "wf_db d \<Longrightarrow> wf_db (snd (transition_status now sha st reason actor d))"
  by (auto simp: transition_status_def guard_def intro!: inv_intros)

lemma wf_append_audit_event [inv_intros]:
  "wf_db d \<Longrightarrow> wf_db (snd (append_audit_event now sha action reason actor account det d))"
  by (auto simp: append_audit_event_def intro!: inv_intros)

lemma wf_append_ingest_terminal_event [inv_intros]:
  "wf_db d \<Longrightarrow> wf_db (snd (append_ingest_terminal_event now run n account oid sha action reason actor d))"
  unfolding wf_db_def wf_defs append_ingest_terminal_event_def file_known_def by auto

lemma wf_upsert_external_hash_cache [inv_intros]:
  "wf_db d \<Longrightarrow> wf_db (snd (upsert_external_hash_cache now account rp algo v ver d))"
  unfolding wf_db_def wf_defs upsert_external_hash_cache_def guard_def file_known_def
  by (auto intro!: list_all_upsert dest: list_all_memD)

lemma wf_fold_import: "wf_db d \<Longrightarrow> wf_db (fold (insert_import_hash now) hs d)"
  by (induction hs arbitrary: d) (auto intro: inv_intros)

lemma wf_import_chunks: "wf_db d \<Longrightarrow> wf_db (snd (import_chunks now n idx hs d))"
proof (induction now n idx hs d rule: import_chunks.induct)
  case (1 now n idx hs d)
  show ?case
  proof (cases "n = 0 \<or> hs = []")
    case True
    with 1 show ?thesis by (simp add: import_chunks.simps [of now n idx hs d])
  next
    case False
    obtain r d1 where c: "import_chunk now idx (take n hs) d = (r, d1)" by fastforce
    then have "wf_db d1" using 1(2) by (auto simp: import_chunk_def Let_def wf_fold_import)
    with 1(1) [OF False c [symmetric] refl] c False show ?thesis
      by (simp add: import_chunks.simps [of now n idx hs d] case_prod_beta)
  qed
qed

lemma wf_bulk_insert_hash_import [inv_intros]:
  "wf_db d \<Longrightarrow> wf_db (snd (bulk_insert_hash_import now hs cs d))"
  using wf_import_chunks [of d now "nat cs" 1 hs]
  by (auto simp: bulk_insert_hash_import_def guard_def split: prod.split)

lemma wf_upsert_live_photo_pair [inv_intros]:
  "wf_db d \<Longrightarrow> wf_db (snd (upsert_live_photo_pair now pid account stem ph vi st d))"
  unfolding wf_db_def wf_defs upsert_live_photo_pair_def guard_def file_known_def
  by (auto intro!: list_all_upsert dest: list_all_memD)

lemma wf_set_pair_status:
  "wf_db d \<Longrightarrow> st \<in> set PAIR_STATUSES \<Longrightarrow>
     wf_db (d\<lparr>live_photo_pairs := tbl_update pid (\<lambda>p. p\<lparr>lp_status := st, lp_updated_at := now\<rparr>)
       (live_photo_pairs d)\<rparr>)"
  unfolding wf_db_def wf_defs file_known_def
  by (auto intro!: list_all_update dest: list_all_memD)

lemma wf_apply_live_photo_pair_status [inv_intros]:
  "wf_db d \<Longrightarrow> wf_db (snd (apply_live_photo_pair_status n1 n2 n3 pid st reason actor d))"
  unfolding apply_live_photo_pair_status_def
  by (auto simp: PAIR_STATUSES_def split: option.split intro!: inv_intros wf_set_pair_status)

lemma wf_empty_db: "wf_db empty_db"
  by (simp add: wf_db_def wf_defs empty_db_def)

lemma wf_initialize [inv_intros]: "wf_db d \<Longrightarrow> wf_db (snd (initialize d))"
  unfolding initialize_def run_migrations_def ensure_external_hash_cache_h1_schema_def
    wf_db_def wf_defs file_known_def by auto

lemma sorted_wrt_less_filter: "sorted_wrt (<) (map g xs) \<Longrightarrow> sorted_wrt (<) (map g (filter P xs))"
  by (induction xs) auto

lemma sort_key_increasing: "sorted_wrt (<) (map (g :: 'a \<Rightarrow> nat) xs) \<Longrightarrow> sort_key g xs = xs"
  by (intro sort_key_id_if_sorted) (simp add: strict_sorted_imp_sorted)

lemma increasing_ids_sub:
  assumes "increasing_ids (map g xs) mx" and "set (map g (filter P xs)) \<subseteq> {..m}"
  shows "increasing_ids (map g (filter P xs)) m"
  using assms sorted_wrt_less_filter [of g xs P] by (auto simp: increasing_ids_def list_all_iff)

lemma wf_prune [inv_intros]:
  assumes "wf_db d"
  shows "wf_db (snd (prune_auth_failure_audit_backlog n d))"
proof -
  have ids: "increasing_ids (map au_id (audit_log d)) (audit_seq d)"
    using assms by (simp add: wf_db_def wf_audit_def)
  have "wf_audit (d\<lparr>audit_log := sort_key au_id (filter P (audit_log d)),
      audit_seq := Max (insert 0 (set (map au_id (sort_key au_id (filter P (audit_log d))))))\<rparr>)" for P
    using ids sorted_wrt_less_filter [of au_id "audit_log d" P]
    by (auto simp: wf_audit_def sort_key_increasing increasing_ids_def list_all_iff)
  moreover have "wf_db (d\<lparr>audit_log := xs, audit_seq := m\<rparr>) \<longleftrightarrow> wf_audit (d\<lparr>audit_log := xs, audit_seq := m\<rparr>)"
    for xs m
    using assms unfolding wf_db_def wf_defs by simp
  ultimately show ?thesis
    using assms by (simp add: prune_auth_failure_audit_backlog_def guard_def Let_def)
qed

end
