(* ===== verification/Registry_Spec.thy ===== *)
theory Registry_Spec
  imports Registry_Inv
begin

section \<open>What the registry promises\<close>

text \<open>
  The abstract specification of the registry is a finite map from content hashes to statuses and a
  partial step per method (\<open>lc_step\<close>); \<open>registry_refines_lifecycle\<close> shows that every method either
  takes that step or raises and changes nothing.  The frame relations say what the methods
  leave alone: the audit log only grows (\<open>audit_extends\<close>), no file record disappears
  (\<open>records_kept\<close>), and, for the methods the ingest pipeline uses, no file becomes accepted
  (\<open>no_new_accepted\<close>).  The last part is about the bulk hash import and the audit maintenance.
\<close>

subsection \<open>Frame relations\<close>

definition audit_extends :: "registry_db \<Rightarrow> registry_db \<Rightarrow> bool" where
  "audit_extends d d' \<longleftrightarrow> prefix (audit_log d) (audit_log d')"

definition records_kept :: "registry_db \<Rightarrow> registry_db \<Rightarrow> bool" where
  "records_kept d d' \<longleftrightarrow> (\<forall>sha. file_known d sha \<longrightarrow> file_known d' sha)"

definition no_new_accepted :: "registry_db \<Rightarrow> registry_db \<Rightarrow> bool" where
  "no_new_accepted d d' \<longleftrightarrow>
     accepted_records d' = accepted_records d \<and>
     (\<forall>sha. status_of d' sha = Some ''accepted'' \<longrightarrow> status_of d sha = Some ''accepted'')"

definition db_frame :: "registry_db \<Rightarrow> registry_db \<Rightarrow> bool" where
  "db_frame d d' \<longleftrightarrow> audit_extends d d' \<and> records_kept d d'"

definition ingest_frame :: "registry_db \<Rightarrow> registry_db \<Rightarrow> bool" where
  "ingest_frame d d' \<longleftrightarrow> db_frame d d' \<and> no_new_accepted d d'"

lemmas frame_defs = db_frame_def audit_extends_def records_kept_def

interpretation dbf: step_frame db_frame
  by unfold_locales (auto simp: frame_defs)

interpretation inf: step_frame ingest_frame
  by unfold_locales (auto simp: ingest_frame_def no_new_accepted_def frame_defs)

named_theorems frame_intros \<open>the registry methods respect the frame relations\<close>

lemma audit_log_simps [simp]:
  "audit_log (put_file sha sz st orig cur now d) = audit_log d"
  "audit_log (update_file sha g d) = audit_log d"
  "audit_log (put_metadata account oid sz mt sha now d) = audit_log d"
  "audit_log (put_origin account oid sha hint now d) = audit_log d"
  "audit_log (add_accepted sha account source now d) = audit_log d"
  by (simp_all add: put_file_def update_file_def put_metadata_def put_origin_def add_accepted_def)

lemma audit_log_add_audit [simp]:
  "audit_log (add_audit s ac action reason det actor now d) = audit_log d @
     [\<lparr>au_id = Suc (audit_seq d), au_sha256 = s, au_account_name = ac, au_action = action,
       au_reason = reason, au_details_json = det, au_actor = actor, au_ts = now\<rparr>]"
  by (simp add: add_audit_def)

lemma accepted_records_simps [simp]:
  "accepted_records (put_file sha sz st orig cur now d) = accepted_records d"
  "accepted_records (update_file sha g d) = accepted_records d"
  "accepted_records (put_metadata account oid sz mt sha now d) = accepted_records d"
  "accepted_records (put_origin account oid sha hint now d) = accepted_records d"
  "accepted_records (add_audit s ac action reason det actor now d) = accepted_records d"
  by (simp_all add: put_file_def update_file_def put_metadata_def put_origin_def add_audit_def)

lemma status_of_frame [simp]:
  "status_of (put_metadata account oid sz mt sha now d) = status_of d"
  "status_of (put_origin account oid sha hint now d) = status_of d"
  "status_of (add_accepted sha account source now d) = status_of d"
  "status_of (add_audit s ac action reason det actor now d) = status_of d"
  by (simp_all add: fun_eq_iff fr.status_of_def)

lemma status_of_fields [simp]:
  "status_of (audit_log_update h1 d) = status_of d"
  "status_of (audit_seq_update h2 d) = status_of d"
  "status_of (live_photo_pairs_update h3 d) = status_of d"
  "status_of (external_hash_cache_update h4 d) = status_of d"
  "status_of (ingest_terminal_audit_update h7 d) = status_of d"
  "status_of (terminal_seq_update h2 d) = status_of d"
  "status_of (blocked_rules_update h5 d) = status_of d"
  "status_of (blocked_seq_update h2 d) = status_of d"
  "status_of (ui_action_idempotency_update h6 d) = status_of d"
  by (simp_all add: fun_eq_iff fr.status_of_def)

lemmas status_of_put_file [simp] = fr.status_create

lemma file_known_status: "file_known d sha \<longleftrightarrow> (\<exists>st. status_of d sha = Some st)"
  by (auto simp: fr.status_of_def file_known_get)

text \<open>The updates the methods apply to a row of \<open>files\<close>: a new status, or only a new path.\<close>

lemma status_of_update_status:
  assumes "file_known d sha" and "\<And>r. f_status (g r) = st"
  shows "status_of (update_file sha g d) = (status_of d)(sha \<mapsto> st)"
  using fr.status_modify [of g st sha d] assms by (auto simp: file_known_get)

lemmas status_of_update_path = fr.status_modify_same

lemma get_file_update_same:
  "get_file d sha = Some r \<Longrightarrow> get_file (update_file sha g d) sha = Some (g r)"
  by (simp add: get_file_update)

lemma get_file_put_file:
  "get_file (put_file sha sz st orig cur now d) sha = Some
     (case get_file d sha of
        None \<Rightarrow> \<lparr>f_sha256 = sha, f_size_bytes = sz, f_status = st, f_original_filename = orig,
          f_current_path = cur, f_first_seen_at = now, f_updated_at = now\<rparr>
      | Some old \<Rightarrow> old\<lparr>f_size_bytes := sz, f_status := st,
          f_original_filename := coalesce orig (f_original_filename old),
          f_current_path := cur, f_updated_at := now\<rparr>)"
  by (simp add: get_file_def put_file_def at.get_upsert)

subsection \<open>The methods respect the frames\<close>

lemma db_frame_create_or_update_file [frame_intros]:
  "db_frame d (snd (create_or_update_file now sha sz st orig cur d))"
  by (simp add: create_or_update_file_def guard_def frame_defs)

lemma db_frame_finalize_unknown_ingest [frame_intros]:
  "db_frame d (snd (finalize_unknown_ingest now sha sz orig cur account oid source mt actor k d))"
  by (simp add: finalize_unknown_ingest_def Let_def frame_defs)

lemma db_frame_finalize_accept_from_pending [frame_intros]:
  "db_frame d (snd (finalize_accept_from_pending now sha p account source actor reason d))"
  by (simp add: finalize_accept_from_pending_def frame_defs split: option.split)

lemma db_frame_finalize_known_ingest [frame_intros]:
  "db_frame d (snd (finalize_known_ingest now sha ks account oid source mt sz actor d))"
  by (simp add: finalize_known_ingest_def guard_def frame_defs)

lemma db_frame_paths [frame_intros]:
  "db_frame d (snd (clear_current_path now sha d))"
  "db_frame d (snd (update_current_path now sha p d))"
  by (simp_all add: clear_current_path_def update_current_path_def frame_defs)

lemma db_frame_finalize_purge_from_rejected [frame_intros]:
  "db_frame d (snd (finalize_purge_from_rejected now sha reason actor d))"
  by (simp add: finalize_purge_from_rejected_def frame_defs split: option.split)

lemma db_frame_transition_status [frame_intros]:
  "db_frame d (snd (transition_status now sha st reason actor d))"
  by (simp add: transition_status_def guard_def frame_defs)

lemma db_frame_append_audit_event [frame_intros]:
  "db_frame d (snd (append_audit_event now sha action reason actor account det d))"
  by (simp add: append_audit_event_def frame_defs)

lemma db_frame_small_writes [frame_intros]:
  "db_frame d (snd (upsert_metadata_index now account oid sz mt sha d))"
  "db_frame d (snd (upsert_file_origin now sha account oid hint d))"
  "db_frame d (snd (record_acceptance now sha account source d))"
  by (simp_all add: upsert_metadata_index_def upsert_file_origin_def record_acceptance_def guard_def frame_defs)

lemma db_frame_append_ingest_terminal_event [frame_intros]:
  "db_frame d (snd (append_ingest_terminal_event now run n account oid sha action reason actor d))"
  by (simp add: append_ingest_terminal_event_def frame_defs file_known_def)

lemma db_frame_upsert_external_hash_cache [frame_intros]:
  "db_frame d (snd (upsert_external_hash_cache now account rp algo v ver d))"
  by (simp add: upsert_external_hash_cache_def guard_def frame_defs)

lemma db_frame_upsert_live_photo_pair [frame_intros]:
  "db_frame d (snd (upsert_live_photo_pair now pid account stem ph vi st d))"
  by (simp add: upsert_live_photo_pair_def guard_def frame_defs)

lemma db_frame_pairs [frame_intros]: "db_frame d (live_photo_pairs_update h d)"
  by (simp add: frame_defs)

lemma db_frame_apply_live_photo_pair_status [frame_intros]:
  "db_frame d (snd (apply_live_photo_pair_status n1 n2 n3 pid st reason actor d))"
  unfolding apply_live_photo_pair_status_def
  by (intro dbf.frame_guard)
    (auto split: option.split intro!: dbf.frame_and_then frame_intros dbf.frame_refl)

text \<open>Of the methods above, those the ingest pipeline calls accept nothing.\<close>

lemma ingest_frameI:
  assumes "db_frame d d'" and "accepted_records d' = accepted_records d"
    and "\<And>sha. status_of d' sha \<noteq> status_of d sha \<Longrightarrow> status_of d' sha \<noteq> Some ''accepted''"
  shows "ingest_frame d d'"
  using assms by (auto simp: ingest_frame_def no_new_accepted_def) metis

lemma ingest_frame_methods [frame_intros]:
  "st \<noteq> ''accepted'' \<Longrightarrow> ingest_frame d (snd (create_or_update_file now sha sz st orig cur d))"
  "ingest_frame d (snd (finalize_unknown_ingest now sha sz orig' cur' account oid source mt actor k d))"
  "ingest_frame d (snd (finalize_known_ingest now sha ks account oid source mt sz actor d))"
  "ingest_frame d (snd (upsert_metadata_index now account oid sz mt sha d))"
  "ingest_frame d (snd (upsert_file_origin now sha account oid hint d))"
  "ingest_frame d (snd (append_audit_event now sha' action reason actor account' det d))"
  "ingest_frame d (snd (append_ingest_terminal_event now run n' account oid sha' action reason actor d))"
  "ingest_frame d (snd (upsert_external_hash_cache now account rp algo v ver d))"
  "ingest_frame d (snd (upsert_live_photo_pair now pid account stem ph vi st' d))"
  by (rule ingest_frameI; (rule frame_intros)?;
      simp add: create_or_update_file_def finalize_unknown_ingest_def finalize_known_ingest_def
        upsert_metadata_index_def upsert_file_origin_def append_audit_event_def
        append_ingest_terminal_event_def upsert_external_hash_cache_def upsert_live_photo_pair_def
        guard_def Let_def split: if_splits)+

subsection \<open>The lifecycle of a content hash\<close>

text \<open>
  The abstract state is the map from hashes to statuses.  A step is undefined where the method
  raises.
\<close>

type_synonym lifecycle = "string \<rightharpoonup> string"

datatype lc_op =
    LcCreate string string string int "string option" "string option"
  | LcUnknown string string int string string string string string string string
  | LcKnown string string string string string string string int string
  | LcAccept string string string string string string string
  | LcPurge string string string string
  | LcTransition string string string string string
  | LcClearPath string string
  | LcMovePath string string string

fun lc_step :: "lc_op \<Rightarrow> lifecycle \<Rightarrow> lifecycle option" where
  "lc_step (LcCreate now sha st sz orig cur) m =
     (if st \<in> set ALLOWED_FILE_STATUSES then Some (m(sha \<mapsto> st)) else None)"
| "lc_step (LcUnknown now sha sz orig cur account oid source mtime actor) m =
     Some (m(sha \<mapsto> ''pending''))"
| "lc_step (LcKnown now sha known account oid source mtime sz actor) m =
     (if known \<in> set ALLOWED_FILE_STATUSES \<and> sha \<in> dom m then Some m else None)"
| "lc_step (LcAccept now sha path account source actor reason) m =
     (if m sha = Some ''pending'' then Some (m(sha \<mapsto> ''accepted'')) else None)"
| "lc_step (LcPurge now sha reason actor) m =
     (if m sha = Some ''rejected'' then Some (m(sha \<mapsto> ''purged'')) else None)"
| "lc_step (LcTransition now sha st reason actor) m =
     (if st \<in> set ALLOWED_FILE_STATUSES \<and> sha \<in> dom m then Some (m(sha \<mapsto> st)) else None)"
| "lc_step (LcClearPath now sha) m = Some m"
| "lc_step (LcMovePath now sha path) m = Some m"

fun lc_run :: "lc_op \<Rightarrow> registry_db \<Rightarrow> unit res \<times> registry_db" where
  "lc_run (LcCreate now sha st sz orig cur) d = create_or_update_file now sha sz st orig cur d"
| "lc_run (LcUnknown now sha sz orig cur account oid source mtime actor) d =
     finalize_unknown_ingest now sha sz orig cur account oid source mtime actor None d"
| "lc_run (LcKnown now sha known account oid source mtime sz actor) d =
     finalize_known_ingest now sha known account oid source mtime sz actor d"
| "lc_run (LcAccept now sha path account source actor reason) d =
     finalize_accept_from_pending now sha path account source actor reason d"
| "lc_run (LcPurge now sha reason actor) d = finalize_purge_from_rejected now sha reason actor d"
| "lc_run (LcTransition now sha st reason actor) d = transition_status now sha st reason actor d"
| "lc_run (LcClearPath now sha) d = clear_current_path now sha d"
| "lc_run (LcMovePath now sha path) d = update_current_path now sha path d"

definition refines_step ::
  "(lifecycle \<Rightarrow> lifecycle option) \<Rightarrow> registry_db \<Rightarrow> unit res \<times> registry_db \<Rightarrow> bool" where
  "refines_step f d r \<longleftrightarrow>
     (case r of (Inr _, d') \<Rightarrow> f (status_of d) = Some (status_of d')
              | (Inl _, d') \<Rightarrow> f (status_of d) = None \<and> d' = d)"

lemma file_known_dom: "file_known d sha \<longleftrightarrow> sha \<in> dom (status_of d)"
  by (simp add: domIff file_known_status)

lemma tbl_get_status: "tbl_get (files d) sha = None \<longleftrightarrow> status_of d sha = None"
  "tbl_get (files d) sha = Some r \<Longrightarrow> status_of d sha = Some (f_status r)"
  "tbl_get (files d) sha = Some r \<Longrightarrow> file_known d sha"
  by (simp_all add: fr.status_of_def get_file_def file_known_def)

lemma refines_create: "refines_step (lc_step (LcCreate now sha st sz orig cur)) d
    (create_or_update_file now sha sz st orig cur d)"
  by (simp add: refines_step_def create_or_update_file_def guard_def validate_status_def)

lemma refines_known: "refines_step (lc_step (LcKnown now sha known account oid source mtime sz actor)) d
    (finalize_known_ingest now sha known account oid source mtime sz actor d)"
  by (simp add: refines_step_def finalize_known_ingest_def guard_def file_known_dom)

lemma refines_accept: "refines_step (lc_step (LcAccept now sha path account source actor reason)) d
    (finalize_accept_from_pending now sha path account source actor reason d)"
  by (auto simp: refines_step_def finalize_accept_from_pending_def tbl_get_status
      status_of_update_status split: option.split)

lemma refines_purge: "refines_step (lc_step (LcPurge now sha reason actor)) d
    (finalize_purge_from_rejected now sha reason actor d)"
  by (auto simp: refines_step_def finalize_purge_from_rejected_def tbl_get_status
      status_of_update_status split: option.split)

lemma refines_transition: "refines_step (lc_step (LcTransition now sha st reason actor)) d
    (transition_status now sha st reason actor d)"
  by (auto simp: refines_step_def transition_status_def guard_def validate_status_def
      status_of_update_status simp flip: file_known_dom)


subsection \<open>Every status change is audited\<close>

definition audited_change :: "registry_db \<Rightarrow> registry_db \<Rightarrow> bool" where
  "audited_change d d' \<longleftrightarrow>
     (\<exists>a sha st. audit_log d' = audit_log d @ [a] \<and> au_sha256 a = Some sha \<and> au_action a = st \<and>
        status_of d' = (status_of d)(sha \<mapsto> st))"

fun lc_audited :: "lc_op \<Rightarrow> bool" where
  "lc_audited (LcUnknown now sha sz orig cur account oid source mtime actor) = True"
| "lc_audited (LcAccept now sha path account source actor reason) = True"
| "lc_audited (LcPurge now sha reason actor) = True"
| "lc_audited (LcTransition now sha st reason actor) = True"
| "lc_audited _ = False"

lemma audited_unknown: "audited_change d
    (snd (finalize_unknown_ingest now sha sz orig cur account oid source mtime actor None d))"
  by (simp add: finalize_unknown_ingest_def audited_change_def Let_def)

lemma audited_accept:
  assumes "finalize_accept_from_pending now sha path account source actor reason d = (Inr u, d')"
  shows "audited_change d d'"
  using assms
  by (auto simp: finalize_accept_from_pending_def audited_change_def status_of_update_status
      tbl_get_status split: option.splits if_splits)

lemma audited_purge:
  assumes "finalize_purge_from_rejected now sha reason actor d = (Inr u, d')"
  shows "audited_change d d'"
  using assms
  by (auto simp: finalize_purge_from_rejected_def audited_change_def status_of_update_status
      tbl_get_status split: option.splits if_splits)

lemma audited_transition:
  assumes "transition_status now sha st reason actor d = (Inr u, d')"
  shows "audited_change d d'"
  using assms by (auto simp: transition_status_def guard_eq_Inr audited_change_def status_of_update_status)

text \<open>
  C2: when one of the four audited methods (first ingest, accept, purge, transition) succeeds, the
  same transaction appends exactly one audit row, and that row names the hash and the status that
  the method has just given it, no other hash changing its status.
\<close>

theorem status_change_is_audited:
  assumes "lc_audited op" and "lc_run op d = (Inr u, d')"
  shows "audited_change d d'"
  using assms audited_unknown
  by (cases op) (auto dest: audited_accept audited_purge audited_transition, (metis snd_conv)+)

theorem status_change_is_audited_witness:
  "audited_change
     (snd (lc_run (LcUnknown ''t0'' ''h'' 3 ''a.jpg'' ''/p'' ''ann'' ''i1'' ''/a.jpg'' ''m'' ''x'') empty_db))
     (snd (lc_run (LcTransition ''t1'' ''h'' ''rejected'' ''dup'' ''op'')
        (snd (lc_run (LcUnknown ''t0'' ''h'' 3 ''a.jpg'' ''/p'' ''ann'' ''i1'' ''/a.jpg'' ''m'' ''x'') empty_db))))"
proof -
  let ?d = "snd (lc_run (LcUnknown ''t0'' ''h'' 3 ''a.jpg'' ''/p'' ''ann'' ''i1'' ''/a.jpg'' ''m'' ''x'') empty_db)"
  let ?op = "LcTransition ''t1'' ''h'' ''rejected'' ''dup'' ''op''"
  have "lc_run ?op ?d = (Inr (), snd (lc_run ?op ?d))"
    by (simp add: transition_status_def finalize_unknown_ingest_def Let_def)
  then show ?thesis by (intro status_change_is_audited [of ?op ?d "()"]) simp_all
qed

subsection \<open>Bulk hash import\<close>

lemma insert_import_hash_frame [simp]:
  "relpath_notnull (insert_import_hash now h d) = relpath_notnull d"
  "audit_log (insert_import_hash now h d) = audit_log d"
  "file_known (insert_import_hash now h d) = file_known d"
  "status_of (insert_import_hash now h d) = status_of d"
  by (simp_all add: insert_import_hash_def)

lemma fold_import_frame [simp]:
  "relpath_notnull (fold (insert_import_hash now) hs d) = relpath_notnull d"
  "audit_log (fold (insert_import_hash now) hs d) = audit_log d"
  "file_known (fold (insert_import_hash now) hs d) = file_known d"
  "status_of (fold (insert_import_hash now) hs d) = status_of d"
  by (induction hs arbitrary: d) simp_all

definition imported_hashes :: "registry_db \<Rightarrow> string set" where
  "imported_hashes d = {h. tbl_get (external_hash_cache d) (import_key h) \<noteq> None}"

lemma import_key_inj [simp]: "import_key h = import_key h' \<longleftrightarrow> h = h'"
  by (simp add: import_key_def)

lemma insert_import_hash_keys:
  assumes "\<not> relpath_notnull d"
  shows "imported_hashes (insert_import_hash now h d) = insert h (imported_hashes d)"
    and "length (external_hash_cache (insert_import_hash now h d)) =
      length (external_hash_cache d) + (if h \<in> imported_hashes d then 0 else 1)"
  using assms
  by (auto simp: imported_hashes_def insert_import_hash_def at.get_ins_ignore)
    (auto simp: tbl_insert_ignore_def)

lemma fold_import_keys:
  "\<not> relpath_notnull d \<Longrightarrow>
     imported_hashes (fold (insert_import_hash now) hs d) = set hs \<union> imported_hashes d"
  by (induction hs arbitrary: d) (simp_all add: insert_import_hash_keys)

lemma fold_import_length:
  "\<not> relpath_notnull d \<Longrightarrow>
     length (external_hash_cache (fold (insert_import_hash now) hs d)) =
       length (external_hash_cache d) + card (set hs - imported_hashes d)"
proof (induction hs arbitrary: d)
  case (Cons h hs)
  have "card (set (h # hs) - imported_hashes d) =
      (if h \<in> imported_hashes d then 0 else 1) + card (set hs - insert h (imported_hashes d))"
  proof (cases "h \<in> imported_hashes d")
    case False
    then have "set (h # hs) - imported_hashes d = insert h (set hs - insert h (imported_hashes d))"
      by auto
    with False show ?thesis by (simp add: card_insert_if)
  qed (simp add: insert_absorb)
  with Cons show ?case by (simp add: insert_import_hash_keys)
qed simp

lemma fold_import_mono: "length (external_hash_cache d) \<le> length (external_hash_cache (fold (insert_import_hash now) hs d))"
  by (cases "relpath_notnull d")
    (induction hs arbitrary: d, simp_all add: fold_import_length insert_import_hash_def)

lemma fold_import_bound:
  "length (external_hash_cache (fold (insert_import_hash now) hs d)) \<le> length (external_hash_cache d) + length hs"
proof (cases "relpath_notnull d")
  case True
  then show ?thesis by (induction hs arbitrary: d) (auto simp: insert_import_hash_def le_SucI)
next
  case False
  have "card (set hs - imported_hashes d) \<le> card (set hs)"
    by (simp add: card_mono)
  also have "\<dots> \<le> length hs" by (rule card_length)
  finally show ?thesis using False by (simp add: fold_import_length)
qed

lemma import_chunks_fold:
  assumes "n > 0"
  shows "snd (import_chunks now n idx hs d) = fold (insert_import_hash now) hs d \<and>
    sum_list (map cr_imported (fst (import_chunks now n idx hs d))) =
      length (external_hash_cache (fold (insert_import_hash now) hs d)) - length (external_hash_cache d) \<and>
    sum_list (map (\<lambda>c. cr_imported c + cr_skipped_existing c) (fst (import_chunks now n idx hs d))) = length hs"
  using assms
proof (induction now n idx hs d rule: import_chunks.induct)
  case (1 now n idx hs d)
  show ?case
  proof (cases "hs = []")
    case True
    then show ?thesis by (simp add: import_chunks.simps [of now n idx "[]" d])
  next
    case False
    let ?d1 = "fold (insert_import_hash now) (take n hs) d"
    obtain r where c: "import_chunk now idx (take n hs) d = (r, ?d1)"
      and r: "cr_imported r = length (external_hash_cache ?d1) - length (external_hash_cache d)"
        "cr_skipped_existing r = length (take n hs) - cr_imported r"
      by (simp add: import_chunk_def Let_def)
    have total: "cr_imported r + cr_skipped_existing r + (length hs - n) = length hs"
      using fold_import_bound [of now "take n hs" d] r by (simp add: min_def split: if_splits)
    have two: "fold (insert_import_hash now) hs d = fold (insert_import_hash now) (drop n hs) ?d1"
      by (metis append_take_drop_id fold_append comp_apply)
    show ?thesis
      using 1(1) [OF _ c [symmetric] refl] False 1(2) c r(1) total
        fold_import_mono [of d now "take n hs"] fold_import_mono [of ?d1 now "drop n hs"]
      by (simp add: import_chunks.simps [of now n idx hs d] case_prod_beta two)
  qed
qed

text \<open>
  A bulk import of any positive chunk size succeeds, its effect is that of one insert-or-ignore
  per hash in order (so the chunking is invisible), the per-chunk counts add up to the input, and
  the imported ones are exactly the distinct hashes that were not yet in the cache.
\<close>

theorem bulk_import_counts:
  assumes "chunk_size > 0" and "\<not> relpath_notnull d"
  shows "\<exists>rs. bulk_insert_hash_import now hs chunk_size d = (Inr rs, fold (insert_import_hash now) hs d) \<and>
    sum_list (map cr_imported rs) = card (set hs - imported_hashes d) \<and>
    sum_list (map (\<lambda>c. cr_imported c + cr_skipped_existing c) rs) = length hs"
  using import_chunks_fold [of "nat chunk_size" now 1 hs d] assms
  by (cases "hs = []")
    (auto simp: bulk_insert_hash_import_def guard_def case_prod_beta fold_import_length)

theorem bulk_import_counts_witness:
  "\<exists>rs. bulk_insert_hash_import ''t'' [''a'', ''b'', ''a''] 2 empty_db =
      (Inr rs, fold (insert_import_hash ''t'') [''a'', ''b'', ''a''] empty_db) \<and>
    sum_list (map cr_imported rs) = card {''a'', ''b'', ''a''} \<and>
    sum_list (map (\<lambda>c. cr_imported c + cr_skipped_existing c) rs) = 3"
  using bulk_import_counts [of 2 empty_db "''t''" "[''a'', ''b'', ''a'']"]
  by (simp add: empty_db_def imported_hashes_def numeral_3_eq_3)

subsection \<open>Audit maintenance\<close>

lemma take_rev_ids:
  assumes "sorted_wrt (<) (map g xs)" and "x \<in> set xs"
  shows "(g x :: nat) \<in> g ` set (take k (rev xs)) \<longleftrightarrow> x \<in> set (drop (length xs - k) xs)"
proof -
  have inj: "inj_on g (set xs)" using assms(1) strict_sorted_iff distinct_map by blast
  have "set (take k (rev xs)) = set (drop (length xs - k) xs)"
    by (simp add: take_rev)
  moreover have "set (drop (length xs - k) xs) \<subseteq> set xs" by (rule set_drop_subset)
  ultimately show ?thesis using inj assms(2) by (metis (no_types, lifting) inj_on_image_mem_iff)
qed

lemma filter_mem_drop: "distinct xs \<Longrightarrow> filter (\<lambda>x. x \<in> set (drop n xs)) xs = drop n xs"
proof -
  assume d: "distinct xs"
  then have "filter (\<lambda>x. x \<in> set (drop n xs)) (take n xs) = []"
    by (auto simp: filter_empty_conv dest: in_set_takeD)
      (metis append_take_drop_id disjoint_iff distinct_append)
  then show ?thesis by (metis append_take_drop_id append_Nil filter_append filter_True)
qed

definition auth_failures :: "registry_db \<Rightarrow> audit_record list" where
  "auth_failures d = filter (\<lambda>r. au_action r = ''auth_failure'') (audit_log d)"

definition other_events :: "registry_db \<Rightarrow> audit_record list" where
  "other_events d = filter (\<lambda>r. au_action r \<noteq> ''auth_failure'') (audit_log d)"

lemma pruned_rows:
  "auth_failures (d\<lparr>audit_log := rows, audit_seq := m\<rparr>) = filter (\<lambda>r. au_action r = ''auth_failure'') rows"
  "other_events (d\<lparr>audit_log := rows, audit_seq := m\<rparr>) = filter (\<lambda>r. au_action r \<noteq> ''auth_failure'') rows"
  by (simp_all add: auth_failures_def other_events_def)

lemma kept_rows:
  fixes k :: nat
  assumes inc: "sorted_wrt (<) (map au_id (audit_log d))"
  defines "kept \<equiv> filter (\<lambda>r. au_action r \<noteq> ''auth_failure'' \<or>
      au_id r \<in> au_id ` set (take k (rev (auth_failures d)))) (audit_log d)"
  shows "filter (\<lambda>r. au_action r = ''auth_failure'') kept =
      drop (length (auth_failures d) - k) (auth_failures d)"
    and "filter (\<lambda>r. au_action r \<noteq> ''auth_failure'') kept = other_events d"
proof -
  let ?fs = "auth_failures d"
  have fs: "sorted_wrt (<) (map au_id ?fs)"
    unfolding auth_failures_def by (rule sorted_wrt_less_filter [OF inc])
  have "filter (\<lambda>r. au_action r = ''auth_failure'') kept =
      filter (\<lambda>r. au_id r \<in> au_id ` set (take k (rev ?fs))) ?fs"
    by (simp add: kept_def auth_failures_def conj_commute) (rule filter_cong, auto)
  also have "\<dots> = filter (\<lambda>r. r \<in> set (drop (length ?fs - k) ?fs)) ?fs"
    using take_rev_ids [OF fs] by (intro filter_cong) auto
  also have "\<dots> = drop (length ?fs - k) ?fs"
    using fs by (intro filter_mem_drop) (simp add: strict_sorted_iff distinct_map)
  finally show "filter (\<lambda>r. au_action r = ''auth_failure'') kept = drop (length ?fs - k) ?fs" .
  show "filter (\<lambda>r. au_action r \<noteq> ''auth_failure'') kept = other_events d"
    by (simp add: kept_def other_events_def) (rule filter_cong, auto)
qed

text \<open>
  Pruning the authentication-failure backlog never fails for a non-negative bound, keeps every
  other audit row in order, keeps exactly the latest \<open>keep_latest\<close> failure rows, and returns the
  number of rows it removed.
\<close>

theorem prune_keeps_latest_failures:
  assumes "wf_db d" and "keep_latest \<ge> 0"
  shows "\<exists>n d'. prune_auth_failure_audit_backlog keep_latest d = (Inr n, d') \<and>
    n = length (auth_failures d) - nat keep_latest \<and>
    auth_failures d' = drop n (auth_failures d) \<and> other_events d' = other_events d"
proof -
  have inc: "sorted_wrt (<) (map au_id (audit_log d))"
    using assms(1) by (simp add: wf_db_def wf_audit_def increasing_ids_def)
  have fs: "sort_key au_id (auth_failures d) = auth_failures d"
    unfolding auth_failures_def by (rule sort_key_increasing [OF sorted_wrt_less_filter [OF inc]])
  have ks: "sort_key au_id (filter P (audit_log d)) = filter P (audit_log d)" for P
    by (rule sort_key_increasing [OF sorted_wrt_less_filter [OF inc]])
  have n: "nat (int (length (auth_failures d)) - keep_latest) = length (auth_failures d) - nat keep_latest"
    using assms(2) by linarith
  show ?thesis
    using assms(2) kept_rows [OF inc, of "nat keep_latest"]
    unfolding prune_auth_failure_audit_backlog_def Let_def auth_failures_def [symmetric]
    by (simp add: pruned_rows fs ks n del: filter_filter)
qed

definition two_failures :: registry_db where
  "two_failures =
     snd (append_audit_event ''t2'' None ''auth_failure'' None ''api'' None None
       (snd (append_audit_event ''t1'' None ''auth_failure'' None ''api'' None None empty_db)))"

lemma wf_two_failures: "wf_db two_failures"
  unfolding two_failures_def by (intro inv_intros wf_empty_db)

theorem prune_keeps_latest_failures_witness:
  "\<exists>n d'. prune_auth_failure_audit_backlog 1 two_failures = (Inr n, d') \<and>
    n = length (auth_failures two_failures) - nat 1 \<and>
    auth_failures d' = drop n (auth_failures two_failures) \<and> other_events d' = other_events two_failures"
  using prune_keeps_latest_failures [OF wf_two_failures, of 1] by simp

text \<open>
  The rebuilt table starts counting again after its largest retained id, so when every
  retained row is older than a removed one, the next event gets an id that a removed event had
  carried: audit ids are not unique over the life of the registry.
\<close>

theorem prune_reuses_audit_ids:
  "\<exists>d d'. wf_db d \<and> prune_auth_failure_audit_backlog 0 d = (Inr 1, d') \<and>
     (\<exists>a i. a \<in> set (audit_log d) \<and> a \<notin> set (audit_log d') \<and> au_id a = i \<and>
        fst (append_audit_event ''t2'' None ''login'' None ''api'' None None d') = Inr i)"
proof -
  let ?d = "snd (append_audit_event ''t1'' None ''auth_failure'' None ''api'' None None empty_db)"
  have "wf_db ?d" by (intro inv_intros wf_empty_db)
  moreover have "prune_auth_failure_audit_backlog 0 ?d = (Inr 1, ?d\<lparr>audit_log := [], audit_seq := 0\<rparr>)"
    by (simp add: prune_auth_failure_audit_backlog_def append_audit_event_def add_audit_def empty_db_def)
  ultimately show ?thesis
    by (intro exI [of _ ?d] exI [of _ "?d\<lparr>audit_log := [], audit_seq := 0\<rparr>"] conjI)
      (simp_all add: append_audit_event_def add_audit_def empty_db_def)
qed

end
