(* ===== verification/Paths.thy ===== *)
theory Paths
  imports Py_Strings
begin

section \<open>POSIX paths as \<open>pathlib\<close> has them\<close>

text \<open>
  A \<open>path\<close> is an absolute flag and the list of its segments, as \<open>pathlib.PurePosixPath\<close> keeps
  it: empty and \<open>.\<close> segments are dropped on construction, \<open>..\<close> segments stay until
  \<open>resolve\<close>.  Symbolic links are outside the model, so \<open>resolve\<close> is lexical.
\<close>

datatype path = Path (is_absolute: bool) (segs: "string list")

definition path_of :: "string \<Rightarrow> path" where
  "path_of s = Path (prefix ''/'' s) (filter (\<lambda>p. p \<noteq> [] \<and> p \<noteq> ''.'') (split_on (CHR ''/'') s))"

definition path_str :: "path \<Rightarrow> string" where
  "path_str p =
     (if is_absolute p then ''/'' @ join_with ''/'' (segs p)
      else if segs p = [] then ''.'' else join_with ''/'' (segs p))"

definition joinpath :: "path \<Rightarrow> path \<Rightarrow> path" where
  "joinpath p q = (if is_absolute q then q else Path (is_absolute p) (segs p @ segs q))"

definition child :: "path \<Rightarrow> string \<Rightarrow> path" where
  "child p n = joinpath p (path_of n)"

definition path_parent :: "path \<Rightarrow> path" where
  "path_parent p = Path (is_absolute p) (butlast (segs p))"

definition path_name :: "path \<Rightarrow> string" where
  "path_name p = (if segs p = [] then [] else last (segs p))"

text \<open>
  \<open>stem\<close> and \<open>suffix\<close> split the name at its last dot, unless that dot is the first or the last
  character of the name.
\<close>

fun rsplit_dot :: "string \<Rightarrow> (string \<times> string) option" where
  "rsplit_dot [] = None"
| "rsplit_dot (c # cs) =
     (case rsplit_dot cs of
        Some (a, b) \<Rightarrow> Some (c # a, b)
      | None \<Rightarrow> if c = CHR ''.'' then Some ([], c # cs) else None)"

definition name_split :: "string \<Rightarrow> string \<times> string" where
  "name_split n =
     (case rsplit_dot n of
        Some (a, b) \<Rightarrow> if a \<noteq> [] \<and> b \<noteq> ''.'' then (a, b) else (n, [])
      | None \<Rightarrow> (n, []))"

definition path_stem :: "path \<Rightarrow> string" where
  "path_stem p = fst (name_split (path_name p))"

definition path_suffix :: "path \<Rightarrow> string" where
  "path_suffix p = snd (name_split (path_name p))"

definition with_name :: "path \<Rightarrow> string \<Rightarrow> path" where
  "with_name p n = Path (is_absolute p) (butlast (segs p) @ [n])"

definition with_suffix :: "path \<Rightarrow> string \<Rightarrow> path" where
  "with_suffix p suf = with_name p (path_stem p @ suf)"

text \<open>Resolution against the working directory.\<close>

fun norm_segs :: "string list \<Rightarrow> string list \<Rightarrow> string list" where
  "norm_segs acc [] = rev acc"
| "norm_segs acc (p # ps) = (if p = ''..'' then norm_segs (tl acc) ps else norm_segs (p # acc) ps)"

definition resolve :: "string list \<Rightarrow> path \<Rightarrow> string list" where
  "resolve cwd p = norm_segs [] (if is_absolute p then segs p else cwd @ segs p)"

subsection \<open>Well-formed paths and the text round trip\<close>

definition seg_ok :: "string \<Rightarrow> bool" where
  "seg_ok s \<longleftrightarrow> s \<noteq> [] \<and> s \<noteq> ''.'' \<and> CHR ''/'' \<notin> set s"

definition wf_path :: "path \<Rightarrow> bool" where
  "wf_path p \<longleftrightarrow> (\<forall>s \<in> set (segs p). seg_ok s)"

definition plain :: "path \<Rightarrow> bool" where
  "plain p \<longleftrightarrow> is_absolute p \<and> ''..'' \<notin> set (segs p)"

lemma wf_path_of [simp]: "wf_path (path_of s)"
  by (auto simp: wf_path_def path_of_def seg_ok_def dest: split_on_no_sep)

lemma wf_joinpath [intro]: "wf_path p \<Longrightarrow> wf_path q \<Longrightarrow> wf_path (joinpath p q)"
  by (auto simp: wf_path_def joinpath_def)

lemma join_no_lead_slash:
  "xs \<noteq> [] \<Longrightarrow> \<forall>s \<in> set xs. seg_ok s \<Longrightarrow> \<not> prefix ''/'' (join_with ''/'' xs)"
  by (induction "''/''" xs rule: join_with.induct) (auto simp: seg_ok_def neq_Nil_conv)

lemma filter_segs_id:
  "\<forall>s \<in> set xs. seg_ok s \<Longrightarrow> filter (\<lambda>p. p \<noteq> [] \<and> p \<noteq> ''.'') xs = xs"
  by (rule filter_True) (auto simp: seg_ok_def)

lemma path_of_str [simp]:
  assumes "wf_path p" shows "path_of (path_str p) = p"
proof (cases p)
  case (Path a ps)
  have ok: "\<forall>s \<in> set ps. seg_ok s" using assms Path by (simp add: wf_path_def)
  then have sp: "ps \<noteq> [] \<Longrightarrow> split_on (CHR ''/'') (join_with ''/'' ps) = ps"
    by (intro split_on_join) (auto simp: seg_ok_def)
  show ?thesis
    using Path ok sp join_no_lead_slash [of ps] filter_segs_id [of ps]
    by (cases "ps = []") (auto simp: path_of_def path_str_def)
qed

lemma path_str_inj: "wf_path p \<Longrightarrow> wf_path q \<Longrightarrow> path_str p = path_str q \<Longrightarrow> p = q"
  by (metis path_of_str)

subsection \<open>Stem and suffix\<close>

lemma rsplit_dot_append: "rsplit_dot n = Some (a, b) \<Longrightarrow> a @ b = n"
  by (induction n arbitrary: a b) (auto split: option.splits if_splits)

lemma rsplit_dot_suffix: "rsplit_dot n = Some (a, b) \<Longrightarrow> \<exists>t. b = CHR ''.'' # t \<and> CHR ''.'' \<notin> set t"
proof (induction n arbitrary: a b)
  case (Cons c cs)
  show ?case
  proof (cases "rsplit_dot cs")
    case None
    have "CHR ''.'' \<notin> set cs" using None
      by (induction cs) (auto split: option.splits if_splits)
    with None Cons.prems show ?thesis by (auto split: if_splits)
  next
    case (Some ab)
    with Cons show ?thesis by (cases ab) auto
  qed
qed simp

lemma name_split_append [simp]: "fst (name_split n) @ snd (name_split n) = n"
  by (auto simp: name_split_def dest: rsplit_dot_append split: option.splits)

lemma stem_suffix [simp]: "path_stem p @ path_suffix p = path_name p"
  by (simp add: path_stem_def path_suffix_def)

lemma parent_with_name [simp]: "path_parent (with_name p n) = path_parent p"
  by (simp add: path_parent_def with_name_def)

lemma name_with_name [simp]: "path_name (with_name p n) = n"
  by (simp add: path_name_def with_name_def)

lemma with_name_inj: "with_name p m = with_name p n \<Longrightarrow> m = n"
  by (simp add: with_name_def)

lemma with_name_name: "segs p \<noteq> [] \<Longrightarrow> with_name p (path_name p) = p"
  by (cases p) (simp add: with_name_def path_name_def)

subsection \<open>Resolution\<close>

lemma norm_segs_plain: "''..'' \<notin> set ps \<Longrightarrow> norm_segs acc ps = rev acc @ ps"
  by (induction acc ps rule: norm_segs.induct) auto

lemma norm_segs_append: "norm_segs acc (ps @ qs) = norm_segs (rev (norm_segs acc ps)) qs"
  by (induction acc ps rule: norm_segs.induct) auto

lemma norm_segs_no_dotdot: "''..'' \<notin> set acc \<Longrightarrow> ''..'' \<notin> set (norm_segs acc ps)"
  by (induction acc ps rule: norm_segs.induct) (auto, metis list.sel(2) list.set_sel(2))

lemma resolve_plain [simp]: "plain p \<Longrightarrow> resolve cwd p = segs p"
  by (simp add: plain_def resolve_def norm_segs_plain)

lemma resolve_no_dotdot: "''..'' \<notin> set (resolve cwd p)"
  by (simp add: resolve_def norm_segs_no_dotdot)

lemma resolve_joinpath:
  assumes "\<not> is_absolute q" and "''..'' \<notin> set (segs q)"
  shows "resolve cwd (joinpath p q) = resolve cwd p @ segs q"
  using assms
  by (simp add: resolve_def joinpath_def norm_segs_append norm_segs_plain append_assoc [symmetric]
      del: append_assoc)

text \<open>
  The containment test of \<open>storage._ensure_within_root\<close> compares the text of the resolved paths;
  it is the prefix order on segments, except that the root directory itself contains only itself,
  because its text already ends in a separator.
\<close>

definition abs_str :: "string list \<Rightarrow> string" where
  "abs_str ks = path_str (Path True ks)"

definition within_root_text :: "string list \<Rightarrow> string list \<Rightarrow> bool" where
  "within_root_text dest root \<longleftrightarrow> prefix (abs_str root @ ''/'') (abs_str dest) \<or> dest = root"

lemma join_with_append:
  "xs \<noteq> [] \<Longrightarrow> ys \<noteq> [] \<Longrightarrow> join_with sep (xs @ ys) = join_with sep xs @ sep @ join_with sep ys"
  by (induction sep xs rule: join_with.induct) (auto simp: neq_Nil_conv)

lemma within_root_text_iff:
  assumes root: "root \<noteq> []" "\<forall>s \<in> set root. seg_ok s" and dest: "\<forall>s \<in> set dest. seg_ok s"
  shows "within_root_text dest root \<longleftrightarrow> prefix root dest"
proof
  assume "within_root_text dest root"
  then consider "prefix (abs_str root @ ''/'') (abs_str dest)" | "dest = root"
    by (auto simp: within_root_text_def)
  then show "prefix root dest"
  proof cases
    case 1
    then obtain t where t: "join_with ''/'' dest = join_with ''/'' root @ ''/'' @ t"
      by (auto simp: abs_str_def path_str_def prefix_def)
    then have ne: "dest \<noteq> []" by auto
    have root_sp: "split_on (CHR ''/'') (join_with ''/'' root @ CHR ''/'' # t) =
        root @ split_on (CHR ''/'') t"
      using root
    proof (induction "''/''" root rule: join_with.induct)
      case (2 x)
      then show ?case by (simp add: split_on_append_sep seg_ok_def)
    next
      case (3 x y zs)
      then show ?case by (simp add: split_on_append_sep seg_ok_def)
    qed simp
    have "dest = split_on (CHR ''/'') (join_with ''/'' dest)"
      using ne dest by (intro split_on_join [symmetric]) (auto simp: seg_ok_def)
    also have "\<dots> = root @ split_on (CHR ''/'') t" using t root_sp by simp
    finally show ?thesis by (metis prefixI)
  qed simp
next
  assume "prefix root dest"
  then obtain zs where zs: "dest = root @ zs" by (auto simp: prefix_def)
  then show "within_root_text dest root"
    using root(1) by (cases "zs = []")
      (auto simp: within_root_text_def abs_str_def path_str_def join_with_append)
qed

end
