(* ===== verification/Filesys.thy ===== *)
theory Filesys
  imports Paths
begin

section \<open>The file store\<close>

text \<open>
  The part of the operating system's file interface the sources use, on regular files and
  directories: existence tests, \<open>Path.unlink(missing_ok=True)\<close>, \<open>Path.replace\<close> (the atomic
  \<open>rename\<close>, which fails across devices), \<open>Path.mkdir(parents=True, exist_ok=True)\<close>,
  \<open>shutil.copy2\<close> and the recursive listing.  Nodes are keyed by resolved segment lists, so two
  texts of one path are one node.  File modes, \<open>fsync\<close> and symbolic links are not modelled, and
  an operation on a directory where the code expects a regular file is an \<open>OSError\<close>.
\<close>

datatype node = Dir | Reg string int

record fs =
  nodes :: "(string list, node) tbl"
  fs_cwd :: "string list"
  fs_dev :: "string list \<Rightarrow> nat"

definition fs_key :: "fs \<Rightarrow> path \<Rightarrow> string list" where
  "fs_key f p = resolve (fs_cwd f) p"

definition node_at :: "fs \<Rightarrow> string list \<Rightarrow> node option" where
  "node_at f k = (if k = [] then Some Dir else map_of (nodes f) k)"

definition fs_node :: "fs \<Rightarrow> path \<Rightarrow> node option" where
  "fs_node f p = node_at f (fs_key f p)"

definition fs_exists :: "fs \<Rightarrow> path \<Rightarrow> bool" where
  "fs_exists f p \<longleftrightarrow> fs_node f p \<noteq> None"

definition fs_is_dir :: "fs \<Rightarrow> path \<Rightarrow> bool" where
  "fs_is_dir f p \<longleftrightarrow> fs_node f p = Some Dir"

definition fs_is_file :: "fs \<Rightarrow> path \<Rightarrow> bool" where
  "fs_is_file f p = (case fs_node f p of Some (Reg c t) \<Rightarrow> True | _ \<Rightarrow> False)"

definition fs_read :: "path \<Rightarrow> fs \<Rightarrow> string res \<times> fs" where
  "fs_read p f =
     (case fs_node f p of
        Some (Reg c t) \<Rightarrow> (Inr c, f)
      | Some Dir \<Rightarrow> (Inl (OSError ''EISDIR''), f)
      | None \<Rightarrow> (Inl (OSError ''ENOENT''), f))"

definition fs_size :: "fs \<Rightarrow> path \<Rightarrow> int" where
  "fs_size f p = (case fs_node f p of Some (Reg c t) \<Rightarrow> int (length c) | _ \<Rightarrow> 0)"

definition fs_mtime :: "fs \<Rightarrow> path \<Rightarrow> int" where
  "fs_mtime f p = (case fs_node f p of Some (Reg c t) \<Rightarrow> t | _ \<Rightarrow> 0)"

definition key_put :: "string list \<Rightarrow> node \<Rightarrow> fs \<Rightarrow> fs" where
  "key_put k n f = f\<lparr>nodes := AList.update k n (nodes f)\<rparr>"

definition key_del :: "string list \<Rightarrow> fs \<Rightarrow> fs" where
  "key_del k f = f\<lparr>nodes := AList.delete k (nodes f)\<rparr>"

definition key_unlink :: "string list \<Rightarrow> fs \<Rightarrow> unit res \<times> fs" where
  "key_unlink k f =
     (case node_at f k of
        None \<Rightarrow> (Inr (), f)
      | Some Dir \<Rightarrow> (Inl (OSError ''EISDIR''), f)
      | Some (Reg c t) \<Rightarrow> (Inr (), key_del k f))"

definition fs_unlink :: "path \<Rightarrow> fs \<Rightarrow> unit res \<times> fs" where
  "fs_unlink p f = key_unlink (fs_key f p) f"

definition key_rename :: "string list \<Rightarrow> string list \<Rightarrow> fs \<Rightarrow> unit res \<times> fs" where
  "key_rename s d f =
     (case node_at f s of
        None \<Rightarrow> (Inl (OSError ''ENOENT''), f)
      | Some Dir \<Rightarrow> (Inl (OSError ''EISDIR''), f)
      | Some (Reg c t) \<Rightarrow>
          if node_at f (butlast d) \<noteq> Some Dir then (Inl (OSError ''ENOENT''), f)
          else if node_at f d = Some Dir then (Inl (OSError ''EISDIR''), f)
          else if fs_dev f (butlast s) \<noteq> fs_dev f (butlast d) then (Inl (OSError ''EXDEV''), f)
          else if s = d then (Inr (), f)
          else (Inr (), key_put d (Reg c t) (key_del s f)))"

definition fs_rename :: "path \<Rightarrow> path \<Rightarrow> fs \<Rightarrow> unit res \<times> fs" where
  "fs_rename src dst f = key_rename (fs_key f src) (fs_key f dst) f"

definition key_prefixes :: "string list \<Rightarrow> string list list" where
  "key_prefixes k = map (\<lambda>i. take (Suc i) k) [0..<length k]"

definition is_reg :: "node option \<Rightarrow> bool" where
  "is_reg n = (case n of Some (Reg c t) \<Rightarrow> True | _ \<Rightarrow> False)"

definition add_dir :: "string list \<Rightarrow> fs \<Rightarrow> fs" where
  "add_dir k f = (if node_at f k = None then key_put k Dir f else f)"

definition key_mkdirs :: "string list \<Rightarrow> fs \<Rightarrow> unit res \<times> fs" where
  "key_mkdirs k f =
     (if \<exists>q \<in> set (key_prefixes k). is_reg (node_at f q) then (Inl (OSError ''EEXIST''), f)
      else (Inr (), fold add_dir (key_prefixes k) f))"

definition fs_mkdirs :: "path \<Rightarrow> fs \<Rightarrow> unit res \<times> fs" where
  "fs_mkdirs p f = key_mkdirs (fs_key f p) f"

text \<open>
  \<open>shutil.copy2\<close>: \<open>xfer\<close> is what the transfer makes of the bytes; the identity is a correct copy.
\<close>

definition fs_copy2 :: "(string \<Rightarrow> string) \<Rightarrow> path \<Rightarrow> path \<Rightarrow> fs \<Rightarrow> unit res \<times> fs" where
  "fs_copy2 xfer src dst f =
     (case fs_node f src of
        Some (Reg c t) \<Rightarrow>
          if fs_key f src = fs_key f dst then (Inl (OSError ''SameFileError''), f)
          else if node_at f (butlast (fs_key f dst)) \<noteq> Some Dir then (Inl (OSError ''ENOENT''), f)
          else if fs_node f dst = Some Dir then (Inl (OSError ''EISDIR''), f)
          else (Inr (), key_put (fs_key f dst) (Reg (xfer c) t) f)
      | Some Dir \<Rightarrow> (Inl (OSError ''EISDIR''), f)
      | None \<Rightarrow> (Inl (OSError ''ENOENT''), f))"

text \<open>\<open>Path.write_bytes\<close> and \<open>write_text\<close>, and opening for append and writing a text.\<close>

definition fs_write :: "path \<Rightarrow> string \<Rightarrow> int \<Rightarrow> fs \<Rightarrow> unit res \<times> fs" where
  "fs_write p c t f =
     (if node_at f (butlast (fs_key f p)) \<noteq> Some Dir then (Inl (OSError ''ENOENT''), f)
      else if fs_node f p = Some Dir then (Inl (OSError ''EISDIR''), f)
      else (Inr (), key_put (fs_key f p) (Reg c t) f))"

definition fs_append :: "path \<Rightarrow> string \<Rightarrow> int \<Rightarrow> fs \<Rightarrow> unit res \<times> fs" where
  "fs_append p c t f =
     fs_write p ((case fs_node f p of Some (Reg c0 t0) \<Rightarrow> c0 | _ \<Rightarrow> []) @ c) t f"

text \<open>The regular files strictly below a directory, in table order.\<close>

definition key_files_below :: "string list \<Rightarrow> fs \<Rightarrow> string list list" where
  "key_files_below root f =
     map fst (filter (\<lambda>(k, n). strict_prefix root k \<and> is_reg (Some n)) (nodes f))"

subsection \<open>Well-formed stores\<close>

definition wf_fs :: "fs \<Rightarrow> bool" where
  "wf_fs f \<longleftrightarrow> distinct (map fst (nodes f)) \<and> [] \<notin> set (map fst (nodes f)) \<and>
     (\<forall>k \<in> set (map fst (nodes f)). node_at f (butlast k) = Some Dir)"

subsection \<open>Facts about nodes\<close>

lemma node_at_Nil [simp]: "node_at f [] = Some Dir"
  by (simp add: node_at_def)

lemma fs_frame_simps [simp]:
  "fs_cwd (key_put k n f) = fs_cwd f" "fs_dev (key_put k n f) = fs_dev f"
  "fs_cwd (key_del k f) = fs_cwd f" "fs_dev (key_del k f) = fs_dev f"
  by (simp_all add: key_put_def key_del_def)

lemma node_at_put [simp]: "k \<noteq> [] \<Longrightarrow> node_at (key_put k n f) k' = (if k' = k then Some n else node_at f k')"
  by (simp add: node_at_def key_put_def update_conv')

lemma node_at_del [simp]: "k \<noteq> [] \<Longrightarrow> node_at (key_del k f) k' = (if k' = k then None else node_at f k')"
  by (simp add: node_at_def key_del_def delete_conv')

lemma node_at_Some_Reg: "node_at f k = Some (Reg c t) \<Longrightarrow> k \<noteq> []"
  by (auto simp: node_at_def)

lemma node_at_None: "node_at f k = None \<Longrightarrow> k \<noteq> []"
  by (auto simp: node_at_def)

text \<open>The file contents a store holds.\<close>

definition held :: "('f \<Rightarrow> 'k \<Rightarrow> node option) \<Rightarrow> 'f \<Rightarrow> string set" where
  "held look f = {c. \<exists>k t. look f k = Some (Reg c t)}"

lemma heldI: "look f k = Some (Reg c t) \<Longrightarrow> c \<in> held look f"
  by (auto simp: held_def)

text \<open>
  The contract of the store its clients rely on: what a rename, an unlink and a directory
  creation change, and that a failing operation changes nothing.
\<close>

locale file_store =
  fixes look :: "'f \<Rightarrow> 'k \<Rightarrow> node option"
    and mv :: "'k \<Rightarrow> 'k \<Rightarrow> 'f \<Rightarrow> unit res \<times> 'f"
    and rm :: "'k \<Rightarrow> 'f \<Rightarrow> unit res \<times> 'f"
    and mkd :: "'k \<Rightarrow> 'f \<Rightarrow> unit res \<times> 'f"
  assumes mv_ok: "mv s d f = (Inr u, f') \<Longrightarrow> is_reg (look f s) \<and> \<not> look f d = Some Dir \<and>
      look f' = (look f)(s := None, d := look f s)"
    and mv_fail: "mv s d f = (Inl e, f') \<Longrightarrow> f' = f"
    and rm_ok: "rm k f = (Inr u, f') \<Longrightarrow> look f k \<noteq> Some Dir \<and> look f' = (look f)(k := None)"
    and rm_fail: "rm k f = (Inl e, f') \<Longrightarrow> f' = f"
    and mkd_ok: "mkd k f = (Inr u, f') \<Longrightarrow>
      look f' q = look f q \<or> look f q = None \<and> look f' q = Some Dir"
    and mkd_fail: "mkd k f = (Inl e, f') \<Longrightarrow> f' = f"
begin

lemma mkd_cases:
  assumes "mkd k f = (r, f')"
  shows "look f' q = look f q \<or> look f q = None \<and> look f' q = Some Dir"
  using assms mkd_ok [of k f _ f' q] mkd_fail [of k f _ f'] by (cases r) auto

lemma mkd_reg_iff:
  assumes "mkd k f = (r, f')"
  shows "look f' q = Some (Reg c t) \<longleftrightarrow> look f q = Some (Reg c t)"
  using mkd_cases [OF assms, of q] by auto

lemma mkd_held: "mkd k f = (r, f') \<Longrightarrow> held look f' = held look f"
  by (simp add: held_def mkd_reg_iff)

text \<open>A rename onto a free place loses no content and invents none.\<close>

lemma mv_held:
  assumes "mv s d f = (r, f')" and "look f d = None"
  shows "held look f' = held look f"
proof (cases r)
  case (Inl e)
  with assms mv_fail show ?thesis by blast
next
  case (Inr u)
  with assms mv_ok have reg: "is_reg (look f s)"
    and eq: "look f' = (look f)(s := None, d := look f s)" by blast+
  have "s \<noteq> d" using reg assms(2) by (auto simp: is_reg_def)
  obtain c t where c: "look f s = Some (Reg c t)"
    using reg by (auto simp: is_reg_def split: option.splits node.splits)
  show ?thesis
  proof (intro set_eqI iffI)
    fix x assume "x \<in> held look f'"
    then show "x \<in> held look f" using c by (auto simp: held_def eq split: if_splits)
  next
    fix x assume "x \<in> held look f"
    then obtain k t' where k: "look f k = Some (Reg x t')" by (auto simp: held_def)
    show "x \<in> held look f'"
    proof (cases "k = s")
      case True
      with k c have "look f' d = Some (Reg x t')" by (simp add: eq)
      then show ?thesis by (rule heldI)
    next
      case False
      with k assms(2) have "look f' k = Some (Reg x t')" by (auto simp: eq)
      then show ?thesis by (rule heldI)
    qed
  qed
qed

lemma rm_cases:
  assumes "rm k f = (r, f')"
  shows "f' = f \<or> look f' = (look f)(k := None)"
  using assms rm_ok [of k f _ f'] rm_fail [of k f _ f'] by (cases r) auto

lemma rm_held_sub: "rm k f = (r, f') \<Longrightarrow> held look f' \<subseteq> held look f"
  using rm_cases [of k f r f'] by (fastforce simp: held_def split: if_splits)

end

lemma key_rename_ok:
  assumes "key_rename s d f = (Inr u, f')"
  shows "is_reg (node_at f s) \<and> \<not> node_at f d = Some Dir \<and>
    node_at f' = (node_at f)(s := None, d := node_at f s)"
proof -
  from assms obtain c t where s: "node_at f s = Some (Reg c t)" and d: "node_at f d \<noteq> Some Dir"
    and f': "f' = (if s = d then f else key_put d (Reg c t) (key_del s f))"
    by (auto simp: key_rename_def split: option.splits node.splits if_splits)
  then have "s \<noteq> []" "d \<noteq> []" by auto
  with s d f' show ?thesis by (auto simp: is_reg_def fun_eq_iff)
qed

lemma key_rename_fail: "key_rename s d f = (Inl e, f') \<Longrightarrow> f' = f"
  by (auto simp: key_rename_def split: option.splits node.splits if_splits)

lemma key_unlink_ok:
  "key_unlink k f = (Inr u, f') \<Longrightarrow> node_at f k \<noteq> Some Dir \<and> node_at f' = (node_at f)(k := None)"
  using node_at_Some_Reg [of f k]
  by (auto simp: key_unlink_def fun_eq_iff split: option.splits node.splits)

lemma key_unlink_fail: "key_unlink k f = (Inl e, f') \<Longrightarrow> f' = f"
  by (auto simp: key_unlink_def split: option.splits node.splits)

lemma node_at_add_dir:
  "node_at (add_dir k f) q = (if q = k \<and> node_at f k = None then Some Dir else node_at f q)"
  using node_at_None [of f k] by (auto simp: add_dir_def)

lemma node_at_fold_add_dir:
  "node_at (fold add_dir ks f) q =
     (if q \<in> set ks \<and> node_at f q = None then Some Dir else node_at f q)"
  by (induction ks arbitrary: f) (auto simp: node_at_add_dir)

lemma key_mkdirs_ok:
  "key_mkdirs k f = (Inr u, f') \<Longrightarrow>
     node_at f' q = node_at f q \<or> node_at f q = None \<and> node_at f' q = Some Dir"
  by (auto simp: key_mkdirs_def node_at_fold_add_dir split: if_splits)

lemma key_mkdirs_fail: "key_mkdirs k f = (Inl e, f') \<Longrightarrow> f' = f"
  by (auto simp: key_mkdirs_def split: if_splits)

lemma fs_frame_ops [simp]:
  "fs_cwd (snd (key_unlink k f)) = fs_cwd f" "fs_dev (snd (key_unlink k f)) = fs_dev f"
  "fs_cwd (snd (key_rename s d f)) = fs_cwd f" "fs_dev (snd (key_rename s d f)) = fs_dev f"
  by (simp_all add: key_unlink_def key_rename_def split: option.split node.split)

lemma fs_frame_fold [simp]: "fs_cwd (fold add_dir ks f) = fs_cwd f" "fs_dev (fold add_dir ks f) = fs_dev f"
  by (induction ks arbitrary: f) (auto simp: add_dir_def)

lemma fs_frame_mkdirs [simp]:
  "fs_cwd (snd (key_mkdirs k f)) = fs_cwd f" "fs_dev (snd (key_mkdirs k f)) = fs_dev f"
  by (simp_all add: key_mkdirs_def)

lemma fs_key_cong: "fs_cwd f' = fs_cwd f \<Longrightarrow> fs_key f' p = fs_key f p"
  by (simp add: fs_key_def)

interpretation st: file_store node_at key_rename key_unlink key_mkdirs
  using key_rename_ok key_rename_fail key_unlink_ok key_unlink_fail key_mkdirs_ok key_mkdirs_fail
  by unfold_locales

lemma key_mkdirs_dir:
  assumes "key_mkdirs k f = (Inr u, f')" shows "node_at f' k = Some Dir"
proof (cases "k = []")
  case False
  then have "k \<in> set (key_prefixes k)"
    by (auto simp: key_prefixes_def intro!: image_eqI [of _ _ "length k - 1"])
  with assms have "\<not> is_reg (node_at f k)" "f' = fold add_dir (key_prefixes k) f"
    by (auto simp: key_mkdirs_def split: if_splits)
  with \<open>k \<in> set (key_prefixes k)\<close> show ?thesis
    by (cases "node_at f k"; cases "the (node_at f k)")
      (auto simp: node_at_fold_add_dir is_reg_def)
qed (use assms in \<open>auto simp: key_mkdirs_def split: if_splits\<close>)

end
