(* ===== verification/Storage.thy ===== *)
theory Storage
  imports Filesys
begin

section \<open>Storage helpers (\<open>domain/storage.py\<close>)\<close>

text \<open>
  Destination names, collision-free destinations and the durable move into a queue.  The digest
  \<open>hash\<close> of a file's bytes, the reader \<open>from_iso\<close> of ISO timestamps (year and month) and the
  transfer \<open>xfer\<close> of \<open>shutil.copy2\<close> are arguments: the theorems hold for every digest and for a
  transfer that corrupts the bytes.  File modes and \<open>fsync\<close> do not show in the model.
\<close>

subsection \<open>File names\<close>

definition safe_char :: "char \<Rightarrow> bool" where
  "safe_char c \<longleftrightarrow> ascii_upper c \<or> ascii_lower c \<or> ascii_digit c \<or> c \<in> set ''._ -''"

text \<open>\<open>_SAFE_NAME_RE.sub("_", \<dots>)\<close>: each maximal run of other characters becomes one underscore.\<close>

definition sub_unsafe :: "string \<Rightarrow> string" where
  "sub_unsafe v = sub_runs safe_char v"

definition trim_char :: "char \<Rightarrow> bool" where
  "trim_char c \<longleftrightarrow> c \<in> set ''._ ''"

definition sanitize_filename :: "string \<Rightarrow> string" where
  "sanitize_filename v =
     (let cleaned = strip_by trim_char (sub_unsafe v) in if cleaned = [] then ''unnamed'' else cleaned)"

subsection \<open>Destination paths\<close>

definition parse_timestamp ::
  "(string \<Rightarrow> (nat \<times> nat) option) \<Rightarrow> nat \<times> nat \<Rightarrow> string \<Rightarrow> nat \<times> nat" where
  "parse_timestamp from_iso now v =
     (case from_iso (replace_str ''Z'' ''+00:00'' v) of Some ym \<Rightarrow> ym | None \<Rightarrow> now)"

definition render_text :: "string \<Rightarrow> string \<Rightarrow> string \<Rightarrow> nat \<times> nat \<Rightarrow> string" where
  "render_text template sha safe_name ym =
     replace_str ''{original}'' safe_name
      (replace_str ''{sha8}'' (take 8 sha)
        (replace_str ''{mm}'' (pad0 2 (snd ym))
          (replace_str ''{yyyy}'' (pad0 4 (fst ym)) template)))"

definition render_storage_relative_path ::
  "(string \<Rightarrow> (nat \<times> nat) option) \<Rightarrow> nat \<times> nat \<Rightarrow> string \<Rightarrow> string \<Rightarrow> string \<Rightarrow> string \<Rightarrow> path res" where
  "render_storage_relative_path from_iso now template sha original mtime =
     (let p = path_of (render_text template sha (sanitize_filename original)
                (parse_timestamp from_iso now mtime))
      in if is_absolute p then Inl (StorageError ''Storage template must render a relative path'')
         else if \<exists>s \<in> set (segs p). s = ''..'' \<or> s = []
         then Inl (StorageError ''Storage template renders unsafe path components'')
         else Inr p)"

text \<open>\<open>re.findall(r"\{([^{}]+)\}", template)\<close>.\<close>

definition no_brace :: "char \<Rightarrow> bool" where
  "no_brace c \<longleftrightarrow> c \<noteq> CHR ''{'' \<and> c \<noteq> CHR ''}''"

function find_placeholders :: "string \<Rightarrow> string list" where
  "find_placeholders [] = []"
| "find_placeholders (c # cs) =
     (let body = takeWhile no_brace cs; rest = dropWhile no_brace cs
      in if c = CHR ''{'' \<and> body \<noteq> [] \<and> rest \<noteq> [] \<and> hd rest = CHR ''}''
         then body # find_placeholders (tl rest) else find_placeholders cs)"
  by pat_completeness auto
termination
  by (relation "measure length")
    (auto simp: less_Suc_eq_le intro: order_trans [OF diff_le_self length_dropWhile_le])

definition lint_storage_template :: "string \<Rightarrow> string list" where
  "lint_storage_template t =
     (if prefix ''/'' t then [''template_must_be_relative''] else []) @
     (if contains_str ''..'' t then [''template_contains_traversal''] else []) @
     (if \<not> contains_str ''{original}'' t \<and> \<not> contains_str ''{sha8}'' t
      then [''template_missing_filename_component''] else []) @
     map (\<lambda>p. ''template_unknown_placeholder:{'' @ p @ ''}'')
       (filter (\<lambda>p. p \<notin> {''yyyy'', ''mm'', ''sha8'', ''original''}) (find_placeholders t))"

subsection \<open>Collision-free destinations\<close>

definition collision_candidate :: "path \<Rightarrow> nat \<Rightarrow> path" where
  "collision_candidate base i =
     child (path_parent base) (path_stem base @ ''-'' @ nat_str i @ path_suffix base)"

definition choose_collision_safe_destination_with_threshold :: "path \<Rightarrow> int \<Rightarrow> fs \<Rightarrow> path res" where
  "choose_collision_safe_destination_with_threshold base max_attempts f =
     (if max_attempts < 1 then Inl (StorageError ''max_attempts must be >= 1'')
      else if \<not> fs_exists f base then Inr base
      else case find (\<lambda>i. \<not> fs_exists f (collision_candidate base i)) [1..<Suc (nat max_attempts)] of
          Some i \<Rightarrow> Inr (collision_candidate base i)
        | None \<Rightarrow> Inl (StorageError
            (''Collision threshold exceeded while generating destination path: base='' @
             path_str base @ '' attempts='' @ int_str max_attempts)))"

definition choose_collision_safe_destination :: "path \<Rightarrow> fs \<Rightarrow> path res" where
  "choose_collision_safe_destination base f =
     choose_collision_safe_destination_with_threshold base 10000 f"

subsection \<open>Containment and devices\<close>

definition ensure_within_root :: "path \<Rightarrow> path \<Rightarrow> fs \<Rightarrow> unit res \<times> fs" where
  "ensure_within_root p root f =
     guard (within_root_text (fs_key f p) (fs_key f root))
       (StorageError (''Destination escapes accepted root: destination='' @ abs_str (fs_key f p) @
          '' root='' @ abs_str (fs_key f root))) f
       (\<lambda>f. (Inr (), f))"

definition fs_ref :: "fs \<Rightarrow> path \<Rightarrow> path" where
  "fs_ref f p = (if fs_exists f p \<and> fs_is_dir f p then p else path_parent p)"

definition are_on_same_filesystem :: "path \<Rightarrow> path \<Rightarrow> fs \<Rightarrow> bool res \<times> fs" where
  "are_on_same_filesystem a b f =
     (let ra = fs_ref f a; rb = fs_ref f b
      in and_then (fs_mkdirs ra f) (\<lambda>_ f. and_then (fs_mkdirs rb f)
           (\<lambda>_ f. (Inr (fs_dev f (fs_key f ra) = fs_dev f (fs_key f rb)), f))))"

subsection \<open>The durable move\<close>

record commit_result =
  cm_destination_path :: path
  cm_bytes_written :: int
  cm_method :: string

definition tmp_destination :: "path \<Rightarrow> path" where
  "tmp_destination dst = with_suffix dst (path_suffix dst @ ''.tmp'')"

definition commit_by_rename :: "path \<Rightarrow> path \<Rightarrow> fs \<Rightarrow> commit_result res \<times> fs" where
  "commit_by_rename src dst f =
     and_then (fs_rename src dst f)
       (\<lambda>_ f. (Inr \<lparr>cm_destination_path = dst, cm_bytes_written = fs_size f dst,
                   cm_method = ''rename''\<rparr>, f))"

text \<open>\<open>sha256_file\<close> of both files reads them; \<open>unlink\<close> of the copy on a mismatch.\<close>

definition sha256_file :: "(string \<Rightarrow> string) \<Rightarrow> path \<Rightarrow> fs \<Rightarrow> string res \<times> fs" where
  "sha256_file hash p f = and_then (fs_read p f) (\<lambda>c f. (Inr (hash c), f))"

definition discard_copy :: "path \<Rightarrow> exn \<Rightarrow> fs \<Rightarrow> 'a res \<times> fs" where
  "discard_copy tmp e f = and_then (fs_unlink tmp f) (\<lambda>_ f. (Inl e, f))"

definition commit_by_copy ::
  "(string \<Rightarrow> string) \<Rightarrow> (string \<Rightarrow> string) \<Rightarrow> path \<Rightarrow> path \<Rightarrow> fs \<Rightarrow> commit_result res \<times> fs" where
  "commit_by_copy hash xfer src dst f =
     (let tmp = tmp_destination dst in
      guard (path_name dst \<noteq> []) (ValueError (path_str dst @ '' has an empty name'')) f (\<lambda>f.
      and_then (fs_copy2 xfer src tmp f) (\<lambda>_ f.
        (let source_size = fs_size f src; copied_size = fs_size f tmp in
         if source_size \<noteq> copied_size
         then discard_copy tmp (StorageError (''Cross-pool copy size mismatch: source='' @
                int_str source_size @ '' copied='' @ int_str copied_size)) f
         else and_then (sha256_file hash src f) (\<lambda>source_hash f.
              and_then (sha256_file hash tmp f) (\<lambda>copied_hash f.
              if source_hash \<noteq> copied_hash
              then discard_copy tmp (StorageError ''Cross-pool copy hash mismatch'') f
              else and_then (fs_rename tmp dst f) (\<lambda>_ f.
                   and_then (fs_unlink src f) (\<lambda>_ f.
                   (Inr \<lparr>cm_destination_path = dst, cm_bytes_written = copied_size,
                        cm_method = ''copy_verify_unlink''\<rparr>, f)))))))))"

definition commit_staging_to_accepted ::
  "(string \<Rightarrow> string) \<Rightarrow> (string \<Rightarrow> string) \<Rightarrow> path \<Rightarrow> path \<Rightarrow> bool \<Rightarrow> path option \<Rightarrow> fs
     \<Rightarrow> commit_result res \<times> fs" where
  "commit_staging_to_accepted hash xfer src dst same_pool root f =
     guard (fs_exists f src) (StorageError (''Staged source missing: '' @ path_str src)) f (\<lambda>f.
     and_then (case root of None \<Rightarrow> (Inr (), f) | Some r \<Rightarrow> ensure_within_root dst r f) (\<lambda>_ f.
     and_then (fs_mkdirs (path_parent dst) f) (\<lambda>_ f.
     if same_pool then commit_by_rename src dst f else commit_by_copy hash xfer src dst f)))"

definition commit_pending_to_accepted ::
  "(string \<Rightarrow> string) \<Rightarrow> (string \<Rightarrow> string) \<Rightarrow> path \<Rightarrow> path \<Rightarrow> bool \<Rightarrow> path option \<Rightarrow> fs
     \<Rightarrow> commit_result res \<times> fs" where
  "commit_pending_to_accepted hash xfer src dst same_pool root f =
     commit_staging_to_accepted hash xfer src dst same_pool root f"

section \<open>Storage properties\<close>

subsection \<open>Sanitised names\<close>

lemma sub_unsafe_safe: "c \<in> set (sub_unsafe v) \<Longrightarrow> safe_char c"
  using set_sub_runs [of safe_char v] by (auto simp: sub_unsafe_def safe_char_def)

lemma sub_unsafe_id: "\<forall>c \<in> set v. safe_char c \<Longrightarrow> sub_unsafe v = v"
  by (simp add: sub_unsafe_def sub_runs_id)

lemma safe_char_slash [simp]: "\<not> safe_char (CHR ''/'')"
  by (simp add: safe_char_def ascii_upper_def ascii_lower_def ascii_digit_def)

lemma unnamed_ok: "\<forall>c \<in> set ''unnamed''. safe_char c" "\<not> trim_char (CHR ''u'')" "\<not> trim_char (CHR ''d'')"
  by (simp_all add: safe_char_def ascii_upper_def ascii_lower_def trim_char_def)

lemma sanitize_chars: "c \<in> set (sanitize_filename v) \<Longrightarrow> safe_char c"
  using set_strip_by [of trim_char "sub_unsafe v"] sub_unsafe_safe [of c v] unnamed_ok(1)
  by (auto simp: sanitize_filename_def Let_def split: if_splits)

lemma sanitize_nonempty [simp]: "sanitize_filename v \<noteq> []"
  by (simp add: sanitize_filename_def Let_def)

lemma sanitize_ends:
  "\<not> trim_char (hd (sanitize_filename v))" "\<not> trim_char (last (sanitize_filename v))"
  using strip_by_hd [of trim_char "sub_unsafe v"] strip_by_last [of trim_char "sub_unsafe v"] unnamed_ok(2-3)
  by (auto simp: sanitize_filename_def Let_def)

lemma sanitize_idem: "sanitize_filename (sanitize_filename v) = sanitize_filename v"
proof -
  have "sub_unsafe (sanitize_filename v) = sanitize_filename v"
    by (intro sub_unsafe_id ballI sanitize_chars)
  moreover have "strip_by trim_char (sanitize_filename v) = sanitize_filename v"
    using sanitize_ends by (intro strip_by_id) simp
  ultimately show ?thesis by (simp add: sanitize_filename_def [of "sanitize_filename v"] Let_def)
qed

text \<open>
  C3: a sanitised file name is never empty, contains only letters, digits, dots, underscores,
  spaces and hyphens (so no path separator), is neither a dot name nor edged by dots, underscores
  or spaces, and sanitising it again changes nothing.
\<close>

theorem sanitize_filename_safe:
  "sanitize_filename v \<noteq> [] \<and> list_all safe_char (sanitize_filename v) \<and>
   CHR ''/'' \<notin> set (sanitize_filename v) \<and>
   hd (sanitize_filename v) \<notin> set ''._ '' \<and> last (sanitize_filename v) \<notin> set ''._ '' \<and>
   sanitize_filename (sanitize_filename v) = sanitize_filename v"
  using sanitize_chars [of _ v] sanitize_chars [of "CHR ''/''" v] sanitize_ends [of v] sanitize_idem [of v]
  by (auto simp: list_all_iff trim_char_def)

subsection \<open>Templates\<close>

lemma replace_induct [consumes 1, case_names Nil hit miss]:
  assumes "old \<noteq> []" and "P [] []"
    and "\<And>s. P s (replace_str old new s) \<Longrightarrow> P (old @ s) (new @ replace_str old new s)"
    and "\<And>c s. \<not> prefix old (c # s) \<Longrightarrow> P s (replace_str old new s) \<Longrightarrow> P (c # s) (c # replace_str old new s)"
  shows "P s (replace_str old new s)"
proof (induction s rule: length_induct)
  case (1 s)
  show ?case
  proof (cases s)
    case (Cons c cs)
    show ?thesis
    proof (cases "prefix old s")
      case True
      then obtain u where u: "s = old @ u" by (auto simp: prefix_def)
      with 1 assms(1,3) show ?thesis by (simp add: replace_str_hit)
    next
      case False
      with 1 Cons assms(4) show ?thesis by (simp add: replace_str_miss)
    qed
  qed (simp add: assms(2))
qed

text \<open>No two adjacent dots, and the first characters of a string.\<close>

definition no_dots :: "string \<Rightarrow> bool" where
  "no_dots s \<longleftrightarrow> successively (\<lambda>a b. \<not> (a = CHR ''.'' \<and> b = CHR ''.'')) s"

lemma no_dots_simps [simp]: "no_dots []" "no_dots [c]"
  by (simp_all add: no_dots_def)

lemma no_dots_Cons: "no_dots (c # s) \<longleftrightarrow> no_dots s \<and> \<not> (c = CHR ''.'' \<and> prefix ''.'' s)"
  by (cases s) (auto simp: no_dots_def)

lemma no_dots_append:
  "no_dots (u @ s) \<Longrightarrow> no_dots s"
  by (induction u) (auto simp: no_dots_Cons)

lemma no_dots_dotfree: "CHR ''.'' \<notin> set u \<Longrightarrow> no_dots s \<Longrightarrow> no_dots (u @ s)"
  by (induction u) (auto simp: no_dots_Cons)

lemma no_dots_contains: "\<not> contains_str ''..'' s \<Longrightarrow> no_dots s"
proof (induction s)
  case (Cons c s)
  show ?case
  proof (cases "c = CHR ''.'' \<and> prefix ''.'' s")
    case True
    then have "contains_str ''..'' (c # s)" by (auto simp: prefix_def)
    with Cons.prems show ?thesis by blast
  next
    case False
    with Cons show ?thesis by (auto simp: no_dots_Cons)
  qed
qed simp

lemma prefix_single_append: "u \<noteq> [] \<Longrightarrow> prefix [c] (u @ s) \<longleftrightarrow> hd u = c"
  by (cases u) auto

lemma no_dots_replace:
  assumes "old \<noteq> []" "new \<noteq> []" "CHR ''.'' \<notin> set new"
  shows "no_dots s \<longrightarrow> no_dots (replace_str old new s) \<and>
    (prefix ''.'' (replace_str old new s) \<longrightarrow> prefix ''.'' s)"
  using assms(1)
proof (induction rule: replace_induct)
  case (hit s)
  have "hd new \<noteq> CHR ''.''" using assms by (metis hd_in_set)
  with hit show ?case using assms no_dots_append [of old s]
    by (auto simp: no_dots_dotfree prefix_single_append)
next
  case (miss c s)
  then show ?case by (auto simp: no_dots_Cons)
qed simp

lemma not_abs_replace:
  assumes "old \<noteq> []" "new \<noteq> []" "hd new \<noteq> CHR ''/''"
  shows "prefix ''/'' (replace_str old new s) \<longrightarrow> prefix ''/'' s"
  using assms(1)
  by (induction rule: replace_induct) (use assms in \<open>auto simp: prefix_single_append\<close>)

lemma split_on_prefix:
  "c \<notin> set u \<Longrightarrow> split_on c (u @ s) = (u @ hd (split_on c s)) # tl (split_on c s)"
  by (induction u) auto

lemma segs_replace:
  assumes "old \<noteq> []" "new \<noteq> []" "hd new \<noteq> CHR ''.''" "CHR ''/'' \<notin> set new"
  shows "no_dots s \<longrightarrow> ''..'' \<notin> set (split_on (CHR ''/'') (replace_str old new s)) \<and>
    (hd (split_on (CHR ''/'') (replace_str old new s)) = ''.'' \<longrightarrow> prefix ''.'' s)"
  using assms(1)
proof (induction rule: replace_induct)
  case (hit s)
  obtain n ns where new: "new = n # ns" "n \<noteq> CHR ''.''" using assms by (cases new) auto
  have "set (tl (split_on (CHR ''/'') r)) \<subseteq> set (split_on (CHR ''/'') r)" for r
    by (metis list.set_sel(2) split_on_nonempty subsetI)
  then show ?case using hit no_dots_append [of old s] assms(4) new
    by (auto simp: split_on_prefix)
next
  case (miss c s)
  let ?r = "split_on (CHR ''/'') (replace_str old new s)"
  have "''..'' \<notin> set ?r \<Longrightarrow> ''..'' \<notin> set (tl ?r)"
    by (metis list.set_sel(2) split_on_nonempty)
  with miss split_on_prefix [of "CHR ''/''" "[c]" "replace_str old new s"]
  show ?case by (cases "c = CHR ''/''") (auto simp: no_dots_Cons)
qed simp

definition hex_like :: "string \<Rightarrow> bool" where
  "hex_like s \<longleftrightarrow> s \<noteq> [] \<and> list_all (\<lambda>c. ascii_digit c \<or> ascii_lower c) s"

lemma digit_not: "ascii_digit c \<Longrightarrow> c \<noteq> CHR ''.'' \<and> c \<noteq> CHR ''/''"
  "ascii_lower c \<Longrightarrow> c \<noteq> CHR ''.'' \<and> c \<noteq> CHR ''/''"
  by (auto simp: ascii_digit_def ascii_lower_def)

lemma plain_insert:
  assumes "new \<noteq> []" "\<And>c. c \<in> set new \<Longrightarrow> ascii_digit c \<or> ascii_lower c"
  shows "CHR ''.'' \<notin> set new" "CHR ''/'' \<notin> set new" "hd new \<noteq> CHR ''.''" "hd new \<noteq> CHR ''/''"
  using assms digit_not by (metis hd_in_set)+

lemma pad0_plain:
  "CHR ''.'' \<notin> set (pad0 w n)" "CHR ''/'' \<notin> set (pad0 w n)" "hd (pad0 w n) \<noteq> CHR ''/''"
  using plain_insert [of "pad0 w n"] pad0_digits [of _ w n] by auto

lemma render_text_ok:
  assumes "no_dots t" "\<not> prefix ''/'' t" "hex_like sha"
  shows "''..'' \<notin> set (split_on (CHR ''/'') (render_text t sha (sanitize_filename v) ym)) \<and>
    \<not> prefix ''/'' (render_text t sha (sanitize_filename v) ym)"
proof -
  let ?t1 = "replace_str ''{yyyy}'' (pad0 4 (fst ym)) t"
  let ?t2 = "replace_str ''{mm}'' (pad0 2 (snd ym)) ?t1"
  let ?t3 = "replace_str ''{sha8}'' (take 8 sha) ?t2"
  have sha: "take 8 sha \<noteq> []" "\<And>c. c \<in> set (take 8 sha) \<Longrightarrow> ascii_digit c \<or> ascii_lower c"
    using assms(3) by (auto simp: hex_like_def list_all_iff dest: in_set_takeD)
  have "no_dots ?t1" "\<not> prefix ''/'' ?t1"
    using assms no_dots_replace [of "''{yyyy}''" "pad0 4 (fst ym)" t]
      not_abs_replace [of "''{yyyy}''" "pad0 4 (fst ym)" t] pad0_plain by auto
  then have "no_dots ?t2" "\<not> prefix ''/'' ?t2"
    using no_dots_replace [of "''{mm}''" "pad0 2 (snd ym)" ?t1]
      not_abs_replace [of "''{mm}''" "pad0 2 (snd ym)" ?t1] pad0_plain by auto
  then have t3: "no_dots ?t3" "\<not> prefix ''/'' ?t3"
    using no_dots_replace [of "''{sha8}''" "take 8 sha" ?t2]
      not_abs_replace [of "''{sha8}''" "take 8 sha" ?t2] plain_insert [OF sha] sha(1) by auto
  have slash: "CHR ''/'' \<notin> set (sanitize_filename v)"
    using sanitize_chars [of "CHR ''/''" v] by auto
  then have "hd (sanitize_filename v) \<noteq> CHR ''/''"
    by (metis hd_in_set sanitize_nonempty)
  moreover have "hd (sanitize_filename v) \<noteq> CHR ''.''"
    using sanitize_ends(1) [of v] by (auto simp: trim_char_def)
  moreover note slash
  ultimately show ?thesis
    using segs_replace [of "''{original}''" "sanitize_filename v" ?t3] t3
      not_abs_replace [of "''{original}''" "sanitize_filename v" ?t3]
    by (simp add: render_text_def)
qed

lemma lint_clean:
  "lint_storage_template t = [] \<Longrightarrow> no_dots t \<and> \<not> prefix ''/'' t"
  by (auto simp: lint_storage_template_def no_dots_contains split: if_splits)

lemma render_relative:
  assumes "lint_storage_template t = []" and "hex_like sha"
  shows "\<exists>p. render_storage_relative_path from_iso now t sha v m = Inr p \<and>
    \<not> is_absolute p \<and> ''..'' \<notin> set (segs p) \<and> wf_path p"
  using render_text_ok [of t sha v "parse_timestamp from_iso now m"] lint_clean [OF assms(1)] assms(2)
  by (auto simp: render_storage_relative_path_def Let_def path_of_def wf_path_def seg_ok_def
      dest: split_on_no_sep)

text \<open>
  C4: when the template lint reports nothing, rendering never fails for a hexadecimal digest,
  whatever the original file name and the timestamp are, and the rendered path joined to any
  root stays below that root.
\<close>

theorem lint_clean_template_stays_below_root:
  assumes "lint_storage_template template = []" and "hex_like sha"
  shows "\<exists>p. render_storage_relative_path from_iso now template sha original mt = Inr p \<and>
    prefix (resolve cwd root) (resolve cwd (joinpath root p))"
  using render_relative [OF assms, of from_iso now original mt] resolve_joinpath [of _ cwd root]
  by fastforce

theorem lint_clean_template_stays_below_root_witness:
  "\<exists>p. render_storage_relative_path (\<lambda>_. Some (2024, 5)) (1970, 1) ''{yyyy}/{mm}/{sha8}-{original}''
       ''ab12'' ''../../x..y/.jpg'' ''2024-05-01T00:00:00Z'' = Inr p \<and>
    prefix (resolve [] (path_of ''/srv/accepted'')) (resolve [] (joinpath (path_of ''/srv/accepted'') p))"
proof (rule lint_clean_template_stays_below_root)
  show "lint_storage_template ''{yyyy}/{mm}/{sha8}-{original}'' = []" by code_simp
  show "hex_like ''ab12''" by code_simp
qed

subsection \<open>Collision-free destinations exist\<close>

lemma find_Some_upt: "find P [m..<n] = Some i \<Longrightarrow> P i \<and> m \<le> i \<and> i < n"
  by (auto simp: find_Some_iff)

lemma wf_path_parent [intro]: "wf_path p \<Longrightarrow> wf_path (path_parent p)"
  by (auto simp: wf_path_def path_parent_def dest: in_set_butlastD)

lemma name_no_slash: "wf_path p \<Longrightarrow> CHR ''/'' \<notin> set (path_name p)"
  by (auto simp: wf_path_def path_name_def seg_ok_def)

definition candidate_name :: "path \<Rightarrow> nat \<Rightarrow> string" where
  "candidate_name base i = path_stem base @ ''-'' @ nat_str i @ path_suffix base"

lemma candidate_name_ok:
  assumes "wf_path base"
  shows "seg_ok (candidate_name base i)" "candidate_name base i \<noteq> ''..''"
proof -
  have "CHR ''/'' \<notin> set (path_stem base)" "CHR ''/'' \<notin> set (path_suffix base)"
    using name_no_slash [OF assms] by (simp_all flip: stem_suffix)
  moreover have "CHR ''/'' \<notin> set (nat_str i)" using nat_str_digits digit_not(1) by blast
  ultimately have "CHR ''/'' \<notin> set (candidate_name base i)" by (simp add: candidate_name_def)
  moreover have "CHR ''-'' \<in> set (candidate_name base i)" by (simp add: candidate_name_def)
  ultimately show "seg_ok (candidate_name base i)" "candidate_name base i \<noteq> ''..''"
    by (auto simp: seg_ok_def)
qed

lemma path_of_seg: "seg_ok n \<Longrightarrow> path_of n = Path False [n]"
  by (auto simp: path_of_def seg_ok_def split_on_single prefix_def)

lemma candidate_path:
  assumes "wf_path base"
  shows "collision_candidate base i = Path (is_absolute base) (butlast (segs base) @ [candidate_name base i])"
  using candidate_name_ok(1) [OF assms, of i] path_of_seg [of "candidate_name base i"]
  by (simp add: collision_candidate_def child_def joinpath_def path_parent_def candidate_name_def)

lemma candidate_key:
  assumes "wf_path base"
  shows "fs_key f (collision_candidate base i) = fs_key f (path_parent base) @ [candidate_name base i]"
  using candidate_name_ok [OF assms, of i] resolve_joinpath [of "Path False [candidate_name base i]" "fs_cwd f" "path_parent base"]
  by (simp add: candidate_path [OF assms] fs_key_def joinpath_def path_parent_def)

lemma candidate_name_inj: "candidate_name base i = candidate_name base j \<Longrightarrow> i = j"
  by (simp add: candidate_name_def nat_str_inj)

lemma exists_nodes: "fs_exists f p \<Longrightarrow> fs_key f p \<noteq> [] \<Longrightarrow> fs_key f p \<in> fst ` set (nodes f)"
  by (metis fs_exists_def fs_node_def map_of_eq_None_iff node_at_def)

lemma collision_pigeonhole:
  assumes "wf_path base" and "\<And>i. 1 \<le> i \<Longrightarrow> i \<le> n \<Longrightarrow> fs_exists f (collision_candidate base i)"
  shows "n \<le> length (nodes f)"
proof -
  let ?g = "\<lambda>i. fs_key f (collision_candidate base i)"
  have "?g ` {1..n} \<subseteq> fst ` set (nodes f)"
    using assms exists_nodes [of f "collision_candidate base _"] by (auto simp: candidate_key)
  moreover have "inj_on ?g {1..n}"
    using candidate_name_inj by (auto simp: inj_on_def candidate_key [OF assms(1)])
  ultimately have "n \<le> card (fst ` set (nodes f))"
    by (metis card_atLeastAtMost card_image card_mono diff_Suc_1 finite_imageI List.finite_set)
  also have "\<dots> \<le> length (nodes f)" by (metis card_length length_map set_map)
  finally show ?thesis .
qed

lemma choose_fresh:
  assumes "choose_collision_safe_destination_with_threshold base mx f = Inr p"
  shows "\<not> fs_exists f p \<and> (p = base \<or> (\<exists>i. 1 \<le> i \<and> int i \<le> mx \<and> p = collision_candidate base i))"
proof (cases "fs_exists f base")
  case True
  with assms obtain i where "find (\<lambda>i. \<not> fs_exists f (collision_candidate base i)) [1..<Suc (nat mx)] = Some i"
    and p: "p = collision_candidate base i"
    by (auto simp: choose_collision_safe_destination_with_threshold_def split: if_splits option.splits)
  then have "\<not> fs_exists f (collision_candidate base i)" "1 \<le> i" "i < Suc (nat mx)"
    using find_Some_upt by blast+
  moreover have "int i \<le> mx" using \<open>1 \<le> i\<close> \<open>i < Suc (nat mx)\<close> by linarith
  ultimately show ?thesis using p by blast
qed (use assms in \<open>auto simp: choose_collision_safe_destination_with_threshold_def split: if_splits\<close>)

lemma choose_succeeds:
  assumes "wf_path base" "0 < mx" "int (length (nodes f)) < mx"
  shows "\<exists>p. choose_collision_safe_destination_with_threshold base mx f = Inr p"
proof (rule ccontr)
  assume "\<not> ?thesis"
  then have "find (\<lambda>i. \<not> fs_exists f (collision_candidate base i)) [1..<Suc (nat mx)] = None"
    using assms(2)
    by (auto simp: choose_collision_safe_destination_with_threshold_def split: if_splits option.splits)
  then have "\<And>i. 1 \<le> i \<Longrightarrow> i \<le> nat mx \<Longrightarrow> fs_exists f (collision_candidate base i)"
    by (auto simp: find_None_iff)
  then have "nat mx \<le> length (nodes f)" by (rule collision_pigeonhole [OF assms(1)])
  with assms show False by linarith
qed

text \<open>
  C5: the collision search returns a path at which nothing exists, in the directory of the
  requested one, and it always finds one when the store has fewer entries than the attempt
  bound.
\<close>

theorem collision_search_finds_free_sibling:
  assumes "wf_path base" and "segs base \<noteq> []" and "int (length (nodes f)) < mx"
  shows "\<exists>p. choose_collision_safe_destination_with_threshold base mx f = Inr p \<and>
    \<not> fs_exists f p \<and> path_parent p = path_parent base"
proof -
  have "0 < mx" using assms(3) by linarith
  then obtain p where p: "choose_collision_safe_destination_with_threshold base mx f = Inr p"
    using choose_succeeds assms by blast
  moreover have "path_parent (collision_candidate base i) = path_parent base" for i
    using assms(1) by (simp add: candidate_path path_parent_def)
  ultimately show ?thesis using choose_fresh [OF p] by auto
qed

theorem collision_search_finds_free_sibling_witness:
  "\<exists>p. choose_collision_safe_destination_with_threshold (path_of ''/a/b.jpg'') 5
       \<lparr>nodes = [([''a''], Dir), ([''a'', ''b.jpg''], Reg ''x'' 0), ([''a'', ''b-1.jpg''], Reg ''y'' 0)],
        fs_cwd = [], fs_dev = (\<lambda>_. 0)\<rparr> = Inr p \<and>
     \<not> fs_exists \<lparr>nodes = [([''a''], Dir), ([''a'', ''b.jpg''], Reg ''x'' 0), ([''a'', ''b-1.jpg''], Reg ''y'' 0)],
        fs_cwd = [], fs_dev = (\<lambda>_. 0)\<rparr> p \<and> path_parent p = path_parent (path_of ''/a/b.jpg'')"
  by (rule collision_search_finds_free_sibling) (simp_all add: path_of_def wf_path_def seg_ok_def)

subsection \<open>The move loses nothing\<close>

lemma fs_copy2_cases:
  assumes "node_at f (fs_key f src) = Some (Reg c t)"
  shows "(\<exists>e. fs_copy2 xfer src dst f = (Inl e, f)) \<or>
    fs_copy2 xfer src dst f = (Inr (), key_put (fs_key f dst) (Reg (xfer c) t) f) \<and>
    fs_key f dst \<noteq> fs_key f src \<and> fs_key f dst \<noteq> []"
  using assms by (auto simp: fs_copy2_def fs_node_def)

lemma fs_key_put [simp]: "fs_key (key_put k n f) p = fs_key f p" "fs_key (key_del k f) p = fs_key f p"
  by (simp_all add: fs_key_def)

text \<open>What is left of the copying move once the copy is made.\<close>

definition after_copy ::
  "(string \<Rightarrow> string) \<Rightarrow> string \<Rightarrow> string \<Rightarrow> path \<Rightarrow> path \<Rightarrow> fs \<Rightarrow> commit_result res \<times> fs" where
  "after_copy hash c c' src dst f =
     (if length c \<noteq> length c'
      then discard_copy (tmp_destination dst) (StorageError (''Cross-pool copy size mismatch: source='' @
             int_str (int (length c)) @ '' copied='' @ int_str (int (length c')))) f
      else if hash c \<noteq> hash c'
      then discard_copy (tmp_destination dst) (StorageError ''Cross-pool copy hash mismatch'') f
      else and_then (fs_rename (tmp_destination dst) dst f) (\<lambda>_ f. and_then (fs_unlink src f)
        (\<lambda>_ f. (Inr \<lparr>cm_destination_path = dst, cm_bytes_written = int (length c'),
             cm_method = ''copy_verify_unlink''\<rparr>, f))))"

lemma commit_by_copy_after:
  assumes "node_at f (fs_key f src) = Some (Reg c t)" and "path_name dst \<noteq> []"
    and "fs_copy2 xfer src (tmp_destination dst) f = (Inr (), g)"
  shows "commit_by_copy hash xfer src dst f = after_copy hash c (xfer c) src dst g"
proof -
  from assms(1,3) have g: "g = key_put (fs_key f (tmp_destination dst)) (Reg (xfer c) t) f"
    "fs_key f (tmp_destination dst) \<noteq> fs_key f src" "fs_key f (tmp_destination dst) \<noteq> []"
    using fs_copy2_cases [of f src c t xfer "tmp_destination dst"] by auto
  then have "fs_node g src = Some (Reg c t)" "fs_node g (tmp_destination dst) = Some (Reg (xfer c) t)"
    using assms(1) by (auto simp: fs_node_def)
  then show ?thesis
    using assms(2,3) by (simp add: commit_by_copy_def after_copy_def sha256_file_def fs_read_def fs_size_def Let_def)
qed

lemma discard_copy_keeps:
  assumes "discard_copy tmp e f = (r, f')"
  shows "(\<exists>e'. r = Inl e') \<and> (\<forall>k. k \<noteq> fs_key f tmp \<longrightarrow> node_at f' k = node_at f k)"
proof (cases "fs_unlink tmp f")
  case (Pair a g)
  then have "g = f \<or> node_at g = (node_at f)(fs_key f tmp := None)"
    using st.rm_cases [of "fs_key f tmp" f a g] by (simp add: fs_unlink_def)
  with Pair assms show ?thesis by (cases a) (auto simp: discard_copy_def)
qed

lemma tmp_destination_path:
  "segs dst \<noteq> [] \<Longrightarrow> tmp_destination dst = with_name dst (path_name dst @ ''.tmp'')"
  by (simp add: tmp_destination_def with_suffix_def flip: stem_suffix)

text \<open>
  The destination of a move, as resolved keys: it is a plain absolute path, so its directory is
  the directory of its key and the temporary copy is another file beside it.
\<close>

lemma plain_keys:
  assumes "plain dst" and "segs dst \<noteq> []"
  shows "fs_key f dst = segs dst" and "fs_key f (path_parent dst) = butlast (segs dst)"
    and "fs_key f (tmp_destination dst) = butlast (segs dst) @ [path_name dst @ ''.tmp'']"
    and "fs_key f (tmp_destination dst) \<noteq> segs dst"
proof -
  have p: "plain (path_parent dst)"
    using assms by (auto simp: plain_def path_parent_def dest: in_set_butlastD)
  have "path_name dst @ ''.tmp'' \<noteq> ''..''" by (cases "path_name dst") auto
  then have t: "plain (tmp_destination dst)"
    using assms by (auto simp: plain_def tmp_destination_path with_name_def dest: in_set_butlastD)
  show "fs_key f dst = segs dst" "fs_key f (path_parent dst) = butlast (segs dst)"
    using assms p by (simp_all add: fs_key_def path_parent_def)
  show tk: "fs_key f (tmp_destination dst) = butlast (segs dst) @ [path_name dst @ ''.tmp'']"
    using t by (simp add: fs_key_def) (simp add: tmp_destination_path [OF assms(2)] with_name_def)
  have "last (segs dst) = path_name dst" using assms(2) by (simp add: path_name_def)
  then show "fs_key f (tmp_destination dst) \<noteq> segs dst"
    unfolding tk by (metis last_snoc append_self_conv list.discI)
qed

lemma after_copy_cases:
  assumes src: "node_at f ks = Some (Reg c t)" and tmp: "node_at f kt = Some (Reg c' t)"
    and ks: "ks = fs_key f src" "kt = fs_key f (tmp_destination dst)" "kd = fs_key f dst"
    and ne: "kt \<noteq> ks" "kd \<noteq> kt"
    and run: "after_copy hash c c' src dst f = (r, f')"
  shows "(\<exists>e. r = Inl e \<and> (\<forall>k. k \<noteq> kt \<longrightarrow> node_at f' k = node_at f k)) \<or>
    (r = Inr \<lparr>cm_destination_path = dst, cm_bytes_written = int (length c), cm_method = ''copy_verify_unlink''\<rparr> \<and>
     hash c' = hash c \<and> length c' = length c \<and>
     node_at f' = (node_at f)(kt := None, kd := Some (Reg c' t), ks := None))"
proof (cases "length c = length c' \<and> hash c = hash c'")
  case False
  with run show ?thesis
    by (auto simp: after_copy_def ks split: if_splits dest!: discard_copy_keeps)
next
  case True
  obtain a g where mv: "key_rename kt kd f = (a, g)" by fastforce
  show ?thesis
  proof (cases a)
    case (Inl e)
    with mv have "g = f" by (simp add: st.mv_fail)
    with True run mv Inl show ?thesis by (auto simp: after_copy_def fs_rename_def ks)
  next
    case (Inr u)
    with mv have g: "node_at g = (node_at f)(kt := None, kd := Some (Reg c' t))"
      using st.mv_ok [of kt kd f u g] tmp by simp
    have cwd: "fs_cwd g = fs_cwd f" using mv by (metis fs_frame_ops(3) snd_conv)
    have gs: "\<exists>x. node_at g ks = Some (Reg x t)"
      using src ne by (auto simp: g)
    then have "fs_unlink src g = (Inr (), key_del ks g)" "ks \<noteq> []"
      using node_at_Some_Reg by (auto simp: fs_unlink_def key_unlink_def fs_key_cong [OF cwd] ks)
    with True run mv Inr g show ?thesis
      by (auto simp: after_copy_def fs_rename_def ks fun_eq_iff)
  qed
qed

lemma mkdirs_parent_keeps:
  assumes "key_mkdirs (butlast k) f = (r, f')" and "k \<noteq> []"
  shows "node_at f' k = node_at f k"
proof -
  have "length q \<le> length (butlast k)" if "q \<in> set (key_prefixes (butlast k))" for q
    using that by (auto simp: key_prefixes_def)
  moreover have "length (butlast k) < length k" using assms(2) by (cases k) auto
  ultimately have "k \<notin> set (key_prefixes (butlast k))" by fastforce
  with assms(1) show ?thesis by (auto simp: key_mkdirs_def node_at_fold_add_dir split: if_splits)
qed

text \<open>The effect of a move of a regular file: on an error both ends are as before.\<close>

definition moved ::
  "(string \<Rightarrow> string) \<Rightarrow> bool \<Rightarrow> path \<Rightarrow> path \<Rightarrow> fs \<Rightarrow> commit_result res \<times> fs \<Rightarrow> bool" where
  "moved hash same src dst f rf =
     (case rf of
        (Inl e, f') \<Rightarrow> fs_node f' src = fs_node f src \<and> fs_node f' dst = fs_node f dst
      | (Inr r, f') \<Rightarrow> cm_destination_path r = dst \<and> cm_bytes_written r = fs_size f src \<and>
          fs_node f' src = None \<and>
          (case (fs_node f src, fs_node f' dst) of
             (Some (Reg c t), Some (Reg c' t')) \<Rightarrow> t' = t \<and> hash c' = hash c \<and> (same \<longrightarrow> c' = c)
           | _ \<Rightarrow> False))"

lemma fs_node_cong: "fs_cwd f' = fs_cwd f \<Longrightarrow> fs_node f' p = node_at f' (fs_key f p)"
  by (simp add: fs_node_def fs_key_def)

lemma commit_by_rename_moved:
  assumes src: "fs_node f src = Some (Reg c t)" and dst: "fs_key f src \<noteq> fs_key f dst"
    and same: "same"
  shows "moved hash same src dst f (commit_by_rename src dst f)"
proof -
  obtain a g where mv: "key_rename (fs_key f src) (fs_key f dst) f = (a, g)" by fastforce
  have cwd: "fs_cwd g = fs_cwd f" using mv by (metis fs_frame_ops(3) snd_conv)
  show ?thesis
  proof (cases a)
    case (Inl e)
    with mv st.mv_fail have "g = f" by blast
    with mv Inl show ?thesis by (simp add: commit_by_rename_def fs_rename_def moved_def)
  next
    case (Inr u)
    with mv have g: "node_at g = (node_at f)(fs_key f src := None, fs_key f dst := node_at f (fs_key f src))"
      using st.mv_ok by blast
    with mv Inr src dst show ?thesis
      by (simp add: commit_by_rename_def fs_rename_def moved_def fs_node_cong [OF cwd] fs_size_def)
        (simp add: fs_node_def)
  qed
qed

lemma fs_copy2_cwd [simp]: "fs_cwd (snd (fs_copy2 xfer src dst f)) = fs_cwd f"
  by (simp add: fs_copy2_def split: option.split node.split)

lemma commit_by_copy_cwd:
  "fs_cwd (snd (commit_by_copy hash xfer src dst f)) = fs_cwd f"
  unfolding commit_by_copy_def Let_def
  by (rule guard_inv, simp)
    (auto intro!: and_then_inv [where P = "\<lambda>g. fs_cwd g = fs_cwd f"]
      simp: sha256_file_def fs_read_def discard_copy_def fs_rename_def fs_unlink_def
      split: option.split node.split)

lemma commit_by_copy_moved:
  assumes src: "fs_node f src = Some (Reg c t)" and dst: "plain dst" "segs dst \<noteq> []"
    and ne: "fs_key f src \<noteq> segs dst"
  shows "moved hash False src dst f (commit_by_copy hash xfer src dst f)"
proof -
  let ?kt = "fs_key f (tmp_destination dst)" and ?ks = "fs_key f src"
  note keys = plain_keys [OF dst, of f]
  have name: "path_name dst \<noteq> [] \<or> commit_by_copy hash xfer src dst f =
      (Inl (ValueError (path_str dst @ '' has an empty name'')), f)"
    by (auto simp: commit_by_copy_def guard_def Let_def)
  have s: "node_at f ?ks = Some (Reg c t)" using src by (simp add: fs_node_def)
  from fs_copy2_cases [OF s, of xfer "tmp_destination dst"] show ?thesis
  proof (elim disjE exE conjE)
    fix e assume "fs_copy2 xfer src (tmp_destination dst) f = (Inl e, f)"
    with name show ?thesis by (auto simp: commit_by_copy_def guard_def moved_def Let_def)
  next
    let ?g = "key_put ?kt (Reg (xfer c) t) f"
    assume cp: "fs_copy2 xfer src (tmp_destination dst) f = (Inr (), ?g)" and kt: "?kt \<noteq> ?ks" "?kt \<noteq> []"
    obtain r f' where run: "commit_by_copy hash xfer src dst f = (r, f')" by fastforce
    have cwd: "fs_cwd f' = fs_cwd f" using run commit_by_copy_cwd by (metis snd_conv)
    show ?thesis
    proof (cases "path_name dst = []")
      case True
      with name show ?thesis by (simp add: moved_def)
    next
      case False
      with run have "after_copy hash c (xfer c) src dst ?g = (r, f')"
        by (simp add: commit_by_copy_after [OF s _ cp])
      from after_copy_cases [OF _ _ refl refl refl _ _ this, of t] s kt keys ne
      have "(\<exists>e. r = Inl e \<and> (\<forall>k. k \<noteq> ?kt \<longrightarrow> node_at f' k = node_at ?g k)) \<or>
        (r = Inr \<lparr>cm_destination_path = dst, cm_bytes_written = int (length c), cm_method = ''copy_verify_unlink''\<rparr> \<and>
         hash (xfer c) = hash c \<and>
         node_at f' = (node_at ?g)(?kt := None, segs dst := Some (Reg (xfer c) t), ?ks := None))"
        by auto
      with run kt keys s ne show ?thesis
        by (auto simp: moved_def fs_node_cong [OF cwd] fs_node_cong [of f f] fs_size_def)
    qed
  qed
qed

lemma commit_moved:
  assumes src: "fs_node f src = Some (Reg c t)" and dst: "plain dst" "segs dst \<noteq> []"
    and ne: "fs_key f src \<noteq> fs_key f dst"
  shows "moved hash same src dst f (commit_staging_to_accepted hash xfer src dst same root f)"
proof -
  obtain a g where mk: "key_mkdirs (butlast (segs dst)) f = (a, g)" by fastforce
  have cwd: "fs_cwd g = fs_cwd f" using mk by (metis fs_frame_mkdirs(1) snd_conv)
  have nodes: "fs_node g src = fs_node f src" "fs_node g dst = fs_node f dst"
    using st.mkd_reg_iff [OF mk, of "fs_key f src" c t] mkdirs_parent_keeps [OF mk dst(2)] src plain_keys(1) [OF dst]
    by (simp_all add: fs_node_cong [OF cwd] fs_node_cong [of f f])
  have eq: "moved hash same src dst f rf = moved hash same src dst g rf" for rf
    unfolding moved_def fs_size_def nodes ..
  have ne': "fs_key g src \<noteq> segs dst" "fs_key g src \<noteq> fs_key g dst"
    using ne plain_keys(1) [OF dst] by (simp_all add: fs_key_cong [OF cwd])
  have weak: "moved hash False src dst g rf \<Longrightarrow> \<not> same \<Longrightarrow> moved hash same src dst g rf" for rf
    by simp
  have rest: "moved hash same src dst f
      (and_then (fs_mkdirs (path_parent dst) f) (\<lambda>_ f.
        if same then commit_by_rename src dst f else commit_by_copy hash xfer src dst f))"
  proof (cases a)
    case (Inl e)
    with mk st.mkd_fail have "g = f" by blast
    with mk Inl show ?thesis by (simp add: fs_mkdirs_def plain_keys(2) [OF dst] moved_def)
  next
    case (Inr u)
    with mk show ?thesis
      using commit_by_rename_moved [of g src c t dst same hash] commit_by_copy_moved [of g src c t dst hash xfer]
        src dst ne' nodes
      by (simp add: fs_mkdirs_def plain_keys(2) [OF dst] eq)
  qed
  show ?thesis
    using rest src
    by (auto simp: commit_staging_to_accepted_def fs_exists_def guard_def ensure_within_root_def
        moved_def [of hash same src dst f "(Inl _, f)"] split: option.split)
qed



end
