(* ===== verification/Json.thy ===== *)
theory Json
  imports Py_Strings
begin

section \<open>The flat JSON objects the sources store\<close>

text \<open>
  \<open>json.dumps\<close> and \<open>json.loads\<close> on the objects the journal and the idempotency table hold: string
  keys, values that are strings, integers, booleans or null.  Rendering escapes as Python does by
  default (\<open>ensure_ascii\<close>); the two separators are arguments, since the journal is written with
  compact ones.  Reading accepts white space wherever JSON does; a text with a nested value, a
  fraction or a character beyond the model's code points is not read (\<open>None\<close>), and neither is an
  ill-formed one.
\<close>

datatype jval = JNull | JBool bool | JInt int | JText string

type_synonym jobject = "(string \<times> jval) list"

abbreviation jquote :: char where "jquote \<equiv> CHR 0x22"
abbreviation jback :: char where "jback \<equiv> CHR 0x5C"

subsection \<open>Rendering\<close>

definition hex_digit :: "nat \<Rightarrow> char" where
  "hex_digit n = (if n < 10 then char_of (48 + n) else char_of (87 + n))"

definition json_char :: "char \<Rightarrow> string" where
  "json_char c =
     (let n = (of_char c :: nat) in
      if n = 34 then [jback, c]
      else if n = 92 then [c, c]
      else if n = 8 then jback # ''b''
      else if n = 12 then jback # ''f''
      else if n = 10 then jback # ''n''
      else if n = 13 then jback # ''r''
      else if n = 9 then jback # ''t''
      else if n < 32 \<or> 126 < n
      then jback # ''u00'' @ [hex_digit (n div 16), hex_digit (n mod 16)]
      else [c])"

definition json_str :: "string \<Rightarrow> string" where
  "json_str s = jquote # concat (map json_char s) @ [jquote]"

fun json_val :: "jval \<Rightarrow> string" where
  "json_val JNull = ''null''"
| "json_val (JBool b) = (if b then ''true'' else ''false'')"
| "json_val (JInt i) = int_str i"
| "json_val (JText s) = json_str s"

definition json_dumps :: "string \<Rightarrow> string \<Rightarrow> jobject \<Rightarrow> string" where
  "json_dumps isep ksep kvs =
     ''{'' @ join_with isep (map (\<lambda>(k, v). json_str k @ ksep @ json_val v) kvs) @ ''}''"

definition json_opt :: "string option \<Rightarrow> jval" where
  "json_opt x = (case x of None \<Rightarrow> JNull | Some s \<Rightarrow> JText s)"

subsection \<open>Reading\<close>

definition json_ws :: "char \<Rightarrow> bool" where
  "json_ws c \<longleftrightarrow> (of_char c :: nat) \<in> set [32, 9, 10, 13]"

abbreviation skip_ws :: "string \<Rightarrow> string" where
  "skip_ws s \<equiv> dropWhile json_ws s"

definition hex_value :: "char \<Rightarrow> nat option" where
  "hex_value c =
     (let n = (of_char c :: nat) in
      if 48 \<le> n \<and> n \<le> 57 then Some (n - 48)
      else if 97 \<le> n \<and> n \<le> 102 then Some (n - 87)
      else if 65 \<le> n \<and> n \<le> 70 then Some (n - 55)
      else None)"

definition hex4 :: "char \<Rightarrow> char \<Rightarrow> char \<Rightarrow> char \<Rightarrow> char option" where
  "hex4 a b c d =
     (case (hex_value a, hex_value b, hex_value c, hex_value d) of
        (Some w, Some x, Some y, Some z) \<Rightarrow>
          (let n = ((w * 16 + x) * 16 + y) * 16 + z in if n < 256 then Some (char_of n) else None)
      | _ \<Rightarrow> None)"

definition unescape :: "char \<Rightarrow> char option" where
  "unescape e =
     map_of [(jquote, jquote), (jback, jback), (CHR ''/'', CHR ''/''), (CHR ''b'', CHR 0x08),
       (CHR ''f'', CHR 0x0C), (CHR ''n'', CHR 0x0A),
       (CHR ''r'', CHR 0x0D), (CHR ''t'', CHR 0x09)] e"

definition cons_fst :: "'a \<Rightarrow> ('a list \<times> 'b) option \<Rightarrow> ('a list \<times> 'b) option" where
  "cons_fst c r = map_option (\<lambda>(cs, rest). (c # cs, rest)) r"

fun parse_chars :: "string \<Rightarrow> (string \<times> string) option" where
  "parse_chars [] = None"
| "parse_chars (c # cs) =
     (if c = jquote then Some ([], cs)
      else if c = jback then
        (case cs of
           [] \<Rightarrow> None
         | e # r \<Rightarrow>
             if e = CHR ''u''
             then (case r of
                     h1 # h2 # h3 # h4 # r' \<Rightarrow>
                       (case hex4 h1 h2 h3 h4 of None \<Rightarrow> None | Some x \<Rightarrow> cons_fst x (parse_chars r'))
                   | _ \<Rightarrow> None)
             else (case unescape e of None \<Rightarrow> None | Some x \<Rightarrow> cons_fst x (parse_chars r)))
      else if (of_char c :: nat) < 32 then None
      else cons_fst c (parse_chars cs))"

definition parse_string :: "string \<Rightarrow> (string \<times> string) option" where
  "parse_string s = (case s of [] \<Rightarrow> None | c # cs \<Rightarrow> if c = jquote then parse_chars cs else None)"

definition digits_val :: "string \<Rightarrow> nat" where
  "digits_val ds = foldl (\<lambda>a c. 10 * a + (of_char c - 48)) 0 ds"

definition parse_nat :: "string \<Rightarrow> (nat \<times> string) option" where
  "parse_nat s =
     (let ds = takeWhile ascii_digit s; r = dropWhile ascii_digit s in
      if ds = [] \<or> hd ds = CHR ''0'' \<and> length ds > 1 \<or> r \<noteq> [] \<and> hd r \<in> set ''.eE'' then None
      else Some (digits_val ds, r))"

definition parse_lit :: "string \<Rightarrow> jval \<Rightarrow> string \<Rightarrow> (jval \<times> string) option" where
  "parse_lit t v s = (if prefix t s then Some (v, drop (length t) s) else None)"

definition parse_value :: "string \<Rightarrow> (jval \<times> string) option" where
  "parse_value s =
     (case s of
        [] \<Rightarrow> None
      | c # cs \<Rightarrow>
          if c = jquote then map_option (map_prod JText id) (parse_chars cs)
          else if c = CHR ''-'' then map_option (map_prod (\<lambda>n. JInt (- int n)) id) (parse_nat cs)
          else if ascii_digit c then map_option (map_prod (\<lambda>n. JInt (int n)) id) (parse_nat s)
          else if c = CHR ''t'' then parse_lit ''true'' (JBool True) s
          else if c = CHR ''f'' then parse_lit ''false'' (JBool False) s
          else parse_lit ''null'' JNull s)"

definition parse_member :: "string \<Rightarrow> ((string \<times> jval) \<times> string) option" where
  "parse_member s =
     (case parse_string s of
        None \<Rightarrow> None
      | Some (k, r) \<Rightarrow>
          (case skip_ws r of
             [] \<Rightarrow> None
           | c # r1 \<Rightarrow>
               if c = CHR '':''
               then map_option (\<lambda>(v, r2). ((k, v), r2)) (parse_value (skip_ws r1))
               else None))"

lemma parse_chars_shorter: "parse_chars s = Some (t, r) \<Longrightarrow> length r < length s"
proof (induction s arbitrary: t r rule: parse_chars.induct)
  case (2 c cs)
  then show ?case
    by (auto simp: cons_fst_def split: if_splits list.splits option.splits) fastforce+
qed simp

lemma length_dropWhile_le: "length (dropWhile P xs) \<le> length xs"
  by (induction xs) auto

lemma parse_nat_shorter: "parse_nat s = Some (n, r) \<Longrightarrow> length r < length s"
  by (cases s) (auto simp: parse_nat_def Let_def le_imp_less_Suc length_dropWhile_le split: if_splits)

lemma parse_lit_shorter: "parse_lit t v s = Some (x, r) \<Longrightarrow> t \<noteq> [] \<Longrightarrow> length r < length s"
  by (cases s) (auto simp: parse_lit_def split: if_splits)

lemma parse_value_shorter: "parse_value s = Some (v, r) \<Longrightarrow> length r < length s"
  by (cases s) (auto simp: parse_value_def split: if_splits
      dest: parse_chars_shorter parse_nat_shorter parse_lit_shorter)

lemma parse_member_shorter:
  assumes "parse_member s = Some (kv, r)" shows "length r < length s"
proof -
  from assms obtain k r0 c r1 v where "parse_string s = Some (k, r0)" and ws: "skip_ws r0 = c # r1"
    and v: "parse_value (skip_ws r1) = Some (v, r)"
    by (auto simp: parse_member_def split: option.splits list.splits if_splits)
  then have "length r0 < length s"
    by (cases s) (auto simp: parse_string_def split: if_splits dest: parse_chars_shorter)
  moreover have "length (c # r1) \<le> length r0" using ws length_dropWhile_le [of json_ws r0] by simp
  ultimately show ?thesis
    using parse_value_shorter [OF v] length_dropWhile_le [of json_ws r1] by simp
qed

function parse_members :: "string \<Rightarrow> (jobject \<times> string) option" where
  "parse_members s =
     (case parse_member s of
        None \<Rightarrow> None
      | Some (kv, r) \<Rightarrow>
          (case skip_ws r of
             [] \<Rightarrow> None
           | c # r1 \<Rightarrow>
               if c = CHR ''}'' then Some ([kv], r1)
               else if c = CHR '','' then cons_fst kv (parse_members (skip_ws r1))
               else None))"
  by pat_completeness auto
termination
proof (relation "measure length", goal_cases)
  case (2 s p kv r c r1)
  have "length r < length s" using 2(1,2) parse_member_shorter [of s kv r] by simp
  moreover have "length (c # r1) \<le> length r" using 2(3) length_dropWhile_le [of json_ws r] by simp
  moreover have "length (skip_ws r1) \<le> length r1" by (rule length_dropWhile_le)
  ultimately show ?case by simp
qed simp

declare parse_members.simps [simp del]

definition json_loads :: "string \<Rightarrow> jobject option" where
  "json_loads s =
     (case skip_ws s of
        [] \<Rightarrow> None
      | c # r \<Rightarrow>
          if c \<noteq> CHR ''{'' then None
          else (case (case skip_ws r of
                        [] \<Rightarrow> None
                      | c1 # r1 \<Rightarrow> if c1 = CHR ''}'' then Some ([], r1) else parse_members (c1 # r1)) of
                  None \<Rightarrow> None
                | Some (kvs, rest) \<Rightarrow> if skip_ws rest = [] then Some kvs else None))"

text \<open>\<open>body[key]\<close> of the dictionary \<open>json.loads\<close> builds: the last of equal keys.\<close>

definition jget :: "jobject \<Rightarrow> string \<Rightarrow> jval option" where
  "jget kvs k = map_of (rev kvs) k"

subsection \<open>What is rendered is read back\<close>

lemma hex_value_digit: "n < 16 \<Longrightarrow> hex_value (hex_digit n) = Some n"
  by (simp add: hex_value_def hex_digit_def Let_def)

lemma parse_json_char: "parse_chars (json_char c @ s) = cons_fst c (parse_chars s)"
proof -
  let ?n = "of_char c :: nat"
  have lit: "c = d \<longleftrightarrow> ?n = of_char d" for d by (simp add: of_char_eq_iff)
  have lt: "?n < 256" by simp
  consider "c = jquote" | "c = jback" | "c = CHR 0x08" | "c = CHR 0x0C" | "c = CHR 0x0A" | "c = CHR 0x0D" | "c = CHR 0x09"
    | "?n \<notin> {34, 92, 8, 12, 10, 13, 9}" "?n < 32 \<or> 126 < ?n"
    | "?n \<notin> {34, 92, 8, 12, 10, 13, 9}" "32 \<le> ?n" "?n \<le> 126" unfolding lit by force
  then show ?thesis
  proof cases
    case 8
    have z: "hex_value (CHR ''0'') = Some 0" by code_simp
    have "?n div 16 < 16" using lt by (simp add: less_mult_imp_div_less)
    then have "hex_value (hex_digit (?n div 16)) = Some (?n div 16)"
      "hex_value (hex_digit (?n mod 16)) = Some (?n mod 16)" by (simp_all only: hex_value_digit)
    then have "hex4 (CHR ''0'') (CHR ''0'') (hex_digit (?n div 16)) (hex_digit (?n mod 16)) = Some c"
      unfolding hex4_def z by (simp only: prod.case option.case Let_def) simp
    then show ?thesis using 8 by (simp add: json_char_def Let_def)
  next
    case 9
    then have "c \<noteq> jquote" "c \<noteq> jback" by auto
    with 9 show ?thesis by (simp add: json_char_def Let_def)
  qed (simp add: json_char_def unescape_def)+
qed

lemma parse_chars_render: "parse_chars (concat (map json_char t) @ jquote # s) = Some (t, s)"
proof (induction t)
  case (Cons c t)
  then show ?case by (simp add: parse_json_char cons_fst_def)
qed simp

lemma digits_val_snoc: "digits_val (ds @ [c]) = 10 * digits_val ds + (of_char c - 48)"
  by (simp add: digits_val_def)

lemma digits_val_nat_str: "digits_val (nat_str n) = n"
proof (induction n rule: nat_str.induct)
  case (1 n)
  have d: "of_char (digit_char k) - 48 = k" if "k < 10" for k :: nat
    using that by (simp add: digit_char_def)
  show ?case
  proof (cases "n < 10")
    case True
    then show ?thesis by (simp add: nat_str.simps [of n] digits_val_def d)
  next
    case False
    with 1 show ?thesis by (simp add: nat_str.simps [of n] digits_val_snoc d)
  qed
qed

lemma digit_char_zero: "digit_char 0 = CHR ''0''"
  by code_simp

lemma nat_str_hd_zero: "hd (nat_str n) = CHR ''0'' \<Longrightarrow> length (nat_str n) = 1"
proof (induction n rule: nat_str.induct)
  case (1 n)
  show ?case
  proof (cases "n < 10")
    case True
    then show ?thesis by (simp add: nat_str.simps [of n])
  next
    case False
    with 1 have "hd (nat_str (n div 10)) = CHR ''0''" by (simp add: nat_str.simps [of n] hd_append)
    with 1 False have "length (nat_str (n div 10)) = 1" by blast
    then have "n div 10 < 10" by (subst (asm) nat_str.simps) (auto split: if_splits)
    then have "n div 10 = 0"
      using \<open>hd (nat_str (n div 10)) = CHR ''0''\<close> digit_char_inj [of "n div 10" 0]
        \<open>n div 10 < 10\<close> digit_char_zero by (subst (asm) nat_str.simps) simp
    with False show ?thesis by simp
  qed
qed

text \<open>A rest that cannot continue a number.\<close>

definition ends_number :: "string \<Rightarrow> bool" where
  "ends_number s \<longleftrightarrow> s = [] \<or> \<not> ascii_digit (hd s) \<and> hd s \<notin> set ''.eE''"

lemma parse_nat_str: "ends_number s \<Longrightarrow> parse_nat (nat_str n @ s) = Some (n, s)"
proof -
  assume e: "ends_number s"
  have ds: "\<And>c. c \<in> set (nat_str n) \<Longrightarrow> ascii_digit c" by (rule nat_str_digits)
  have tw: "takeWhile ascii_digit (nat_str n @ s) = nat_str n" "dropWhile ascii_digit (nat_str n @ s) = s"
    using ds e by (auto simp: takeWhile_append dropWhile_append ends_number_def takeWhile_eq_Nil_iff dropWhile_hd_id)
  show ?thesis
    using e nat_str_hd_zero [of n] by (auto simp: parse_nat_def tw Let_def digits_val_nat_str ends_number_def)
qed

lemma parse_value_render: "ends_number s \<Longrightarrow> parse_value (json_val v @ s) = Some (v, s)"
proof (induction v)
  case (JInt i)
  obtain c cs where n: "nat_str (nat \<bar>i\<bar>) = c # cs" by (cases "nat_str (nat \<bar>i\<bar>)") auto
  then have d: "ascii_digit c" using nat_str_digits [of c "nat \<bar>i\<bar>"] by simp
  then have "c \<noteq> jquote" "c \<noteq> CHR ''-''" by (auto simp: ascii_digit_def Let_def)
  with d n parse_nat_str [OF JInt, of "nat \<bar>i\<bar>"] show ?case
    by (cases "i < 0") (auto simp: parse_value_def int_str_def)
qed (auto simp: parse_value_def parse_lit_def json_str_def parse_chars_render ascii_digit_def Let_def)

definition good_seps :: "string \<Rightarrow> string \<Rightarrow> bool" where
  "good_seps isep ksep \<longleftrightarrow>
     (\<exists>u v. isep = CHR '','' # u \<and> ksep = CHR '':'' # v \<and> list_all json_ws u \<and> list_all json_ws v)"

lemma skip_ws_append: "list_all json_ws u \<Longrightarrow> skip_ws (u @ s) = skip_ws s"
  by (induction u) auto

lemma json_val_no_ws: "\<exists>c cs. json_val v = c # cs \<and> \<not> json_ws c"
proof (cases v)
  case (JInt i)
  obtain c cs where n: "nat_str (nat \<bar>i\<bar>) = c # cs" by (cases "nat_str (nat \<bar>i\<bar>)") auto
  then have "ascii_digit c" using nat_str_digits [of c "nat \<bar>i\<bar>"] by simp
  then have "\<not> json_ws c" by (auto simp: ascii_digit_def json_ws_def Let_def)
  with n JInt show ?thesis by (auto simp: int_str_def json_ws_def)
qed (auto simp: json_str_def json_ws_def)

lemma parse_member_render:
  assumes "ksep = CHR '':'' # v" "list_all json_ws v" "ends_number s"
  shows "parse_member (json_str k @ ksep @ json_val x @ s) = Some ((k, x), s)"
proof -
  obtain c cs where x: "json_val x = c # cs" "\<not> json_ws c" using json_val_no_ws by blast
  then have "skip_ws (v @ json_val x @ s) = json_val x @ s"
    using assms(2) by (simp add: skip_ws_append)
  with parse_value_render [OF assms(3), of x] assms(1) show ?thesis
    by (simp add: parse_member_def parse_string_def json_str_def parse_chars_render json_ws_def)
qed

lemma parse_members_render:
  assumes "good_seps isep ksep" and "kvs \<noteq> []"
  shows "parse_members (join_with isep (map (\<lambda>(k, x). json_str k @ ksep @ json_val x) kvs) @ CHR ''}'' # s) = Some (kvs, s)"
  using assms(2)
proof (induction kvs)
  case (Cons kv kvs)
  obtain k x where kv: "kv = (k, x)" by force
  obtain u v where uv: "isep = CHR '','' # u" "ksep = CHR '':'' # v" "list_all json_ws u" "list_all json_ws v"
    using assms(1) by (auto simp: good_seps_def)
  let ?r = "\<lambda>(k, x). json_str k @ ksep @ json_val x"
  show ?case
  proof (cases kvs)
    case Nil
    have "ends_number (CHR ''}'' # s)" by (simp add: ends_number_def ascii_digit_def)
    from parse_member_render [OF uv(2,4) this, of k x] show ?thesis
      by (subst parse_members.simps) (simp add: kv Nil json_ws_def)
  next
    case (Cons b bs)
    let ?t = "join_with isep (map ?r kvs) @ CHR ''}'' # s"
    have "ends_number (isep @ ?t)" by (simp add: ends_number_def uv ascii_digit_def)
    note m = parse_member_render [OF uv(2,4) this, of k x]
    have "\<exists>t. join_with isep (map ?r kvs) = jquote # t"
      unfolding Cons by (cases bs) (auto simp: json_str_def split: prod.splits)
    then have "skip_ws (u @ ?t) = ?t" using uv(3) by (auto simp: skip_ws_append json_ws_def)
    with m Cons.IH [unfolded Cons] Cons show ?thesis
      by (subst parse_members.simps) (simp add: kv uv(1) json_ws_def cons_fst_def)
  qed
qed simp

lemma json_round_trip:
  assumes "good_seps isep ksep"
  shows "json_loads (json_dumps isep ksep kvs) = Some kvs"
proof (cases "kvs = []")
  case True
  then show ?thesis by (simp add: json_loads_def json_dumps_def json_ws_def)
next
  case False
  let ?b = "join_with isep (map (\<lambda>(k, x). json_str k @ ksep @ json_val x) kvs)"
  have "\<exists>t. ?b = jquote # t"
    using False by (cases kvs; cases "tl kvs") (auto simp: json_str_def split: prod.splits)
  then obtain t where t: "?b = jquote # t" by blast
  with parse_members_render [OF assms False, of "[]"] show ?thesis
    by (simp add: json_loads_def json_dumps_def json_ws_def)
qed

lemma good_seps_default: "good_seps '', '' '': ''" and good_seps_compact: "good_seps '','' '':''"
  by (auto simp: good_seps_def json_ws_def)

end
