(* ===== verification/Journal.thy ===== *)
theory Journal
  imports Filesys Json
begin

section \<open>The ingest operation journal (\<open>domain/journal.py\<close>)\<close>

text \<open>
  The journal file is the list of its lines, each with what \<open>json.loads\<close> makes of it and its
  length in bytes; a second such list is the rotated file.  \<open>append\<close> renders its payload as the
  source does (compact separators, sorted keys, ASCII escapes) so that the byte count the rotation
  looks at is the real one.  Reading follows \<open>read_all\<close>, with the line that is valid JSON but no
  object kept apart: there \<open>raw.get\<close> raises.
\<close>

datatype journal_line = Blank | NotJson | NonObject | Entry jobject

record journal_record =
  j_op_id :: string
  j_phase :: string
  j_ts :: string
  j_account :: string
  j_onedrive_id :: string
  j_staging_path :: string
  j_destination_path :: "string option"
  j_sha256 :: "string option"

record journal_files =
  j_active :: "(journal_line \<times> nat) list option"
  j_rotated :: "(journal_line \<times> nat) list option"

subsection \<open>Rendering one entry\<close>

definition payload_of :: "journal_record \<Rightarrow> jobject" where
  "payload_of r =
     [(''account'', JText (j_account r)), (''destination_path'', json_opt (j_destination_path r)),
      (''onedrive_id'', JText (j_onedrive_id r)), (''op_id'', JText (j_op_id r)),
      (''phase'', JText (j_phase r)), (''sha256'', json_opt (j_sha256 r)),
      (''staging_path'', JText (j_staging_path r)), (''ts'', JText (j_ts r))]"

subsection \<open>Operations\<close>

definition journal_size :: "(journal_line \<times> nat) list \<Rightarrow> nat" where
  "journal_size ls = sum_list (map snd ls)"

definition rotate_if_needed :: "int \<Rightarrow> journal_files \<Rightarrow> journal_files" where
  "rotate_if_needed max_bytes j =
     (case j_active j of
        None \<Rightarrow> j
      | Some ls \<Rightarrow> if int (journal_size ls) < max_bytes then j
                   else j\<lparr>j_active := None, j_rotated := Some ls\<rparr>)"

definition journal_append :: "int \<Rightarrow> journal_record \<Rightarrow> journal_files \<Rightarrow> journal_files" where
  "journal_append max_bytes r j =
     (let j' = rotate_if_needed max_bytes j;
          line = (Entry (payload_of r), Suc (length (json_dumps '','' '':'' (payload_of r))))
      in j'\<lparr>j_active := Some ((case j_active j' of None \<Rightarrow> [] | Some ls \<Rightarrow> ls) @ [line])\<rparr>)"

fun py_str :: "jval \<Rightarrow> string" where
  "py_str JNull = ''None''"
| "py_str (JBool b) = (if b then ''True'' else ''False'')"
| "py_str (JInt i) = int_str i"
| "py_str (JText s) = s"

definition raw_str :: "jobject \<Rightarrow> string \<Rightarrow> string" where
  "raw_str raw k = (case jget raw k of None \<Rightarrow> [] | Some v \<Rightarrow> py_str v)"

definition raw_opt :: "jobject \<Rightarrow> string \<Rightarrow> string option" where
  "raw_opt raw k = (case jget raw k of None \<Rightarrow> None | Some v \<Rightarrow> if v = JNull then None else Some (py_str v))"

definition parse_entry :: "jobject \<Rightarrow> journal_record option" where
  "parse_entry raw =
     (let op = py_strip (raw_str raw ''op_id''); ph = py_strip (raw_str raw ''phase'') in
      if op = [] \<or> ph = [] then None
      else Some \<lparr>j_op_id = op, j_phase = ph, j_ts = raw_str raw ''ts'',
        j_account = raw_str raw ''account'', j_onedrive_id = raw_str raw ''onedrive_id'',
        j_staging_path = raw_str raw ''staging_path'',
        j_destination_path = raw_opt raw ''destination_path'',
        j_sha256 = raw_opt raw ''sha256''\<rparr>)"

fun read_lines :: "journal_line list \<Rightarrow> journal_record list res" where
  "read_lines [] = Inr []"
| "read_lines (Blank # ls) = read_lines ls"
| "read_lines (NotJson # ls) = read_lines ls"
| "read_lines (NonObject # ls) = Inl (AttributeError ''object has no attribute get'')"
| "read_lines (Entry raw # ls) =
     (case parse_entry raw of
        None \<Rightarrow> read_lines ls
      | Some r \<Rightarrow> (case read_lines ls of Inl e \<Rightarrow> Inl e | Inr rs \<Rightarrow> Inr (r # rs)))"

definition read_all :: "journal_files \<Rightarrow> journal_record list res" where
  "read_all j = (case j_active j of None \<Rightarrow> Inr [] | Some ls \<Rightarrow> read_lines (map fst ls))"

definition journal_clear :: "journal_files \<Rightarrow> journal_files" where
  "journal_clear j = j\<lparr>j_active := None\<rparr>"

subsection \<open>What is read back\<close>

definition clean_record :: "journal_record \<Rightarrow> bool" where
  "clean_record r \<longleftrightarrow> j_op_id r \<noteq> [] \<and> py_strip (j_op_id r) = j_op_id r \<and>
     j_phase r \<noteq> [] \<and> py_strip (j_phase r) = j_phase r"

lemma parse_payload:
  assumes "clean_record r" shows "parse_entry (payload_of r) = Some r"
  using assms
  by (cases r) (auto simp: parse_entry_def payload_of_def raw_str_def raw_opt_def json_opt_def jget_def
      clean_record_def Let_def split: option.split)

lemma read_lines_append:
  "read_lines (xs @ ys) =
     (case read_lines xs of Inl e \<Rightarrow> Inl e
      | Inr rs \<Rightarrow> (case read_lines ys of Inl e \<Rightarrow> Inl e | Inr rs' \<Rightarrow> Inr (rs @ rs')))"
  by (induction xs rule: read_lines.induct) (auto split: option.split sum.split)

definition no_rotation :: "int \<Rightarrow> journal_files \<Rightarrow> bool" where
  "no_rotation max_bytes j \<longleftrightarrow>
     (case j_active j of None \<Rightarrow> True | Some ls \<Rightarrow> int (journal_size ls) < max_bytes)"

lemma read_append:
  assumes "clean_record r" and "read_all j = Inr rs"
  shows "read_all (journal_append max_bytes r j) = Inr (if no_rotation max_bytes j then rs @ [r] else [r])"
  using assms parse_payload [OF assms(1)]
  by (auto simp: read_all_def journal_append_def rotate_if_needed_def no_rotation_def Let_def
      read_lines_append split: option.splits)


definition demo_record :: journal_record where
  "demo_record = \<lparr>j_op_id = ''a:1:x'', j_phase = ''ingest_started'', j_ts = ''t'', j_account = ''a'',
     j_onedrive_id = ''1'', j_staging_path = ''/s/1'', j_destination_path = None, j_sha256 = None\<rparr>"

lemma demo_record_clean: "clean_record demo_record"
  by code_simp


lemma read_lines_ok: "(\<exists>rs. read_lines ls = Inr rs) \<longleftrightarrow> NonObject \<notin> set ls"
  by (induction ls rule: read_lines.induct) (auto split: option.split sum.split sum.splits)

text \<open>
  Reading the journal succeeds exactly when no line is JSON without being an object.  Blank
  and undecodable lines, such as the tail of a torn write, are skipped, but one line holding, say,
  a number makes every replay raise.
\<close>

theorem journal_readable_iff:
  "(\<exists>rs. read_all j = Inr rs) \<longleftrightarrow>
     NonObject \<notin> set (map fst (case j_active j of None \<Rightarrow> [] | Some ls \<Rightarrow> ls))"
  by (simp add: read_all_def read_lines_ok split: option.split)

end
