(* ===== verification/World.thy ===== *)
theory World
  imports Registry_Spec Storage Journal
begin

section \<open>The state the flows share\<close>

text \<open>
  The flows (ingest, operator decisions) act on one \<open>world\<close>: the registry database, the file
  store, the journal files and a counter of the readings of the clock.  What they take from
  outside the sources is in \<open>env\<close>: the clock (microseconds, by reading), its ISO rendering and
  its year and month, \<open>uuid4().hex\<close> by reading, SHA-256, the transfer of a cross-device copy, the
  ISO readers (\<open>datetime.fromisoformat\<close>: year and month, or microseconds) and the two pattern
  matchers (\<open>fnmatch\<close>, and \<open>re.search\<close> with \<open>None\<close> for a pattern that does not compile).
\<close>

record env =
  clock :: "nat \<Rightarrow> int"
  iso :: "int \<Rightarrow> string"
  ym_of :: "int \<Rightarrow> nat \<times> nat"
  uuid_hex :: "nat \<Rightarrow> string"
  sha256 :: "string \<Rightarrow> string"
  xfer :: "string \<Rightarrow> string"
  from_iso :: "string \<Rightarrow> (nat \<times> nat) option"
  from_iso_us :: "string \<Rightarrow> int option"
  fn_match :: "string \<Rightarrow> string \<Rightarrow> bool"
  re_search :: "string \<Rightarrow> string \<Rightarrow> bool option"

record world =
  db :: registry_db
  fsys :: fs
  jfiles :: journal_files
  ticks :: nat

definition draw_time :: "env \<Rightarrow> world \<Rightarrow> int \<times> world" where
  "draw_time E w = (clock E (ticks w), w\<lparr>ticks := Suc (ticks w)\<rparr>)"

definition now_iso :: "env \<Rightarrow> world \<Rightarrow> string" where
  "now_iso E w = iso E (clock E (ticks w))"

text \<open>A registry method called at the next reading of the clock; a step of the file store.\<close>

definition reg_call ::
  "env \<Rightarrow> (string \<Rightarrow> registry_db \<Rightarrow> 'a res \<times> registry_db) \<Rightarrow> world \<Rightarrow> 'a res \<times> world" where
  "reg_call E m w =
     (case m (now_iso E w) (db w) of (r, d) \<Rightarrow> (r, w\<lparr>db := d, ticks := Suc (ticks w)\<rparr>))"

definition fs_call :: "(fs \<Rightarrow> 'a res \<times> fs) \<Rightarrow> world \<Rightarrow> 'a res \<times> world" where
  "fs_call m w = (case m (fsys w) of (r, f) \<Rightarrow> (r, w\<lparr>fsys := f\<rparr>))"

definition lift_res :: "'a res \<Rightarrow> world \<Rightarrow> 'a res \<times> world" where
  "lift_res r w = (r, w)"

lemma db_fs_call [simp]: "db (snd (fs_call m w)) = db w"
  by (simp add: fs_call_def split: prod.split)

lemma db_reg_call: "db (snd (reg_call E m w)) = snd (m (now_iso E w) (db w))"
  by (simp add: reg_call_def split: prod.split)

lemma fsys_reg_call [simp]: "fsys (snd (reg_call E m w)) = fsys w"
  by (simp add: reg_call_def split: prod.split)

lemma fsys_fs_call: "fsys (snd (fs_call m w)) = snd (m (fsys w))"
  by (simp add: fs_call_def split: prod.split)

lemma fst_fs_call: "fst (fs_call m w) = fst (m (fsys w))"
  by (simp add: fs_call_def split: prod.split)

lemma db_lift_res [simp]: "db (snd (lift_res r w)) = db w"
  by (simp add: lift_res_def)

subsection \<open>Frames of the world\<close>

text \<open>
  The frame relations of the registry, lifted to worlds, are preorders too; a step of the file
  store respects both, a registry method the ones it respects on the database.
\<close>

definition wdb_frame :: "world \<Rightarrow> world \<Rightarrow> bool" where
  "wdb_frame w w' \<longleftrightarrow> db_frame (db w) (db w')"

definition wingest_frame :: "world \<Rightarrow> world \<Rightarrow> bool" where
  "wingest_frame w w' \<longleftrightarrow> ingest_frame (db w) (db w')"

definition wf_kept :: "world \<Rightarrow> world \<Rightarrow> bool" where
  "wf_kept w w' \<longleftrightarrow> (wf_db (db w) \<longrightarrow> wf_db (db w'))"

interpretation wdf: step_frame wdb_frame
  using dbf.frame_refl dbf.frame_trans by unfold_locales (auto simp: wdb_frame_def)

interpretation wif: step_frame wingest_frame
  using inf.frame_refl inf.frame_trans by unfold_locales (auto simp: wingest_frame_def)

interpretation wfk: step_frame wf_kept
  by unfold_locales (auto simp: wf_kept_def)

text \<open>
  A frame a flow's proof needs is given by its restriction to databases: then a registry call
  respects it when its method does, and everything that leaves the database alone respects it.
\<close>

locale world_frame = step_frame R for R :: "world \<Rightarrow> world \<Rightarrow> bool" +
  fixes D :: "registry_db \<Rightarrow> registry_db \<Rightarrow> bool"
  assumes by_db: "R w w' \<longleftrightarrow> D (db w) (db w')"
begin

lemma db_refl: "D d d"
  using frame_refl [of "\<lparr>db = d, fsys = \<lparr>nodes = [], fs_cwd = [], fs_dev = (\<lambda>_. 0)\<rparr>,
      jfiles = \<lparr>j_active = None, j_rotated = None\<rparr>, ticks = 0\<rparr>"]
  by (simp add: by_db)

lemma frame_fs_call: "R w (snd (fs_call m w))"
  by (simp add: by_db db_refl)

lemma frame_lift_res: "R w (snd (lift_res r w))"
  by (simp add: by_db db_refl)

lemma frame_reg_call: "(\<And>now. D (db w) (snd (m now (db w)))) \<Longrightarrow> R w (snd (reg_call E m w))"
  by (simp add: by_db db_reg_call)

lemma frame_same_db: "db w' = db w \<Longrightarrow> R w w'"
  by (simp add: by_db db_refl)

lemma frame_pair: "R w w' \<Longrightarrow> R w (snd (r, w'))"
  by simp

lemma frame_after: "R w w' \<Longrightarrow> R w' w'' \<Longrightarrow> R w w''"
  by (rule frame_trans)

end

interpretation wd: world_frame wdb_frame db_frame
  by unfold_locales (simp add: wdb_frame_def)

interpretation wi: world_frame wingest_frame ingest_frame
  by unfold_locales (simp add: wingest_frame_def)

interpretation wk: world_frame wf_kept "\<lambda>d d'. wf_db d \<longrightarrow> wf_db d'"
  by unfold_locales (simp add: wf_kept_def)

text \<open>An environment to evaluate examples in.\<close>

definition plain_env :: env where
  "plain_env = \<lparr>clock = int, iso = int_str, ym_of = (\<lambda>_. (2024, 5)), uuid_hex = nat_str,
     sha256 = (\<lambda>s. s), xfer = (\<lambda>s. s), from_iso = (\<lambda>_. None), from_iso_us = (\<lambda>_. None),
     fn_match = (\<lambda>n p. n = p), re_search = (\<lambda>_ _. None)\<rparr>"

end
