(* ===== verification/Retry.thy ===== *)
theory Retry
  imports Complex_Main Py_Strings
begin

section \<open>Retry policy (\<open>adapters/onedrive/retry.py\<close>)\<close>

text \<open>
  A Python \<open>float\<close> is a rational, one of the infinities or not-a-number; comparisons are Python's,
  so \<open>max\<close> and \<open>min\<close> keep their first argument when the second does not compare.  Sums and products
  are exact where the machine rounds; the bounds below are about \<open>min\<close> and \<open>max\<close>, which do not
  round.  The readers of numbers and of HTTP dates (\<open>float\<close>, \<open>parsedate_to_datetime\<close> minus the
  clock) are arguments.
\<close>

datatype pyfloat = Fin rat | PInf | NInf | NaN

fun flt_less :: "pyfloat \<Rightarrow> pyfloat \<Rightarrow> bool" where
  "flt_less (Fin a) (Fin b) = (a < b)"
| "flt_less NInf (Fin b) = True"
| "flt_less NInf PInf = True"
| "flt_less (Fin a) PInf = True"
| "flt_less _ _ = False"

definition py_max :: "pyfloat \<Rightarrow> pyfloat \<Rightarrow> pyfloat" where
  "py_max a b = (if flt_less a b then b else a)"

definition py_min :: "pyfloat \<Rightarrow> pyfloat \<Rightarrow> pyfloat" where
  "py_min a b = (if flt_less b a then b else a)"

fun flt_add :: "pyfloat \<Rightarrow> pyfloat \<Rightarrow> pyfloat" where
  "flt_add (Fin a) (Fin b) = Fin (a + b)"
| "flt_add PInf (Fin b) = PInf"
| "flt_add PInf PInf = PInf"
| "flt_add (Fin a) PInf = PInf"
| "flt_add NInf (Fin b) = NInf"
| "flt_add NInf NInf = NInf"
| "flt_add (Fin a) NInf = NInf"
| "flt_add _ _ = NaN"

fun flt_scale :: "rat \<Rightarrow> pyfloat \<Rightarrow> pyfloat" where
  "flt_scale k (Fin a) = Fin (k * a)"
| "flt_scale k PInf = PInf"
| "flt_scale k NInf = NInf"
| "flt_scale k NaN = NaN"

subsection \<open>Policy\<close>

definition RETRYABLE_STATUS_CODES :: "int list" where
  "RETRYABLE_STATUS_CODES = [429, 500, 502, 503, 504]"

record retry_policy =
  max_attempts :: nat
  base_delay :: pyfloat
  max_delay :: pyfloat

definition DEFAULT_POLICY :: retry_policy where
  "DEFAULT_POLICY = \<lparr>max_attempts = 4, base_delay = Fin 1, max_delay = Fin 60\<rparr>"

definition classify_status :: "int \<Rightarrow> bool" where
  "classify_status status_code \<longleftrightarrow> status_code \<in> set RETRYABLE_STATUS_CODES"

definition parse_retry_after ::
  "(string \<Rightarrow> pyfloat option) \<Rightarrow> (string \<Rightarrow> pyfloat option) \<Rightarrow> string option \<Rightarrow> pyfloat option" where
  "parse_retry_after read_float seconds_until header_value =
     (case header_value of
        None \<Rightarrow> None
      | Some h \<Rightarrow>
          if py_strip h = [] then None
          else (case read_float (py_strip h) of
                  Some x \<Rightarrow> Some (py_max (Fin 0) x)
                | None \<Rightarrow> map_option (py_max (Fin 0)) (seconds_until (py_strip h))))"

text \<open>\<open>2 ** (attempt - 1)\<close>, which is a float below one for an attempt below one.\<close>

definition two_pow :: "int \<Rightarrow> rat" where
  "two_pow e = (if e \<ge> 0 then 2 ^ nat e else 1 / 2 ^ nat (- e))"

definition compute_delay :: "int \<Rightarrow> pyfloat option \<Rightarrow> retry_policy \<Rightarrow> pyfloat \<Rightarrow> pyfloat" where
  "compute_delay attempt retry_after policy jitter =
     (case retry_after of
        Some r \<Rightarrow> py_min r (max_delay policy)
      | None \<Rightarrow> py_min (flt_add (flt_scale (two_pow (attempt - 1)) (base_delay policy)) jitter) (max_delay policy))"

subsection \<open>Bounds\<close>

lemma two_pow_pos: "0 < two_pow e"
  by (simp add: two_pow_def)

lemma two_pow_mono: "d \<le> e \<Longrightarrow> two_pow d \<le> two_pow e"
proof -
  assume "d \<le> e"
  have inv: "1 / 2 ^ n \<le> (1 :: rat)" for n :: nat by simp
  consider "0 \<le> d" "0 \<le> e" | "d < 0" "0 \<le> e" | "d < 0" "e < 0" using \<open>d \<le> e\<close> by linarith
  then show ?thesis
  proof cases
    case 1
    then show ?thesis using \<open>d \<le> e\<close> by (simp add: two_pow_def)
  next
    case 2
    then have "two_pow d \<le> 1" "1 \<le> two_pow e" using inv by (simp_all add: two_pow_def)
    then show ?thesis by linarith
  next
    case 3
    then show ?thesis using \<open>d \<le> e\<close> by (simp add: two_pow_def frac_le)
  qed
qed

lemma py_max_zero: "\<exists>r. 0 \<le> r \<and> (py_max (Fin 0) x = Fin r \<or> py_max (Fin 0) x = PInf)"
  by (cases x) (auto simp: py_max_def)

lemma py_min_cap:
  assumes "0 \<le> r" "x = Fin r \<or> x = PInf" "0 \<le> m"
  shows "\<exists>d. py_min x (Fin m) = Fin d \<and> 0 \<le> d \<and> d \<le> m"
  using assms by (auto simp: py_min_def)

lemma pause_bounded:
  assumes "max_delay policy = Fin m" and "base_delay policy = Fin b" and "0 \<le> m" and "0 \<le> b" and "0 \<le> j"
  shows "\<exists>d. compute_delay attempt (parse_retry_after read_float seconds_until header) policy (Fin j) = Fin d \<and> 0 \<le> d \<and> d \<le> m"
proof (cases "parse_retry_after read_float seconds_until header")
  case None
  have "0 \<le> two_pow (attempt - 1) * b + j" using two_pow_pos [of "attempt - 1"] assms(4,5) by simp
  with None assms(1,2,3) py_min_cap show ?thesis by (simp add: compute_delay_def)
next
  case (Some x)
  then obtain y where "x = py_max (Fin 0) y"
    by (auto simp: parse_retry_after_def split: option.splits if_splits)
  with py_max_zero [of y] obtain r where "0 \<le> r" "x = Fin r \<or> x = PInf" by auto
  with Some assms(1,3) py_min_cap show ?thesis by (simp add: compute_delay_def)
qed

text \<open>
  Whatever the \<open>Retry-After\<close> header says (nothing, garbage, an infinite, negative or
  not-a-number value, a date in the past) and whatever the attempt, the pause before the next
  attempt is a finite number of seconds between zero and the policy's cap; without a usable header it
  does not decrease from one attempt to the next.
\<close>

theorem retry_pause_is_capped:
  assumes "max_delay policy = Fin m" and "base_delay policy = Fin b" and "0 \<le> m" and "0 \<le> b" and "0 \<le> j"
  shows "(\<exists>d. compute_delay attempt (parse_retry_after read_float seconds_until header) policy (Fin j) = Fin d \<and>
      0 \<le> d \<and> d \<le> m) \<and>
    (attempt \<le> later \<longrightarrow> \<not> flt_less (compute_delay later None policy (Fin j)) (compute_delay attempt None policy (Fin j)))"
proof
  let ?h = "parse_retry_after read_float seconds_until header"
  show "\<exists>d. compute_delay attempt ?h policy (Fin j) = Fin d \<and> 0 \<le> d \<and> d \<le> m"
    by (rule pause_bounded [OF assms])
  show "attempt \<le> later \<longrightarrow> \<not> flt_less (compute_delay later None policy (Fin j)) (compute_delay attempt None policy (Fin j))"
  proof
    assume "attempt \<le> later"
    then have "two_pow (attempt - 1) * b \<le> two_pow (later - 1) * b"
      using assms(4) by (intro mult_right_mono two_pow_mono) simp_all
    then show "\<not> flt_less (compute_delay later None policy (Fin j)) (compute_delay attempt None policy (Fin j))"
      using assms(1,2) by (simp add: compute_delay_def py_min_def)
  qed
qed

theorem retry_pause_is_capped_witness:
  "\<exists>d. compute_delay 2 (parse_retry_after (\<lambda>_. Some NaN) (\<lambda>_. None) (Some ''nan'')) DEFAULT_POLICY (Fin 0) = Fin d \<and>
     0 \<le> d \<and> d \<le> 60"
  using retry_pause_is_capped [of DEFAULT_POLICY 60 1 0 2 "\<lambda>_. Some NaN" "\<lambda>_. None" "Some ''nan''"]
  by (simp add: DEFAULT_POLICY_def)

end
