(* ===== verification/Delta.thy ===== *)
theory Delta
  imports World Retry "HOL-Library.Multiset"
begin

section \<open>Delta pages (\<open>adapters/onedrive/client.py\<close>)\<close>

text \<open>
  From the JSON of a Graph delta page to the download candidates: the reducer that keeps the last
  event per item, the counters of what was odd, and the drift evaluation.  A JSON value is a
  \<open>gval\<close>; a non-integral number carries its truncation and its text.  Python's \<open>str\<close> of a list or
  an object and \<open>int\<close> of a text are the arguments \<open>py_repr\<close> and \<open>py_int\<close>.  Items without a
  modification time get one reading of the clock per page.
\<close>

datatype gval = GNull | GBool bool | GInt int | GFloat int string | GStr string
  | GList "gval list" | GObj "(string \<times> gval) list"

type_synonym gobject = "(string \<times> gval) list"

record py_conv =
  py_repr :: "gval \<Rightarrow> string"
  py_int :: "string \<Rightarrow> int option"

definition gget :: "gobject \<Rightarrow> string \<Rightarrow> gval" where
  "gget ob k = (case map_of (rev ob) k of None \<Rightarrow> GNull | Some v \<Rightarrow> v)"

definition ghas :: "gobject \<Rightarrow> string \<Rightarrow> bool" where
  "ghas ob k \<longleftrightarrow> k \<in> set (map fst ob)"

fun as_str :: "py_conv \<Rightarrow> gval \<Rightarrow> string option" where
  "as_str V GNull = None"
| "as_str V (GStr s) = Some s"
| "as_str V (GBool b) = Some (if b then ''True'' else ''False'')"
| "as_str V (GInt i) = Some (int_str i)"
| "as_str V (GFloat i s) = Some s"
| "as_str V v = Some (py_repr V v)"

text \<open>A text that is present and not empty.\<close>

definition nonempty_str :: "py_conv \<Rightarrow> gval \<Rightarrow> string option" where
  "nonempty_str V v = (case as_str V v of None \<Rightarrow> None | Some s \<Rightarrow> if s = [] then None else Some s)"

fun as_int :: "py_conv \<Rightarrow> gval \<Rightarrow> int option" where
  "as_int V (GInt i) = Some i"
| "as_int V (GBool b) = Some (if b then 1 else 0)"
| "as_int V (GFloat i s) = Some i"
| "as_int V (GStr s) = py_int V s"
| "as_int V _ = None"

subsection \<open>Counters\<close>

type_synonym counts = "(string \<times> int) list"

definition count_of :: "counts \<Rightarrow> string \<Rightarrow> int" where
  "count_of m k = (case map_of m k of None \<Rightarrow> 0 | Some n \<Rightarrow> n)"

definition record_ghost_reason :: "string \<Rightarrow> int \<Rightarrow> counts \<Rightarrow> counts" where
  "record_ghost_reason reason n m = AList.update reason (count_of m reason + n) m"

definition count_total :: "counts \<Rightarrow> int" where
  "count_total m = sum_list (map snd m)"

subsection \<open>Candidates\<close>

record remote_candidate =
  rc_account_name :: string
  rc_item_id :: string
  rc_name :: string
  rc_relative_path :: string
  rc_size_bytes :: "int option"
  rc_raw_modified_time :: "string option"
  rc_modified_time :: string
  rc_download_url :: "string option"

text \<open>The text after the first occurrence of a marker, when there is one.\<close>

fun after_first :: "string \<Rightarrow> string \<Rightarrow> string option" where
  "after_first m [] = (if m = [] then Some [] else None)"
| "after_first m (c # cs) = (if prefix m (c # cs) then Some (drop (length m) (c # cs)) else after_first m cs)"

definition extract_relative_path :: "py_conv \<Rightarrow> gobject \<Rightarrow> string" where
  "extract_relative_path V raw =
     (case gget raw ''parentReference'' of
        GObj p \<Rightarrow>
          (let raw_path = (case as_str V (gget p ''path'') of None \<Rightarrow> [] | Some s \<Rightarrow> s) in
           case after_first ''/root:'' raw_path of
             None \<Rightarrow>
               (let n = py_strip raw_path in if n = [] then [] else if prefix ''/'' n then n else ''/'' @ n)
           | Some rest \<Rightarrow>
               (let rel = strip_by (\<lambda>c. c = CHR ''/'') rest in if rel = [] then [] else ''/'' @ rel))
      | _ \<Rightarrow> [])"

definition build_candidate_from_payload ::
  "py_conv \<Rightarrow> string \<Rightarrow> string \<Rightarrow> gobject \<Rightarrow> remote_candidate option" where
  "build_candidate_from_payload V now account_name raw =
     (case (nonempty_str V (gget raw ''id''), nonempty_str V (gget raw ''name'')) of
        (Some item_id, Some name) \<Rightarrow>
          (let mk = (\<lambda>sz. Some \<lparr>rc_account_name = account_name, rc_item_id = item_id, rc_name = name,
                 rc_relative_path = extract_relative_path V raw, rc_size_bytes = sz,
                 rc_raw_modified_time = as_str V (gget raw ''lastModifiedDateTime''),
                 rc_modified_time = (case nonempty_str V (gget raw ''lastModifiedDateTime'') of
                     Some t \<Rightarrow> t | None \<Rightarrow> now),
                 rc_download_url = as_str V (gget raw ''@microsoft.graph.downloadUrl'')\<rparr>)
           in if gget raw ''size'' = GNull then mk None
              else (case as_int V (gget raw ''size'') of
                      None \<Rightarrow> None
                    | Some n \<Rightarrow> if n < 0 then None else mk (Some n)))
      | _ \<Rightarrow> None)"

definition classify_invalid_candidate_reason :: "py_conv \<Rightarrow> gobject \<Rightarrow> string" where
  "classify_invalid_candidate_reason V raw =
     (if nonempty_str V (gget raw ''id'') = None then ''delta_item_missing_id''
      else if nonempty_str V (gget raw ''name'') = None then ''delta_file_missing_name''
      else if gget raw ''size'' = GNull then ''delta_file_missing_size''
      else (case as_int V (gget raw ''size'') of
              None \<Rightarrow> ''delta_file_invalid_size''
            | Some n \<Rightarrow> if n < 0 then ''delta_file_invalid_size'' else ''delta_file_invalid_payload''))"

subsection \<open>The reducer\<close>

record reducer_entry =
  re_sequence :: nat
  re_candidate :: "remote_candidate option"

record reducer =
  rd_entries :: "(string \<times> reducer_entry) list"
  rd_sequence :: nat
  rd_counts :: counts

definition page_items :: "gobject \<Rightarrow> gval list" where
  "page_items payload = (case gget payload ''value'' of GList xs \<Rightarrow> xs | _ \<Rightarrow> [])"

definition reduce_item :: "py_conv \<Rightarrow> string \<Rightarrow> string \<Rightarrow> gval \<Rightarrow> reducer \<Rightarrow> reducer" where
  "reduce_item V now account_name item rd =
     (case item of
        GObj raw \<Rightarrow>
          (case nonempty_str V (gget raw ''id'') of
             None \<Rightarrow> rd\<lparr>rd_counts := record_ghost_reason ''delta_item_missing_id'' 1 (rd_counts rd)\<rparr>
           | Some item_id \<Rightarrow>
               (let sq = Suc (rd_sequence rd);
                    m1 = (if item_id \<in> set (map fst (rd_entries rd))
                          then record_ghost_reason ''delta_reducer_event_overwrite'' 1 (rd_counts rd) else rd_counts rd);
                    rd1 = rd\<lparr>rd_sequence := sq, rd_counts := m1\<rparr>
                in if ghas raw ''deleted''
                   then rd1\<lparr>rd_entries := AList.update item_id \<lparr>re_sequence = sq, re_candidate = None\<rparr> (rd_entries rd),
                            rd_counts := record_ghost_reason ''delta_reducer_tombstone_event'' 1 m1\<rparr>
                   else if \<not> ghas raw ''file'' then rd1
                   else (case build_candidate_from_payload V now account_name raw of
                           None \<Rightarrow> rd1\<lparr>rd_counts := record_ghost_reason (classify_invalid_candidate_reason V raw) 1 m1\<rparr>
                         | Some c \<Rightarrow> rd1\<lparr>rd_entries := AList.update item_id
                             \<lparr>re_sequence = sq, re_candidate = Some c\<rparr> (rd_entries rd)\<rparr>)))
      | _ \<Rightarrow> rd)"

definition apply_delta_page_to_reducer :: "py_conv \<Rightarrow> string \<Rightarrow> string \<Rightarrow> gobject \<Rightarrow> reducer \<Rightarrow> reducer" where
  "apply_delta_page_to_reducer V now account_name payload rd =
     fold (reduce_item V now account_name) (page_items payload) rd"

definition materialize_reduced_candidates :: "(string \<times> reducer_entry) list \<Rightarrow> remote_candidate list" where
  "materialize_reduced_candidates entries =
     List.map_filter re_candidate (sort_key re_sequence (map snd entries))"

definition empty_reducer :: reducer where
  "empty_reducer = \<lparr>rd_entries = [], rd_sequence = 0, rd_counts = []\<rparr>"

definition reduce_delta_page_candidates :: "py_conv \<Rightarrow> string \<Rightarrow> string \<Rightarrow> gobject \<Rightarrow> remote_candidate list" where
  "reduce_delta_page_candidates V now account_name payload =
     materialize_reduced_candidates
       (rd_entries (apply_delta_page_to_reducer V now account_name payload empty_reducer))"

definition parse_delta_items :: "py_conv \<Rightarrow> string \<Rightarrow> string \<Rightarrow> gobject \<Rightarrow> remote_candidate list" where
  "parse_delta_items V now account_name payload =
     List.map_filter (\<lambda>item. case item of
         GObj raw \<Rightarrow> if ghas raw ''deleted'' \<or> \<not> ghas raw ''file'' then None
                     else build_candidate_from_payload V now account_name raw
       | _ \<Rightarrow> None) (page_items payload)"

text \<open>The detector of replayed ids: the number of repeats and the ids seen so far.\<close>

fun count_replayed :: "py_conv \<Rightarrow> gval list \<Rightarrow> string list \<Rightarrow> nat \<times> string list" where
  "count_replayed V [] seen = (0, seen)"
| "count_replayed V (GObj raw # items) seen =
     (case nonempty_str V (gget raw ''id'') of
        None \<Rightarrow> count_replayed V items seen
      | Some i \<Rightarrow> if i \<in> set seen then (case count_replayed V items seen of (n, s) \<Rightarrow> (Suc n, s))
                  else count_replayed V items (i # seen))"
| "count_replayed V (_ # items) seen = count_replayed V items seen"

definition count_replayed_item_ids :: "py_conv \<Rightarrow> gobject \<Rightarrow> string list \<Rightarrow> nat \<times> string list" where
  "count_replayed_item_ids V payload seen = count_replayed V (page_items payload) seen"

subsection \<open>Drift\<close>

definition is_drift_reason :: "string \<Rightarrow> bool" where
  "is_drift_reason k \<longleftrightarrow>
     (prefix ''delta_item_missing_'' k \<or> prefix ''delta_file_missing_'' k \<or> prefix ''delta_file_invalid_'' k) \<and>
       k \<noteq> ''delta_file_missing_download_url'' \<or>
     k = ''ghost_missing_download_url_after_refresh''"

text \<open>The ratio of two counts is finite; a threshold that is not a number is never reached.\<close>

definition reaches :: "rat \<Rightarrow> pyfloat \<Rightarrow> bool" where
  "reaches ratio threshold \<longleftrightarrow> flt_less threshold (Fin ratio) \<or> threshold = Fin ratio"

definition evaluate_drift_state :: "counts \<Rightarrow> pyfloat \<Rightarrow> pyfloat \<Rightarrow> int \<Rightarrow> string \<times> rat \<times> int" where
  "evaluate_drift_state m warning_threshold critical_threshold min_events =
     (let drift = count_total (filter (\<lambda>(k, v). is_drift_reason k) m);
          total = max (count_total m) 1;
          ratio = of_int drift / of_int total
      in (if drift < min_events then ''normal''
          else if reaches ratio critical_threshold then ''critical''
          else if reaches ratio warning_threshold then ''warning'' else ''normal'', ratio, drift))"

definition split_anomaly_and_diagnostics :: "counts \<Rightarrow> counts \<times> counts" where
  "split_anomaly_and_diagnostics m =
     (filter (\<lambda>(k, v). \<not> prefix ''diag_'' k) m,
      map (\<lambda>(k, v). (drop 5 k, v)) (filter (\<lambda>(k, v). prefix ''diag_'' k) m))"

subsection \<open>The reducer keeps the last event of every item\<close>

text \<open>
  What an item of a page means: nothing, a deletion of an id, or a candidate for it.  The
  specification keeps, of a sequence of such events, the last one of every id.
\<close>

definition event_of :: "py_conv \<Rightarrow> string \<Rightarrow> string \<Rightarrow> gval \<Rightarrow> (string \<times> remote_candidate option) option" where
  "event_of V now account_name item =
     (case item of
        GObj raw \<Rightarrow>
          (case nonempty_str V (gget raw ''id'') of
             None \<Rightarrow> None
           | Some i \<Rightarrow>
               if ghas raw ''deleted'' then Some (i, None)
               else if \<not> ghas raw ''file'' then None
               else map_option (\<lambda>c. (i, Some c)) (build_candidate_from_payload V now account_name raw))
      | _ \<Rightarrow> None)"

fun last_events :: "('i \<times> 'c) list \<Rightarrow> ('i \<times> 'c) list" where
  "last_events [] = []"
| "last_events (e # es) = (if fst e \<in> fst ` set es then last_events es else e # last_events es)"

lemma last_events_subset: "set (last_events es) \<subseteq> set es"
  by (induction es) auto

lemma last_events_snoc: "last_events (es @ [e]) = filter (\<lambda>x. fst x \<noteq> fst e) (last_events es) @ [e]"
  by (induction es) auto

lemma distinct_last_events: "distinct (map fst (last_events es))"
proof (induction es)
  case (Cons e es)
  then show ?case using last_events_subset [of es] by auto
qed simp

definition by_sequence :: "(string \<times> reducer_entry) list \<Rightarrow> (string \<times> reducer_entry) list" where
  "by_sequence es = sort_key (re_sequence \<circ> snd) es"

definition ok_entries :: "(string \<times> reducer_entry) list \<Rightarrow> nat \<Rightarrow> bool" where
  "ok_entries es sq \<longleftrightarrow> distinct (map fst es) \<and> distinct (map (re_sequence \<circ> snd) es) \<and>
     (\<forall>e \<in> set es. re_sequence (snd e) \<le> sq)"

lemma ok_entries_below:
  "ok_entries es sq \<Longrightarrow> x \<in> set es \<Longrightarrow> re_sequence (snd x) < Suc sq"
  by (auto simp: ok_entries_def less_Suc_eq_le)

lemma sort_key_map_snd: "sort_key f (map snd es) = map snd (sort_key (f \<circ> snd) es)"
proof (induction es)
  case (Cons e es)
  have "insort_key f (snd e) (map snd xs) = map snd (insort_key (f \<circ> snd) e xs)" for xs
    by (induction xs) auto
  with Cons show ?case by (simp add: o_def)
qed simp

lemma mset_update:
  "distinct (map fst es) \<Longrightarrow> mset (AList.update k v es) = mset (filter (\<lambda>x. fst x \<noteq> k) es) + {#(k, v)#}"
proof (induction es)
  case (Cons e es)
  then show ?case
  proof (cases "fst e = k")
    case True
    with Cons.prems have "k \<notin> fst ` set es" by auto
    then have "filter (\<lambda>x. fst x \<noteq> k) es = es" by (auto intro!: filter_True)
    with True show ?thesis by (cases e) auto
  next
    case False
    with Cons show ?thesis by (cases e) auto
  qed
qed simp

lemma distinct_filter_one: "distinct zs \<Longrightarrow> k \<in> set zs \<Longrightarrow> filter (\<lambda>x. x = k) zs = [k]"
  by (induction zs) (auto simp: filter_empty_conv)

lemma by_sequence_update:
  assumes "ok_entries es sq" and "\<And>x. x \<in> set es \<Longrightarrow> re_sequence (snd x) < re_sequence e"
  shows "by_sequence (AList.update i e es) =
    filter (\<lambda>x. fst x \<noteq> i) (by_sequence es) @ [(i, e)]"
  unfolding by_sequence_def
proof (rule properties_for_sort_key, goal_cases)
  case 1
  have d: "distinct (map fst es)" using assms(1) by (simp add: ok_entries_def)
  have "mset (filter (\<lambda>x. fst x \<noteq> i) (sort_key (re_sequence \<circ> snd) es)) =
      mset (filter (\<lambda>x. fst x \<noteq> i) es)" by (simp add: mset_filter)
  with mset_update [OF d, of i e] show ?case by simp
next
  case (2 k)
  let ?f = "re_sequence \<circ> snd"
  let ?ys = "filter (\<lambda>x. fst x \<noteq> i) (sort_key ?f es) @ [(i, e)]"
  have inj: "inj_on ?f (set es)" using assms(1) by (simp add: ok_entries_def distinct_map)
  have "?f (i, e) \<notin> ?f ` set es" using assms(2) by fastforce
  then have "inj_on ?f (insert (i, e) (set es))" using inj by auto
  then have injy: "inj_on ?f (set ?ys)" by (rule inj_on_subset) auto
  have dy: "distinct ?ys" using assms(1) by (auto simp: ok_entries_def distinct_map)
  have m: "mset ?ys = mset (AList.update i e es)"
    using mset_update [of es i e] assms(1) by (simp add: ok_entries_def mset_filter)
  have su: "set (AList.update i e es) = set ?ys" using mset_eq_setD [OF m] by simp
  have in_ys: "k \<in> set ?ys" using 2 unfolding su .
  have one: "filter (\<lambda>x. ?f k = ?f x) zs = [k]" if "distinct zs" "set zs = set ?ys" for zs
  proof -
    have "x = k" if "x \<in> set zs" "?f k = ?f x" for x
      using inj_onD [OF injy, of k x] that \<open>set zs = set ?ys\<close> in_ys by simp
    then have "filter (\<lambda>x. ?f k = ?f x) zs = filter (\<lambda>x. x = k) zs" by (intro filter_cong) auto
    also have "\<dots> = [k]" using that(1) in_ys that(2) distinct_filter_one [of zs k] by simp
    finally show ?thesis .
  qed
  have "distinct (AList.update i e es)" using m dy mset_eq_imp_distinct_iff by metis
  with one [OF _ su] one [OF dy refl] show ?case by simp
next
  case 3
  have "sorted (map (re_sequence \<circ> snd) (filter (\<lambda>x. fst x \<noteq> i) (sort_key (re_sequence \<circ> snd) es)))"
    by (simp add: sorted_filter)
  with assms(2) show ?case by (auto simp: sorted_append less_imp_le)
qed

lemma ok_entries_put:
  assumes ok: "ok_entries es sq" and e: "re_sequence e = Suc sq"
  shows "ok_entries (AList.update i e es) (Suc sq)"
proof -
  let ?ys = "filter (\<lambda>x. fst x \<noteq> i) es @ [(i, e)]" and ?f = "re_sequence \<circ> snd"
  have d: "distinct (map fst es)" using ok by (simp add: ok_entries_def)
  have m: "mset (AList.update i e es) = mset ?ys" using mset_update [OF d, of i e] by simp
  then have "mset (map ?f (AList.update i e es)) = mset (map ?f ?ys)" by (simp only: mset_map)
  then have "distinct (map ?f (AList.update i e es)) \<longleftrightarrow> distinct (map ?f ?ys)"
    by (rule mset_eq_imp_distinct_iff)
  moreover have "distinct (map ?f (filter (\<lambda>x. fst x \<noteq> i) es))"
    using ok by (simp add: ok_entries_def distinct_map_filter)
  moreover have "?f x \<noteq> re_sequence e" if "x \<in> set es" for x
    using ok_entries_below [OF ok that] e by simp
  moreover have "set (AList.update i e es) = set ?ys" using m by (rule mset_eq_setD)
  ultimately show ?thesis
    using ok e d by (force simp: ok_entries_def distinct_update le_SucI)
qed

lemma ok_entries_tick: "ok_entries es sq \<Longrightarrow> ok_entries es (Suc sq)"
  by (auto simp: ok_entries_def le_SucI)

text \<open>The state of the reducer after some items, as the last events among them.\<close>

definition reduced :: "(string \<times> reducer_entry) list \<Rightarrow> (string \<times> remote_candidate option) list" where
  "reduced es = map (map_prod id re_candidate) (by_sequence es)"

lemma filter_reduced:
  "map (map_prod id re_candidate) (filter (\<lambda>x. fst x \<noteq> i) es) =
   filter (\<lambda>x. fst x \<noteq> i) (map (map_prod id re_candidate) es)"
  by (induction es) auto

lemma reduced_put:
  assumes "ok_entries es sq" and "re_sequence e = Suc sq"
  shows "reduced (AList.update i e es) = filter (\<lambda>x. fst x \<noteq> i) (reduced es) @ [(i, re_candidate e)]"
  using by_sequence_update [OF assms(1), of e i] ok_entries_below [OF assms(1)] assms(2)
  by (simp add: reduced_def filter_reduced)

lemma reduce_item_step:
  assumes "ok_entries (rd_entries rd) (rd_sequence rd)" and "reduced (rd_entries rd) = last_events evs"
  shows "ok_entries (rd_entries (reduce_item V now a item rd)) (rd_sequence (reduce_item V now a item rd)) \<and>
    reduced (rd_entries (reduce_item V now a item rd)) =
      last_events (evs @ (case event_of V now a item of None \<Rightarrow> [] | Some ev \<Rightarrow> [ev]))"
proof (cases item)
  case (GObj raw)
  then show ?thesis using assms
    by (auto simp: reduce_item_def event_of_def Let_def last_events_snoc ok_entries_tick
        reduced_put ok_entries_put split: option.split)
qed (use assms in \<open>auto simp: reduce_item_def event_of_def\<close>)

lemma reduce_items:
  assumes "ok_entries (rd_entries rd) (rd_sequence rd)" and "reduced (rd_entries rd) = last_events evs"
  shows "reduced (rd_entries (fold (reduce_item V now a) items rd)) =
    last_events (evs @ List.map_filter (event_of V now a) items)"
  using assms
proof (induction items arbitrary: rd evs)
  case (Cons item items)
  note step = reduce_item_step [OF Cons.prems, of V now a item]
  from Cons.IH [OF conjunct1 [OF step] conjunct2 [OF step]] show ?case
    by (cases "event_of V now a item") (simp_all add: map_filter_simps)
qed (simp add: map_filter_simps)

lemma materialize_reduced: "materialize_reduced_candidates es = List.map_filter snd (reduced es)"
  by (simp add: materialize_reduced_candidates_def reduced_def by_sequence_def sort_key_map_snd List.map_filter_def filter_map o_def)

text \<open>
  \<^bold>\<open>C17: a delta page is reduced to the last event of every item.\<close>  The candidates taken from a page
  are those of the last event of each item id, in the order of these last events; an id whose last
  event is a deletion gives no candidate, and items that are no objects, carry no id, are no files
  or have a malformed payload are no events and leave an earlier event of their id in place.
\<close>

theorem reducer_keeps_last_event:
  "reduce_delta_page_candidates V now account_name payload =
     List.map_filter snd (last_events (List.map_filter (event_of V now account_name) (page_items payload)))"
  using reduce_items [of empty_reducer "[]" V now account_name "page_items payload"]
  by (simp add: reduce_delta_page_candidates_def apply_delta_page_to_reducer_def materialize_reduced
      empty_reducer_def ok_entries_def reduced_def by_sequence_def)

end
