(* ===== verification/Graph.thy ===== *)
theory Graph
  imports Delta
begin

section \<open>Graph requests and downloads (\<open>adapters/onedrive/client.py\<close>)\<close>

text \<open>
  The two request loops of the OneDrive adapter.  What comes from outside is in \<open>net\<close>: the reply
  to the n-th request (its URL and bearer token, if any; \<open>Transport\<close> when the client raises a
  transport error), \<open>json.loads\<close>, the token refresh (\<open>None\<close> when it raises an authentication
  error), the jitter, the readers of \<open>Retry-After\<close> and the monotonic clock.  The state \<open>poller\<close> holds the world, the
  number of requests sent, the pauses made and the diagnostics counters.  Log events are left out.
  Header names are looked up as the client library does, without regard to case.
\<close>

datatype http_reply = Transport | Response int "(string \<times> string) list" string

record net =
  http_get :: "nat \<Rightarrow> string \<Rightarrow> string option \<Rightarrow> http_reply"
  loads :: "string \<Rightarrow> gval option"
  refresh_token :: "(nat \<Rightarrow> string option) option"
  jitter :: "nat \<Rightarrow> pyfloat"
  read_float :: "string \<Rightarrow> pyfloat option"
  seconds_until :: "nat \<Rightarrow> string \<Rightarrow> pyfloat option"
  conv :: py_conv
  mono :: "nat \<Rightarrow> rat"
  outside :: env

record poller =
  pl_world :: world
  pl_requests :: nat
  pl_sleeps :: "pyfloat list"
  pl_diag :: counts

definition GRAPH_BASE :: string where
  "GRAPH_BASE = ''https://graph.microsoft.com/v1.0''"

definition header :: "(string \<times> string) list \<Rightarrow> string \<Rightarrow> string option" where
  "header hs k = map_of (map (\<lambda>(a, v). (py_lower a, v)) hs) (py_lower k)"

definition increment_counter :: "string \<Rightarrow> poller \<Rightarrow> poller" where
  "increment_counter k p = p\<lparr>pl_diag := record_ghost_reason k 1 (pl_diag p)\<rparr>"

definition count_if :: "bool \<Rightarrow> string \<Rightarrow> poller \<Rightarrow> poller" where
  "count_if b k p = (if b then increment_counter k p else p)"

definition send :: "net \<Rightarrow> string \<Rightarrow> string option \<Rightarrow> poller \<Rightarrow> http_reply \<times> poller" where
  "send N url token p = (http_get N (pl_requests p) url token, p\<lparr>pl_requests := Suc (pl_requests p)\<rparr>)"

definition retry_after :: "net \<Rightarrow> (string \<times> string) list \<Rightarrow> poller \<Rightarrow> pyfloat option" where
  "retry_after N hs p = parse_retry_after (read_float N) (seconds_until N (pl_requests p)) (header hs ''Retry-After'')"

definition sleep_before_retry ::
  "net \<Rightarrow> retry_policy \<Rightarrow> nat \<Rightarrow> pyfloat option \<Rightarrow> poller \<Rightarrow> poller" where
  "sleep_before_retry N pol attempt hint p =
     p\<lparr>pl_sleeps := pl_sleeps p @ [compute_delay (int attempt) hint pol (jitter N (length (pl_sleeps p)))]\<rparr>"

definition present :: "string option \<Rightarrow> bool" where
  "present h = (case h of None \<Rightarrow> False | Some s \<Rightarrow> s \<noteq> [])"

subsection \<open>Metadata requests\<close>

text \<open>What a successful response is turned into.\<close>

definition decode_payload :: "net \<Rightarrow> string \<Rightarrow> gobject res" where
  "decode_payload N body =
     (case loads N body of
        None \<Rightarrow> Inl (GraphError ''Invalid JSON in Graph response'' ''graph_invalid_json'' None)
      | Some (GObj payload) \<Rightarrow> Inr payload
      | Some _ \<Rightarrow> Inl (AttributeError ''get''))"

text \<open>
  The retry loop: the attempt that is made, the attempts that are left after it, the token and
  whether it has been refreshed.
\<close>

fun graph_attempts ::
  "net \<Rightarrow> retry_policy \<Rightarrow> string \<Rightarrow> nat \<Rightarrow> nat \<Rightarrow> string \<Rightarrow> bool \<Rightarrow> poller \<Rightarrow> gobject res \<times> poller" where
  "graph_attempts N pol url attempt 0 token refreshed p =
     (Inl (GraphError ''Unexpected retry loop exit'' ''graph_retry_loop_exit'' None), p)"
| "graph_attempts N pol url attempt (Suc left) token refreshed p =
     (case send N url (Some token)
             (increment_counter ''graph_client_request_id_sent_total'' (increment_counter ''graph_request_total'' p)) of
        (Transport, p) \<Rightarrow>
          (let p = increment_counter ''retry_transport_error_total'' (increment_counter ''retry_attempt_total'' p) in
           if left = 0
           then (Inl (GraphError ''Graph transport error after retries exhausted'' ''graph_transport_error'' None), p)
           else graph_attempts N pol url (Suc attempt) left token refreshed (sleep_before_retry N pol attempt None p))
      | (Response st hs body, p) \<Rightarrow>
          (let p = count_if (present (header hs ''x-ms-correlation-request-id'')) ''graph_response_correlation_id_seen_total''
                     (count_if (present (header hs ''request-id'')) ''graph_response_request_id_seen_total'' p) in
           if st \<in> {401, 403} then
             (let p = increment_counter ''auth_refresh_attempt_total'' p in
              case (refreshed, refresh_token N) of
                (False, Some refresh) \<Rightarrow>
                  (case refresh (pl_requests p) of
                     None \<Rightarrow> (Inl (GraphError ''Graph token refresh failed'' ''graph_auth_refresh_failed'' (Some st)),
                        increment_counter ''auth_refresh_failure_total'' p)
                   | Some token' \<Rightarrow> graph_attempts N pol url (Suc attempt) left token' True
                        (increment_counter ''auth_refresh_success_total'' p))
              | _ \<Rightarrow> (Inl (GraphError ''Graph authentication failed'' ''graph_auth_failed'' (Some st)), p))
           else if classify_status st then
             (let p = count_if (st \<in> {429, 503}) ''throttle_response_total'' (increment_counter ''retry_attempt_total'' p) in
              if left = 0
              then (Inl (GraphError ''Graph request retry limit reached'' ''graph_retry_exhausted'' (Some st)), p)
              else graph_attempts N pol url (Suc attempt) left token refreshed
                     (sleep_before_retry N pol attempt (retry_after N hs p) p))
           else if st = 410 then
             (Inl (GraphResyncRequired (header hs ''Location'')), increment_counter ''resync_required_total'' p)
           else if st \<ge> 400 then
             (Inl (GraphError ''Graph request returned error status'' ''graph_error'' (Some st)), p)
           else (decode_payload N body, p)))"

definition graph_get_json ::
  "net \<Rightarrow> retry_policy \<Rightarrow> string \<Rightarrow> string \<Rightarrow> poller \<Rightarrow> gobject res \<times> poller" where
  "graph_get_json N pol url token p = graph_attempts N pol url 1 (max_attempts pol) token False p"

subsection \<open>Downloads\<close>

definition pl_fs :: "(fs \<Rightarrow> 'a res \<times> fs) \<Rightarrow> poller \<Rightarrow> 'a res \<times> poller" where
  "pl_fs m p = (case fs_call m (pl_world p) of (r, w) \<Rightarrow> (r, p\<lparr>pl_world := w\<rparr>))"

definition cleanup_partial :: "path \<Rightarrow> poller \<Rightarrow> poller" where
  "cleanup_partial destination p = snd (pl_fs (fs_unlink destination) p)"

definition write_at_now :: "net \<Rightarrow> path \<Rightarrow> string \<Rightarrow> poller \<Rightarrow> unit res \<times> poller" where
  "write_at_now N destination body p =
     (case draw_time (outside N) (pl_world p) of (now, w) \<Rightarrow>
        pl_fs (fs_write destination body now) (p\<lparr>pl_world := w\<rparr>))"

text \<open>
  The loop ends without an exception when no attempt is left; with at least one attempt this
  point is not reached.
\<close>

fun download_attempts ::
  "net \<Rightarrow> retry_policy \<Rightarrow> string \<Rightarrow> path \<Rightarrow> int option \<Rightarrow> nat \<Rightarrow> nat \<Rightarrow> poller \<Rightarrow> unit res \<times> poller" where
  "download_attempts N pol url destination expected attempt 0 p = (Inr (), p)"
| "download_attempts N pol url destination expected attempt (Suc left) p =
     (let again = (\<lambda>hint e p.
            if left = 0 then (Inl e, p)
            else download_attempts N pol url destination expected (Suc attempt) left
                   (sleep_before_retry N pol attempt (hint p) p))
      in case send N url None (increment_counter ''download_request_total'' p) of
        (Transport, p) \<Rightarrow>
          again (\<lambda>p. None)
            (DownloadError ''Download transport error after retries exhausted'' ''download_transport_error'' None)
            (increment_counter ''retry_transport_error_total''
              (increment_counter ''retry_attempt_total'' (cleanup_partial destination p)))
      | (Response st hs body, p) \<Rightarrow>
          if classify_status st then
            again (retry_after N hs)
              (DownloadError ''Download retry limit reached'' ''download_retry_exhausted'' (Some st))
              (count_if (st \<in> {429, 503}) ''throttle_response_total''
                (increment_counter ''retry_attempt_total'' (cleanup_partial destination p)))
          else if st \<ge> 400 then
            (Inl (DownloadError ''Download request returned error status'' ''download_error'' (Some st)),
              cleanup_partial destination p)
          else
            (case write_at_now N destination body p of
               (Inl e, p) \<Rightarrow>
                 (Inl (DownloadError ''Failed to write downloaded content to staging'' ''download_write_error'' None),
                   cleanup_partial destination p)
             | (Inr _, p) \<Rightarrow>
                 (case expected of
                    None \<Rightarrow> (Inr (), p)
                  | Some n \<Rightarrow>
                      if n > 0 \<and> body = [] then
                        again (\<lambda>p. None)
                          (DownloadError ''Download returned empty body for non-empty remote file'' ''download_empty_body'' None)
                          (increment_counter ''retry_attempt_total'' (cleanup_partial destination p))
                      else if n \<ge> 0 \<and> int (length body) \<noteq> n then
                        again (\<lambda>p. None)
                          (DownloadError ''Downloaded byte count did not match expected size'' ''download_size_mismatch'' None)
                          (increment_counter ''retry_attempt_total'' (cleanup_partial destination p))
                      else (Inr (), p))))"

definition download_with_retry ::
  "net \<Rightarrow> retry_policy \<Rightarrow> string \<Rightarrow> path \<Rightarrow> int option \<Rightarrow> poller \<Rightarrow> unit res \<times> poller" where
  "download_with_retry N pol url destination expected p =
     and_then (pl_fs (fs_mkdirs (path_parent destination)) p) (\<lambda>_ p.
       download_attempts N pol url destination expected 1 (max_attempts pol) p)"

subsection \<open>Bounds of the request loop\<close>

lemma counters [simp]:
  "pl_world (increment_counter k p) = pl_world p" "pl_requests (increment_counter k p) = pl_requests p"
  "pl_sleeps (increment_counter k p) = pl_sleeps p"
  "pl_world (count_if b k p) = pl_world p" "pl_requests (count_if b k p) = pl_requests p"
  "pl_sleeps (count_if b k p) = pl_sleeps p"
  by (simp_all add: increment_counter_def count_if_def)

lemma pause_simps [simp]:
  "pl_world (sleep_before_retry N pol attempt hint p) = pl_world p"
  "pl_requests (sleep_before_retry N pol attempt hint p) = pl_requests p"
  by (simp_all add: sleep_before_retry_def)

text \<open>A policy with a finite cap and base, and a jitter that is a duration.\<close>

definition good_policy :: "net \<Rightarrow> retry_policy \<Rightarrow> bool" where
  "good_policy N pol \<longleftrightarrow> (\<exists>m b. max_delay pol = Fin m \<and> base_delay pol = Fin b \<and> 0 \<le> m \<and> 0 \<le> b) \<and>
     (\<forall>n. \<exists>j. jitter N n = Fin j \<and> 0 \<le> j)"

definition capped :: "retry_policy \<Rightarrow> pyfloat \<Rightarrow> bool" where
  "capped pol d \<longleftrightarrow> (\<exists>x m. d = Fin x \<and> max_delay pol = Fin m \<and> 0 \<le> x \<and> x \<le> m)"

text \<open>The pauses a step adds: at most a number of them, each capped.\<close>

definition paused :: "retry_policy \<Rightarrow> nat \<Rightarrow> poller \<Rightarrow> poller \<Rightarrow> bool" where
  "paused pol k p p' \<longleftrightarrow>
     (\<exists>ds. pl_sleeps p' = pl_sleeps p @ ds \<and> length ds \<le> k \<and> (\<forall>d \<in> set ds. capped pol d))"

lemma paused_same: "pl_sleeps p' = pl_sleeps p \<Longrightarrow> paused pol k p p'"
  by (auto simp: paused_def)

lemma pause_capped:
  assumes "good_policy N pol" and "hint = None \<or> (\<exists>hs q. hint = retry_after N hs q)"
  shows "capped pol (compute_delay a hint pol (jitter N n))"
proof -
  obtain m b j where g: "max_delay pol = Fin m" "base_delay pol = Fin b" "0 \<le> m" "0 \<le> b" "jitter N n = Fin j" "0 \<le> j"
    using assms(1) unfolding good_policy_def by blast
  have "\<exists>f u h. hint = parse_retry_after f u h"
    using assms(2)
  proof
    assume "hint = None"
    then have "hint = parse_retry_after (\<lambda>_. None) (\<lambda>_. None) None" by (simp add: parse_retry_after_def)
    then show ?thesis by blast
  qed (auto simp: retry_after_def)
  then obtain f u h where "hint = parse_retry_after f u h" by blast
  with pause_bounded [OF g(1-4,6), of a f u h] g(1,5) show ?thesis by (auto simp: capped_def)
qed

lemma paused_after:
  assumes "good_policy N pol" and "hint = None \<or> (\<exists>hs q. hint = retry_after N hs q)"
    and "pl_sleeps q = pl_sleeps p" and "paused pol k (sleep_before_retry N pol a hint q) p'"
  shows "paused pol (Suc k) p p'"
proof -
  let ?d = "compute_delay (int a) hint pol (jitter N (length (pl_sleeps q)))"
  from assms(4) obtain ds where "pl_sleeps p' = pl_sleeps p @ (?d # ds)" "length (?d # ds) \<le> Suc k"
    "\<forall>d \<in> set ds. capped pol d"
    by (auto simp: paused_def sleep_before_retry_def assms(3))
  with pause_capped [OF assms(1,2), of "int a" "length (pl_sleeps q)"] show ?thesis
    unfolding paused_def by (intro exI [of _ "?d # ds"]) simp
qed


text \<open>At most so many requests and one pause less, each capped, and the world as it was.\<close>

definition within_budget :: "retry_policy \<Rightarrow> nat \<Rightarrow> poller \<Rightarrow> poller \<Rightarrow> bool" where
  "within_budget pol left p p' \<longleftrightarrow>
     pl_requests p' \<le> pl_requests p + left \<and> paused pol (left - 1) p p'"

lemma budget_end:
  "pl_requests p' \<le> pl_requests p + left \<Longrightarrow> pl_sleeps p' = pl_sleeps p \<Longrightarrow> within_budget pol left p p'"
  by (simp add: within_budget_def paused_same)

lemma budget_next:
  assumes "within_budget pol left q p'" and "pl_requests q = Suc (pl_requests p)" and "pl_sleeps q = pl_sleeps p"
  shows "within_budget pol (Suc left) p p'"
  using assms unfolding within_budget_def paused_def by fastforce

lemma budget_retry:
  assumes "within_budget pol left (sleep_before_retry N pol attempt hint q) p'" and "left \<noteq> 0" and "good_policy N pol"
    and "hint = None \<or> (\<exists>hs q. hint = retry_after N hs q)"
    and "pl_requests q = Suc (pl_requests p)" and "pl_sleeps q = pl_sleeps p"
  shows "within_budget pol (Suc left) p p'"
  using assms paused_after [OF assms(3,4,6), of "left - 1" attempt p'] by (simp add: within_budget_def)

text \<open>One attempt: the loop ends after it, or goes on after a pause, or goes on with a new token.\<close>

definition sent :: "poller \<Rightarrow> poller \<Rightarrow> bool" where
  "sent p q \<longleftrightarrow> pl_world q = pl_world p \<and> pl_requests q = Suc (pl_requests p) \<and> pl_sleeps q = pl_sleeps p"

fun transient :: "http_reply \<Rightarrow> bool" where
  "transient Transport = True"
| "transient (Response st hs body) = classify_status st"

definition answered :: "net \<Rightarrow> http_reply \<Rightarrow> gobject res \<Rightarrow> bool" where
  "answered N reply r \<longleftrightarrow>
     (\<forall>payload. r = Inr payload \<longrightarrow> (\<exists>st hs body. reply = Response st hs body \<and> st < 400 \<and> loads N body = Some (GObj payload)))"

lemma answered_Inl [simp]: "answered N reply (Inl e)"
  by (simp add: answered_def)

lemma answered_payload: "st < 400 \<Longrightarrow> answered N (Response st hs body) (decode_payload N body)"
  by (auto simp: answered_def decode_payload_def split: option.splits gval.splits)

lemma classify_auth [simp]: "\<not> classify_status 401" "\<not> classify_status 403"
  by (simp_all add: classify_status_def RETRYABLE_STATUS_CODES_def)

lemma graph_attempt_cases:
  assumes "graph_attempts N pol url attempt (Suc left) token refreshed p = (r, p')"
  obtains (ended) "sent p p'" "answered N (http_get N (pl_requests p) url (Some token)) r"
      "left = 0 \<or> \<not> transient (http_get N (pl_requests p) url (Some token))"
  | (retried) hint q where "sent p q" "left \<noteq> 0" "hint = None \<or> (\<exists>hs q. hint = retry_after N hs q)"
      "transient (http_get N (pl_requests p) url (Some token))"
      "graph_attempts N pol url (Suc attempt) left token refreshed (sleep_before_retry N pol attempt hint q) = (r, p')"
  | (renewed) t q where "sent p q" "\<not> refreshed" "\<not> transient (http_get N (pl_requests p) url (Some token))"
      "graph_attempts N pol url (Suc attempt) left t True q = (r, p')"
proof (cases "http_get N (pl_requests p) url (Some token)")
  case Transport
  show thesis
  proof (cases "left = 0")
    case True
    with assms Transport show thesis by (intro ended) (auto simp: send_def Let_def sent_def)
  next
    case False
    with assms Transport show thesis
      by (intro retried [of _ None]) (auto simp: send_def Let_def sent_def)
  qed
next
  case (Response st hs body)
  let ?q = "count_if (present (header hs ''x-ms-correlation-request-id'')) ''graph_response_correlation_id_seen_total''
      (count_if (present (header hs ''request-id'')) ''graph_response_request_id_seen_total''
        ((increment_counter ''graph_client_request_id_sent_total'' (increment_counter ''graph_request_total'' p))
          \<lparr>pl_requests := Suc (pl_requests p)\<rparr>))"
  consider "st \<in> {401, 403}" | "st \<notin> {401, 403}" "classify_status st" | "st \<notin> {401, 403}" "\<not> classify_status st" by blast
  then show thesis
  proof cases
    case 1
    show thesis
    proof (cases "\<exists>f t. \<not> refreshed \<and> refresh_token N = Some f \<and> f (Suc (pl_requests p)) = Some t")
      case True
      then obtain f t where "\<not> refreshed" "refresh_token N = Some f" "f (Suc (pl_requests p)) = Some t" by blast
      with assms Response 1 show thesis
        by (intro renewed [of "increment_counter ''auth_refresh_success_total'' (increment_counter ''auth_refresh_attempt_total'' ?q)" t])
          (auto simp: send_def Let_def sent_def)
    next
      case False
      with assms Response 1 show thesis
        by (intro ended) (auto simp: send_def Let_def sent_def split: bool.splits option.splits)
    qed
  next
    case 2
    let ?q2 = "count_if (st \<in> {429, 503}) ''throttle_response_total'' (increment_counter ''retry_attempt_total'' ?q)"
    show thesis
    proof (cases "left = 0")
      case True
      with assms Response 2 show thesis by (intro ended) (auto simp: send_def Let_def sent_def)
    next
      case False
      with assms Response 2 show thesis
        by (intro retried [of ?q2 "retry_after N hs ?q2"]) (auto simp: send_def Let_def sent_def)
    qed
  next
    case 3
    with assms Response show thesis
      by (intro ended) (auto simp: send_def Let_def sent_def intro: answered_payload split: if_splits)
  qed
qed

declare graph_attempts.simps(2) [simp del]

lemma graph_attempts_bounds:
  assumes good: "good_policy N pol"
  shows "graph_attempts N pol url attempt left token refreshed p = (r, p') \<Longrightarrow>
    pl_world p' = pl_world p \<and> within_budget pol left p p'"
proof (induction left arbitrary: attempt token refreshed p)
  case (Suc left)
  from Suc.prems show ?case
  proof (cases rule: graph_attempt_cases)
    case ended
    then show ?thesis by (auto simp: sent_def intro: budget_end)
  next
    case (retried hint q)
    with Suc.IH [OF retried(5)] budget_retry [OF _ retried(2) good retried(3), of attempt q p' p]
    show ?thesis by (simp add: sent_def)
  next
    case (renewed t q)
    with Suc.IH [OF renewed(4)] budget_next [of pol left q p' p] show ?thesis by (simp add: sent_def)
  qed
qed (simp add: budget_end)


lemma graph_attempts_payload:
  "graph_attempts N pol url attempt left token refreshed p = (Inr payload, p') \<Longrightarrow>
    \<exists>tok. answered N (http_get N (pl_requests p' - 1) url (Some tok)) (Inr payload)"
proof (induction left arbitrary: attempt token refreshed p)
  case (Suc left)
  from Suc.prems show ?case
  proof (cases rule: graph_attempt_cases)
    case ended
    then show ?thesis by (auto simp: sent_def)
  qed (use Suc.IH in blast)+
qed simp

text \<open>
  A metadata request sends at most as many requests as the policy allows and pauses between
  them only, each time for a finite, non-negative time within the cap; it touches neither files nor
  registry, and a payload it returns is the JSON object of the last reply, which was a success.
\<close>

theorem graph_get_bounded:
  assumes "good_policy N pol" and "graph_get_json N pol url token p = (r, p')"
  shows "pl_world p' = pl_world p \<and> pl_requests p' \<le> pl_requests p + max_attempts pol \<and>
    (\<exists>ds. pl_sleeps p' = pl_sleeps p @ ds \<and> length ds \<le> max_attempts pol - 1 \<and> (\<forall>d \<in> set ds. capped pol d)) \<and>
    (\<forall>payload. r = Inr payload \<longrightarrow> (\<exists>tok st hs body. st < 400 \<and> loads N body = Some (GObj payload) \<and>
       http_get N (pl_requests p' - 1) url (Some tok) = Response st hs body))"
  using graph_attempts_bounds [OF assms(1), of url 1 "max_attempts pol" token False p r p']
    graph_attempts_payload [of N pol url 1 "max_attempts pol" token False p _ p'] assms(2)
  by (auto simp: graph_get_json_def within_budget_def paused_def answered_def) blast

subsection \<open>Recovery\<close>

lemma graph_skip_transient:
  assumes "0 < left" and "\<forall>i < k. transient (http_get N (pl_requests p + i) url (Some token))"
  shows "\<exists>q. graph_attempts N pol url attempt (k + left) token refreshed p =
      graph_attempts N pol url (attempt + k) left token refreshed q \<and> pl_requests q = pl_requests p + k"
  using assms(2)
proof (induction k arbitrary: attempt p)
  case (Suc k)
  obtain r p' where run: "graph_attempts N pol url attempt (Suc (k + left)) token refreshed p = (r, p')" by fastforce
  have tr: "transient (http_get N (pl_requests p) url (Some token))" using Suc.prems by force
  have "\<exists>q. graph_attempts N pol url (Suc attempt) (k + left) token refreshed q = (r, p') \<and> pl_requests q = Suc (pl_requests p)"
    using run
  proof (cases rule: graph_attempt_cases)
    case (retried hint q)
    then show ?thesis by (intro exI [of _ "sleep_before_retry N pol attempt hint q"]) (simp add: sent_def)
  qed (use tr assms(1) in auto)
  then obtain q where q: "graph_attempts N pol url (Suc attempt) (k + left) token refreshed q = (r, p')"
    "pl_requests q = Suc (pl_requests p)" by blast
  have "\<forall>i < k. transient (http_get N (pl_requests q + i) url (Some token))"
    using Suc.prems q(2) by force
  from Suc.IH [OF this, of "Suc attempt"] q run show ?case by auto
qed auto

lemma graph_success:
  assumes "http_get N (pl_requests p) url (Some token) = Response st hs body" and "st < 400"
    and "loads N body = Some (GObj payload)"
  shows "\<exists>p'. graph_attempts N pol url attempt (Suc left) token refreshed p = (Inr payload, p') \<and>
    pl_requests p' = Suc (pl_requests p)"
proof -
  have "\<not> classify_status st" "st \<notin> {401, 403}" "st \<noteq> 410"
    using assms(2) by (auto simp: classify_status_def RETRYABLE_STATUS_CODES_def)
  with assms show ?thesis by (simp add: graph_attempts.simps(2) send_def Let_def decode_payload_def)
qed

lemma graph_renew:
  assumes "http_get N (pl_requests p) url (Some token) = Response st hs body" and "st \<in> {401, 403}"
    and "refresh_token N = Some f" and "f (Suc (pl_requests p)) = Some t"
  shows "\<exists>q. graph_attempts N pol url attempt (Suc left) token False p =
      graph_attempts N pol url (Suc attempt) left t True q \<and> pl_requests q = Suc (pl_requests p)"
  using assms by (auto simp: graph_attempts.simps(2) send_def Let_def)



text \<open>A service that fails once, then rejects the token, then answers.\<close>

definition flaky_net :: net where
  "flaky_net = \<lparr>http_get = (\<lambda>n url tok. if n = 0 then Transport else if n = 1 then Response 401 [] [] else Response 200 [] ''{}''),
     loads = (\<lambda>_. Some (GObj [])), refresh_token = Some (\<lambda>_. Some ''t2''), jitter = (\<lambda>_. Fin 0),
     read_float = (\<lambda>_. None), seconds_until = (\<lambda>_ _. None),
     conv = \<lparr>py_repr = (\<lambda>_. []), py_int = (\<lambda>_. None)\<rparr>, mono = (\<lambda>_. 0), outside = plain_env\<rparr>"

definition fresh_poller :: "fs \<Rightarrow> poller" where
  "fresh_poller f = \<lparr>pl_world = \<lparr>db = empty_db, fsys = f, jfiles = \<lparr>j_active = None, j_rotated = None\<rparr>, ticks = 0\<rparr>,
     pl_requests = 0, pl_sleeps = [], pl_diag = []\<rparr>"

definition empty_fs :: fs where
  "empty_fs = \<lparr>nodes = [], fs_cwd = [], fs_dev = (\<lambda>_. 0)\<rparr>"

lemma flaky_policy: "good_policy flaky_net DEFAULT_POLICY"
  by (simp add: good_policy_def flaky_net_def DEFAULT_POLICY_def)

theorem graph_get_bounded_witness:
  "good_policy flaky_net DEFAULT_POLICY \<and>
   pl_requests (snd (graph_get_json flaky_net DEFAULT_POLICY ''u'' ''t1'' (fresh_poller empty_fs))) \<le> 4"
proof -
  obtain r p' where run: "graph_get_json flaky_net DEFAULT_POLICY ''u'' ''t1'' (fresh_poller empty_fs) = (r, p')" by fastforce
  from graph_get_bounded [OF flaky_policy run] run flaky_policy show ?thesis
    by (simp add: fresh_poller_def DEFAULT_POLICY_def)
qed


subsection \<open>Downloads are complete or absent\<close>

text \<open>A step that touches no file but the destination, which is no directory, and not the registry.\<close>

definition only_dest :: "path \<Rightarrow> poller \<Rightarrow> poller \<Rightarrow> bool" where
  "only_dest dest p q \<longleftrightarrow>
     db (pl_world q) = db (pl_world p) \<and> fs_cwd (fsys (pl_world q)) = fs_cwd (fsys (pl_world p)) \<and>
     fs_node (fsys (pl_world q)) dest \<noteq> Some Dir \<and>
     (\<forall>k. k \<noteq> fs_key (fsys (pl_world p)) dest \<longrightarrow> node_at (fsys (pl_world q)) k = node_at (fsys (pl_world p)) k)"

lemma only_dest_trans: "only_dest dest p q \<Longrightarrow> only_dest dest q u \<Longrightarrow> only_dest dest p u"
  by (auto simp: only_dest_def fs_key_def)

lemma only_dest_same:
  "pl_world q = pl_world p \<Longrightarrow> fs_node (fsys (pl_world p)) dest \<noteq> Some Dir \<Longrightarrow> only_dest dest p q"
  by (simp add: only_dest_def)

lemma cleanup_clears:
  assumes "fs_node (fsys (pl_world p)) dest \<noteq> Some Dir"
  shows "only_dest dest p (cleanup_partial dest p) \<and> fs_node (fsys (pl_world (cleanup_partial dest p))) dest = None \<and>
    pl_requests (cleanup_partial dest p) = pl_requests p \<and> pl_sleeps (cleanup_partial dest p) = pl_sleeps p"
proof (cases "fs_node (fsys (pl_world p)) dest")
  case None
  then show ?thesis
    by (simp add: cleanup_partial_def pl_fs_def fs_call_def fs_unlink_def key_unlink_def fs_node_def only_dest_def)
next
  case (Some n)
  with assms obtain c t where n: "node_at (fsys (pl_world p)) (fs_key (fsys (pl_world p)) dest) = Some (Reg c t)"
    by (cases n) (auto simp: fs_node_def)
  then have "fs_key (fsys (pl_world p)) dest \<noteq> []" by (rule node_at_Some_Reg)
  with n show ?thesis
    by (simp add: cleanup_partial_def pl_fs_def fs_call_def fs_unlink_def key_unlink_def fs_node_def only_dest_def fs_key_def)
qed

lemma write_at_now_only:
  assumes "write_at_now N dest body p = (x, q)" and "fs_node (fsys (pl_world p)) dest \<noteq> Some Dir"
  shows "only_dest dest p q \<and> pl_requests q = pl_requests p \<and> pl_sleeps q = pl_sleeps p \<and>
    (x = Inr () \<longrightarrow> (\<exists>t. fs_node (fsys (pl_world q)) dest = Some (Reg body t)))"
proof -
  have "fs_key (fsys (pl_world p)) dest \<noteq> []" using assms(2) by (auto simp: fs_node_def)
  with assms show ?thesis
    by (auto simp: write_at_now_def draw_time_def pl_fs_def fs_call_def fs_write_def only_dest_def fs_node_def fs_key_def
        split: if_splits)
qed


definition size_ok :: "int option \<Rightarrow> string \<Rightarrow> bool" where
  "size_ok expected body \<longleftrightarrow> (\<forall>n. expected = Some n \<longrightarrow> n < 0 \<or> int (length body) = n)"

lemma download_attempt_cases:
  assumes run: "download_attempts N pol url dest expected attempt (Suc left) p = (r, p')"
    and nd: "fs_node (fsys (pl_world p)) dest \<noteq> Some Dir"
  obtains (stored) st hs body t where "r = Inr ()" "only_dest dest p p'" "pl_requests p' = Suc (pl_requests p)"
      "http_get N (pl_requests p) url None = Response st hs body" "st < 400" "size_ok expected body"
      "fs_node (fsys (pl_world p')) dest = Some (Reg body t)"
  | (failed) m c s where "r = Inl (DownloadError m c s)" "only_dest dest p p'" "pl_requests p' = Suc (pl_requests p)"
      "fs_node (fsys (pl_world p')) dest = None"
  | (retried) hint q where "only_dest dest p q" "pl_requests q = Suc (pl_requests p)" "left \<noteq> 0"
      "download_attempts N pol url dest expected (Suc attempt) left (sleep_before_retry N pol attempt hint q) = (r, p')"
proof -
  define q where "q = (increment_counter ''download_request_total'' p)\<lparr>pl_requests := Suc (pl_requests p)\<rparr>"
  have q: "pl_world q = pl_world p" "pl_requests q = Suc (pl_requests p)" by (simp_all add: q_def)
  have s: "send N url None (increment_counter ''download_request_total'' p) = (http_get N (pl_requests p) url None, q)"
    by (simp add: send_def q_def)
  have again: thesis
    if "(if left = 0 then (Inl (DownloadError m c st), u)
         else download_attempts N pol url dest expected (Suc attempt) left (sleep_before_retry N pol attempt hint u)) = (r, p')"
      "pl_world u = pl_world (cleanup_partial dest v)" "pl_requests u = Suc (pl_requests p)"
      "only_dest dest p v" for m c st u v hint
  proof -
    have "only_dest dest v (cleanup_partial dest v)" "fs_node (fsys (pl_world (cleanup_partial dest v))) dest = None"
      using cleanup_clears [of v dest] that(4) by (auto simp: only_dest_def)
    with that have "only_dest dest p u" "fs_node (fsys (pl_world u)) dest = None"
      using only_dest_trans [of dest p v "cleanup_partial dest v"] by (auto simp: only_dest_def)
    with that(1,3) show thesis by (cases "left = 0") (auto intro: failed retried)
  qed
  have dq: "only_dest dest p q" using only_dest_same [OF q(1) nd] .
  note cq = cleanup_clears [of q dest]
  show thesis
  proof (cases "http_get N (pl_requests p) url None")
    case Transport
    note eq = run [unfolded download_attempts.simps Let_def s Transport prod.case http_reply.case]
    from cq q nd dq show thesis by (intro again [OF eq, of q]) auto
  next
    case (Response st hs body)
    note eq = run [unfolded download_attempts.simps Let_def s Response prod.case http_reply.case]
    consider "classify_status st" | "\<not> classify_status st" "st \<ge> 400" | "\<not> classify_status st" "st < 400" by linarith
    then show thesis
    proof cases
      case 1
      from cq q nd dq show thesis by (intro again [OF eq [unfolded if_P [OF 1]], of q]) auto
    next
      case 2
      with Response run s have "r = Inl (DownloadError ''Download request returned error status'' ''download_error'' (Some st))"
        "p' = cleanup_partial dest q" by (auto simp: Let_def)
      with cq q nd dq show thesis by (intro failed) (auto intro: only_dest_trans)
    next
      case 3
      obtain x v where w: "write_at_now N dest body q = (x, v)" by fastforce
      note wf = write_at_now_only [OF w]
      have dv: "only_dest dest p v" using wf q nd dq by (auto intro: only_dest_trans)
      note cv = cleanup_clears [of v dest]
      have vd: "fs_node (fsys (pl_world v)) dest \<noteq> Some Dir" using dv by (simp add: only_dest_def)
      show thesis
      proof (cases x)
        case (Inl e)
        with 3 Response run s w have "r = Inl (DownloadError ''Failed to write downloaded content to staging'' ''download_write_error'' None)"
          "p' = cleanup_partial dest v" by (auto simp: Let_def)
        with cv vd wf q nd dv show thesis by (intro failed) (auto intro: only_dest_trans)
      next
        case (Inr u)
        show thesis
        proof (cases "size_ok expected body")
          case True
          with 3 Response run s w Inr have "r = Inr ()" "p' = v"
            by (auto simp: Let_def size_ok_def split: option.splits if_splits)
          with wf Inr q nd dv 3 Response True show thesis by (auto intro: stored)
        next
          case False
          then obtain n where n: "expected = Some n" "n \<ge> 0" "int (length body) \<noteq> n" by (auto simp: size_ok_def)
          have "\<exists>m c. (if left = 0 then (Inl (DownloadError m c None), increment_counter ''retry_attempt_total'' (cleanup_partial dest v))
              else download_attempts N pol url dest expected (Suc attempt) left (sleep_before_retry N pol attempt None
                (increment_counter ''retry_attempt_total'' (cleanup_partial dest v)))) = (r, p')"
            using eq 3 w Inr n by (cases "left = 0"; cases "n > 0 \<and> body = []") auto
          then show thesis using cv vd wf q nd dv by (auto intro: again)
        qed
      qed
    qed
  qed
qed


declare download_attempts.simps(2) [simp del]

definition complete_or_absent :: "net \<Rightarrow> string \<Rightarrow> path \<Rightarrow> int option \<Rightarrow> poller \<Rightarrow> unit res \<Rightarrow> poller \<Rightarrow> bool" where
  "complete_or_absent N url dest expected p r p' \<longleftrightarrow>
     (case r of
        Inr _ \<Rightarrow> (\<exists>n st hs body t. pl_requests p \<le> n \<and> n < pl_requests p' \<and>
           http_get N n url None = Response st hs body \<and> st < 400 \<and> size_ok expected body \<and>
           fs_node (fsys (pl_world p')) dest = Some (Reg body t))
      | Inl e \<Rightarrow> (\<exists>m c s. e = DownloadError m c s) \<and> fs_node (fsys (pl_world p')) dest = None)"

lemma download_attempts_complete:
  assumes "download_attempts N pol url dest expected attempt (Suc left) p = (r, p')"
    and "fs_node (fsys (pl_world p)) dest \<noteq> Some Dir"
  shows "only_dest dest p p' \<and> pl_requests p < pl_requests p' \<and> pl_requests p' \<le> pl_requests p + Suc left \<and>
    complete_or_absent N url dest expected p r p'"
  using assms
proof (induction left arbitrary: attempt p)
  case 0
  from 0 show ?case
  proof (cases rule: download_attempt_cases)
    case (stored st hs body t)
    then show ?thesis by (auto simp: complete_or_absent_def intro!: exI [of _ "pl_requests p"])
  qed (auto simp: complete_or_absent_def)
next
  case (Suc left)
  from Suc.prems show ?case
  proof (cases rule: download_attempt_cases)
    case (stored st hs body t)
    then show ?thesis by (auto simp: complete_or_absent_def intro!: exI [of _ "pl_requests p"])
  next
    case (retried hint q)
    let ?q = "sleep_before_retry N pol attempt hint q"
    have "only_dest dest p ?q" "fs_node (fsys (pl_world ?q)) dest \<noteq> Some Dir"
      using retried(1) by (simp_all add: only_dest_def)
    with Suc.IH [OF retried(4)] retried(2) show ?thesis
      by (auto simp: complete_or_absent_def intro: only_dest_trans split: sum.splits)
        (metis Suc_leD)
  qed (auto simp: complete_or_absent_def)
qed

lemma norm_segs_snoc: "x \<noteq> ''..'' \<Longrightarrow> norm_segs acc (ps @ [x]) = norm_segs acc ps @ [x]"
  by (induction acc ps rule: norm_segs.induct) auto

lemma fs_key_parent:
  assumes "segs dest \<noteq> []" and "last (segs dest) \<noteq> ''..''"
  shows "fs_key f dest = fs_key f (path_parent dest) @ [last (segs dest)]"
proof -
  have "segs dest = butlast (segs dest) @ [last (segs dest)]" using assms(1) by simp
  then show ?thesis
    using norm_segs_snoc [OF assms(2), of "[]" "butlast (segs dest)"]
      norm_segs_snoc [OF assms(2), of "[]" "fs_cwd f @ butlast (segs dest)"]
    by (simp add: fs_key_def resolve_def path_parent_def del: append_butlast_last_id)
qed

text \<open>
  C31: a download is complete or absent.  After a download that succeeds, the destination holds
  exactly the body of a successful reply, of the expected size when one is known; after one that
  fails with a download error, there is nothing at the destination.  Either way no other file and
  nothing in the registry has changed, and at least one and at most as many requests as the policy
  allows were sent.
\<close>

theorem download_complete_or_absent:
  assumes "download_with_retry N pol url dest expected p = (r, p')" and "0 < max_attempts pol"
    and "fs_node (fsys (pl_world p)) dest \<noteq> Some Dir" and "segs dest \<noteq> []" and "last (segs dest) \<noteq> ''..''"
    and "r \<noteq> Inl (OSError ''EEXIST'')"
  shows "complete_or_absent N url dest expected p r p' \<and> db (pl_world p') = db (pl_world p) \<and>
    pl_requests p' \<le> pl_requests p + max_attempts pol \<and>
    (\<forall>k c t. k \<noteq> fs_key (fsys (pl_world p)) dest \<longrightarrow>
       (node_at (fsys (pl_world p')) k = Some (Reg c t) \<longleftrightarrow> node_at (fsys (pl_world p)) k = Some (Reg c t)))"
proof -
  let ?f = "fsys (pl_world p)"
  obtain x g where m: "key_mkdirs (fs_key ?f (path_parent dest)) ?f = (x, g)" by fastforce
  have "x = Inr ()"
  proof (cases x)
    case (Inl e)
    then have "e = OSError ''EEXIST''" using m by (auto simp: key_mkdirs_def split: if_splits)
    with Inl m assms(1,6) show ?thesis
      by (simp add: download_with_retry_def pl_fs_def fs_call_def fs_mkdirs_def)
  qed simp
  let ?q = "p\<lparr>pl_world := (pl_world p)\<lparr>fsys := g\<rparr>\<rparr>"
  obtain n where n: "max_attempts pol = Suc n" using assms(2) gr0_implies_Suc by blast
  have run: "download_attempts N pol url dest expected 1 (Suc n) ?q = (r, p')"
    using assms(1) m \<open>x = Inr ()\<close> n by (simp add: download_with_retry_def pl_fs_def fs_call_def fs_mkdirs_def)
  have cwd: "fs_cwd g = fs_cwd ?f" using fs_frame_mkdirs(1) [of "fs_key ?f (path_parent dest)" ?f] m by simp
  have "fs_key ?f dest \<notin> set (key_prefixes (fs_key ?f (path_parent dest)))"
    unfolding fs_key_parent [OF assms(4,5)] by (auto simp: key_prefixes_def dest: arg_cong [where f = length])
  then have "node_at g (fs_key ?f dest) = node_at ?f (fs_key ?f dest)"
    using m \<open>x = Inr ()\<close> by (auto simp: key_mkdirs_def node_at_fold_add_dir split: if_splits)
  then have "fs_node g dest \<noteq> Some Dir" using assms(3) cwd by (simp add: fs_node_def fs_key_def)
  with download_attempts_complete [OF run] cwd st.mkd_reg_iff [OF m] n show ?thesis
    by (cases r) (simp_all add: complete_or_absent_def only_dest_def fs_key_def)
qed


definition served_net :: net where
  "served_net = flaky_net\<lparr>http_get := (\<lambda>n url tok. if n = 0 then Transport else Response 200 [] ''abc'')\<rparr>"

definition staged_tmp :: path where
  "staged_tmp = Path True [''s'', ''x.tmp'']"

lemma served_download:
  "\<exists>p'. download_with_retry served_net DEFAULT_POLICY ''u'' staged_tmp (Some 3) (fresh_poller empty_fs) = (Inr (), p')"
  by (simp add: download_with_retry_def pl_fs_def fs_call_def fs_mkdirs_def key_mkdirs_def key_prefixes_def staged_tmp_def
      path_parent_def fs_key_def resolve_def fresh_poller_def empty_fs_def is_reg_def node_at_def DEFAULT_POLICY_def
      numeral_eq_Suc download_attempts.simps Let_def send_def served_net_def classify_status_def RETRYABLE_STATUS_CODES_def
      write_at_now_def draw_time_def fs_write_def cleanup_partial_def fs_unlink_def key_unlink_def
      add_dir_def key_put_def increment_counter_def sleep_before_retry_def fs_node_def)

theorem download_complete_or_absent_witness:
  "\<exists>p' t. download_with_retry served_net DEFAULT_POLICY ''u'' staged_tmp (Some 3) (fresh_poller empty_fs) = (Inr (), p') \<and>
     fs_node (fsys (pl_world p')) staged_tmp = Some (Reg ''abc'' t)"
proof -
  from served_download obtain p' where
    run: "download_with_retry served_net DEFAULT_POLICY ''u'' staged_tmp (Some 3) (fresh_poller empty_fs) = (Inr (), p')"
    by blast
  have "fs_node (fsys (pl_world (fresh_poller empty_fs))) staged_tmp \<noteq> Some Dir"
    by (simp add: fresh_poller_def empty_fs_def staged_tmp_def fs_node_def fs_key_def resolve_def node_at_def)
  with download_complete_or_absent [OF run] obtain n st hs body t where
    "http_get served_net n ''u'' None = Response st hs body" "fs_node (fsys (pl_world p')) staged_tmp = Some (Reg body t)"
    by (auto simp: complete_or_absent_def staged_tmp_def DEFAULT_POLICY_def)
  with run show ?thesis by (auto simp: served_net_def split: if_splits)
qed

end
