(* ===== verification/Py_Text.thy ===== *)
theory Py_Text
  imports Json
begin

section \<open>Reading integers and lines\<close>

text \<open>
  The lines of a text (\<open>str.splitlines\<close>) and Python's \<open>int\<close> of a text: white space around it, one sign, decimal digits with single underscores
  between them.  Digits beyond ASCII do not occur among the model's characters.
\<close>

definition digit_groups :: "string \<Rightarrow> bool" where
  "digit_groups s \<longleftrightarrow> list_all (\<lambda>g. g \<noteq> [] \<and> list_all ascii_digit g) (split_on (CHR ''_'') s)"

definition unsigned_val :: "string \<Rightarrow> int option" where
  "unsigned_val s = (if digit_groups s then Some (int (digits_val (filter (\<lambda>c. c \<noteq> CHR ''_'') s))) else None)"

definition read_int :: "string \<Rightarrow> int option" where
  "read_int s =
     (case py_strip s of
        [] \<Rightarrow> None
      | c # cs \<Rightarrow>
          if c = CHR ''-'' then map_option uminus (unsigned_val cs)
          else if c = CHR ''+'' then unsigned_val cs
          else unsigned_val (c # cs))"

lemma digit_facts:
  assumes "ascii_digit c"
  shows "\<not> py_space c" "c \<noteq> CHR ''_''" "c \<noteq> CHR ''-''" "c \<noteq> CHR ''+''"
  using assms by (auto simp: ascii_digit_def py_space_def Let_def)

lemma unsigned_val_nat_str: "unsigned_val (nat_str n) = Some (int n)"
proof -
  have d: "\<forall>c \<in> set (nat_str n). ascii_digit c" using nat_str_digits by blast
  then have "CHR ''_'' \<notin> set (nat_str n)" "filter (\<lambda>c. c \<noteq> CHR ''_'') (nat_str n) = nat_str n"
    using digit_facts(2) by (auto intro!: filter_True)
  with d show ?thesis
    by (simp add: unsigned_val_def digit_groups_def split_on_single list_all_iff digits_val_nat_str)
qed

lemma py_strip_id: "\<forall>c \<in> set s. \<not> py_space c \<Longrightarrow> py_strip s = s"
  unfolding py_strip_def by (rule strip_by_id) (cases s; auto)

theorem read_int_str [simp]: "read_int (int_str n) = Some n"
proof -
  have d: "\<forall>c \<in> set (nat_str k). ascii_digit c" for k using nat_str_digits by blast
  have sp: "\<not> py_space (CHR ''-'')" by (simp add: py_space_def)
  obtain c cs where c: "nat_str (nat n) = c # cs" using nat_str_nonempty by (cases "nat_str (nat n)") auto
  show ?thesis
  proof (cases "n < 0")
    case True
    have "\<forall>c \<in> set (CHR ''-'' # nat_str (nat (- n))). \<not> py_space c" using d digit_facts(1) sp by auto
    then show ?thesis
      using True by (simp add: read_int_def int_str_def py_strip_id unsigned_val_nat_str)
  next
    case False
    have "\<forall>c \<in> set (nat_str (nat n)). \<not> py_space c" using d digit_facts(1) by blast
    moreover have "ascii_digit c" using d [of "nat n"] c by simp
    ultimately show ?thesis
      using False digit_facts(3,4) [OF \<open>ascii_digit c\<close>] unsigned_val_nat_str [of "nat n"]
      by (simp add: read_int_def int_str_def py_strip_id c)
  qed
qed

subsection \<open>Lines\<close>

text \<open>\<open>str.splitlines()\<close>, on the line boundaries below code point 256.\<close>

definition line_break :: "char \<Rightarrow> bool" where
  "line_break c \<longleftrightarrow> (of_char c :: nat) \<in> set [10, 11, 12, 13, 28, 29, 30, 133]"

function splitlines :: "string \<Rightarrow> string list" where
  "splitlines s =
     (if s = [] then []
      else takeWhile (\<lambda>c. \<not> line_break c) s #
        (case dropWhile (\<lambda>c. \<not> line_break c) s of
           [] \<Rightarrow> []
         | [c] \<Rightarrow> []
         | c # d # r \<Rightarrow> if c = CHR 0x0D \<and> d = CHR 0x0A then splitlines r else splitlines (d # r)))"
  by pat_completeness auto
termination
proof (relation "measure length", goal_cases)
  case (2 s c cs d r)
  then show ?case using length_dropWhile_le [of "\<lambda>c. \<not> line_break c" s] by simp
next
  case (3 s c cs d r)
  then show ?case using length_dropWhile_le [of "\<lambda>c. \<not> line_break c" s] by simp
qed simp

declare splitlines.simps [simp del]

lemma splitlines_line:
  "\<forall>c \<in> set line. \<not> line_break c \<Longrightarrow> splitlines (line @ [CHR 0x0A]) = [line]"
  by (subst splitlines.simps) (simp add: takeWhile_append2 dropWhile_append2 line_break_def)

lemma splitlines_snoc:
  assumes "\<forall>c \<in> set line. \<not> line_break c" and "t = [] \<or> last t = CHR 0x0A"
  shows "splitlines (t @ line @ [CHR 0x0A]) = splitlines t @ [line]"
  using assms(2)
proof (induction t rule: splitlines.induct)
  case (1 s)
  let ?nb = "\<lambda>c. \<not> line_break c" and ?z = "line @ [CHR 0x0A]"
  show ?case
  proof (cases "s = []")
    case True
    then show ?thesis using splitlines_line [OF assms(1)] by (simp add: splitlines.simps [of "[]"])
  next
    case False
    with 1(3) have nl: "last s = CHR 0x0A" by simp
    have lb: "line_break (CHR 0x0A)" by (simp add: line_break_def)
    have mem: "CHR 0x0A \<in> set s" using False nl last_in_set [of s] by simp
    have tw: "takeWhile ?nb (s @ ?z) = takeWhile ?nb s" "dropWhile ?nb (s @ ?z) = dropWhile ?nb s @ ?z"
      using takeWhile_append1 [OF mem, of ?nb ?z] dropWhile_append1 [OF mem, of ?nb ?z] lb by simp_all
    obtain x xs where x: "dropWhile ?nb s = x # xs" using mem lb by (cases "dropWhile ?nb s") auto
    have "last s = last (x # xs)" using takeWhile_dropWhile_id [of ?nb s] x by (metis last_appendR list.distinct(1))
    with nl have last: "last (x # xs) = CHR 0x0A" by simp
    obtain d r where z: "?z = d # r" by (cases line) auto
    show ?thesis
    proof (cases xs)
      case Nil
      with last x tw z splitlines_line [OF assms(1)] False show ?thesis
        by (simp add: splitlines.simps [of "s @ d # r"] splitlines.simps [of s])
    next
      case (Cons e ys)
      show ?thesis
      proof (cases "x = CHR 0x0D \<and> e = CHR 0x0A")
        case True
        with last Cons have "ys = [] \<or> last ys = CHR 0x0A" by (auto split: if_splits)
        with 1(1) [OF False x Cons] True tw x Cons False show ?thesis
          by (simp add: splitlines.simps [of "s @ ?z"] splitlines.simps [of s])
      next
        case other: False
        with last Cons have "last (e # ys) = CHR 0x0A" by simp
        with 1(2) [OF False x Cons other] tw x Cons False other show ?thesis
          by (auto simp: splitlines.simps [of "s @ ?z"] splitlines.simps [of s])
      qed
    qed
  qed
qed


end
