(* ===== verification/Staging.thy ===== *)
theory Staging
  imports Graph Py_Text
begin

section \<open>Staging downloads (\<open>adapters/onedrive/client.py\<close>)\<close>

text \<open>
  From the candidates of a page to files in the staging folder: safe names, the resolution of
  download URLs, the quarantine of files whose size is unknown, the lifecycle journal and the
  handoff manifest the ingest reads.  Journal and manifest are files of JSON lines in the file
  store; a manifest line that is no flat JSON object raises, whatever its fault.
\<close>

subsection \<open>Names and addresses\<close>

definition staging_char :: "char \<Rightarrow> bool" where
  "staging_char c \<longleftrightarrow> ascii_upper c \<or> ascii_lower c \<or> ascii_digit c \<or> c \<in> set ''._-''"

definition safe_staging_basename :: "string \<Rightarrow> string" where
  "safe_staging_basename item_id =
     (let sanitized = strip_by (\<lambda>c. c \<in> set ''._-'') (sub_runs staging_char item_id) in
      if sanitized = [] then ''item'' else take 120 sanitized)"

definition unique_staging_basename :: "env \<Rightarrow> string \<Rightarrow> string list \<Rightarrow> string \<times> string list" where
  "unique_staging_basename E item_id used =
     (let base = safe_staging_basename item_id in
      if base \<notin> set used then (base, base # used)
      else let candidate = base @ ''-'' @ take 8 (sha256 E item_id) in (candidate, candidate # used))"

definition safe_extension :: "string \<Rightarrow> string" where
  "safe_extension name =
     (case path_suffix (path_of name) of
        [] \<Rightarrow> ''.bin''
      | d # ext \<Rightarrow>
          if d = CHR ''.'' \<and> ext \<noteq> [] \<and> length ext \<le> 16 \<and>
             list_all (\<lambda>c. ascii_upper c \<or> ascii_lower c \<or> ascii_digit c) ext
          then py_lower (d # ext) else ''.bin'')"

text \<open>\<open>urllib.parse.quote(s, safe="")\<close>: the UTF-8 bytes of the reserved characters, in hexadecimal.\<close>

definition hex_upper :: "nat \<Rightarrow> char" where
  "hex_upper n = (if n < 10 then char_of (48 + n) else char_of (55 + n))"

definition quote_byte :: "nat \<Rightarrow> string" where
  "quote_byte n = [CHR ''%'', hex_upper (n div 16), hex_upper (n mod 16)]"

definition quote_char :: "char \<Rightarrow> string" where
  "quote_char c =
     (let n = (of_char c :: nat) in
      if ascii_upper c \<or> ascii_lower c \<or> ascii_digit c \<or> c \<in> set ''_.-~'' then [c]
      else if n < 128 then quote_byte n
      else quote_byte (192 + n div 64) @ quote_byte (128 + n mod 64))"

definition url_quote :: "string \<Rightarrow> string" where
  "url_quote s = concat (map quote_char s)"

definition is_download_url_unreachable :: "int option \<Rightarrow> bool" where
  "is_download_url_unreachable st \<longleftrightarrow> st \<in> {Some 401, Some 403, Some 404}"

definition resolve_download_url_once ::
  "net \<Rightarrow> retry_policy \<Rightarrow> string \<Rightarrow> string \<Rightarrow> poller \<Rightarrow> (string option \<times> string) res \<times> poller" where
  "resolve_download_url_once N pol token item_id p =
     (case graph_get_json N pol (GRAPH_BASE @ ''/me/drive/items/'' @ url_quote item_id) token p of
        (Inr payload, p) \<Rightarrow>
          (case nonempty_str (conv N) (gget payload ''@microsoft.graph.downloadUrl'') of
             None \<Rightarrow> (Inr (None, ''ghost_missing_download_url_after_refresh''), p)
           | Some u \<Rightarrow> (Inr (Some u, ''download_url_refreshed''), p))
      | (Inl (GraphError m c st), p) \<Rightarrow>
          if st = Some 404 then (Inr (None, ''ghost_item_not_found_on_refresh''), p) else (Inl (GraphError m c st), p)
      | (Inl e, p) \<Rightarrow> (Inl e, p))"

subsection \<open>Lifecycle journal and handoff manifest\<close>

definition append_line :: "net \<Rightarrow> path \<Rightarrow> (string \<Rightarrow> jobject) \<Rightarrow> poller \<Rightarrow> unit res \<times> poller" where
  "append_line N file payload p =
     and_then (pl_fs (fs_mkdirs (path_parent file)) p) (\<lambda>_ p.
     (case draw_time (outside N) (pl_world p) of (now, w) \<Rightarrow>
        pl_fs (fs_append file (json_dumps '', '' '': '' (payload (iso (outside N) now)) @ [CHR 0x0A]) now)
          (p\<lparr>pl_world := w\<rparr>)))"

definition append_lifecycle_event ::
  "net \<Rightarrow> path \<Rightarrow> string \<Rightarrow> string \<Rightarrow> string \<Rightarrow> path \<Rightarrow> poller \<Rightarrow> unit res \<times> poller" where
  "append_lifecycle_event N journal event account item file p =
     and_then (append_line N journal (\<lambda>now. [(''account'', JText account), (''event'', JText event),
         (''item_id'', JText item), (''path'', JText (path_str file)), (''ts'', JText now)]) p) (\<lambda>_ p.
     (Inr (), increment_counter ''lifecycle_events_written_total'' p))"

record downloaded_handoff =
  dh_account_name :: string
  dh_onedrive_id :: string
  dh_original_filename :: string
  dh_relative_path :: string
  dh_modified_time :: string
  dh_size_bytes :: jval
  dh_staging_path :: path

definition boundary_manifest_path_for_account :: "path \<Rightarrow> string \<Rightarrow> path" where
  "boundary_manifest_path_for_account staging_root account =
     child (child staging_root account) ''_boundary_handoff.jsonl''"

definition json_size :: "int option \<Rightarrow> jval" where
  "json_size s = (case s of None \<Rightarrow> JNull | Some n \<Rightarrow> JInt n)"

definition handoff_of :: "remote_candidate \<Rightarrow> path \<Rightarrow> downloaded_handoff" where
  "handoff_of c file = \<lparr>dh_account_name = rc_account_name c, dh_onedrive_id = rc_item_id c,
     dh_original_filename = rc_name c, dh_relative_path = rc_relative_path c,
     dh_modified_time = rc_modified_time c, dh_size_bytes = json_size (rc_size_bytes c), dh_staging_path = file\<rparr>"

definition handoff_payload :: "downloaded_handoff \<Rightarrow> jobject" where
  "handoff_payload h = [(''account_name'', JText (dh_account_name h)), (''modified_time'', JText (dh_modified_time h)),
     (''onedrive_id'', JText (dh_onedrive_id h)), (''original_filename'', JText (dh_original_filename h)),
     (''relative_path'', JText (dh_relative_path h)), (''size_bytes'', dh_size_bytes h),
     (''staging_path'', JText (path_str (dh_staging_path h)))]"

definition append_boundary_handoff_entry ::
  "net \<Rightarrow> path \<Rightarrow> remote_candidate \<Rightarrow> path \<Rightarrow> poller \<Rightarrow> unit res \<times> poller" where
  "append_boundary_handoff_entry N manifest c file p = append_line N manifest (\<lambda>_. handoff_payload (handoff_of c file)) p"

text \<open>\<open>str(payload.get(key, ""))\<close> of a JSON value.\<close>

fun json_py_str :: "jval option \<Rightarrow> string" where
  "json_py_str None = []"
| "json_py_str (Some JNull) = ''None''"
| "json_py_str (Some (JBool b)) = (if b then ''True'' else ''False'')"
| "json_py_str (Some (JInt i)) = int_str i"
| "json_py_str (Some (JText s)) = s"

definition handoff_row :: "jobject \<Rightarrow> downloaded_handoff" where
  "handoff_row b =
     (let str = (\<lambda>k. json_py_str (jget b k)) in
      \<lparr>dh_account_name = str ''account_name'', dh_onedrive_id = str ''onedrive_id'',
       dh_original_filename = str ''original_filename'', dh_relative_path = str ''relative_path'',
       dh_modified_time = str ''modified_time'',
       dh_size_bytes = (case jget b ''size_bytes'' of None \<Rightarrow> JNull | Some v \<Rightarrow> v),
       dh_staging_path = path_of (str ''staging_path'')\<rparr>)"

fun load_rows :: "string list \<Rightarrow> downloaded_handoff list res" where
  "load_rows [] = Inr []"
| "load_rows (raw # raws) =
     (if py_strip raw = [] then load_rows raws
      else (case json_loads raw of
              None \<Rightarrow> Inl (ValueError ''malformed handoff entry'')
            | Some b \<Rightarrow> map_sum id (Cons (handoff_row b)) (load_rows raws)))"

definition load_boundary_handoff_candidates :: "path option \<Rightarrow> fs \<Rightarrow> downloaded_handoff list res" where
  "load_boundary_handoff_candidates manifest f =
     (case manifest of
        None \<Rightarrow> Inr []
      | Some m \<Rightarrow>
          if \<not> fs_exists f m then Inr []
          else (case fs_read m f of (Inl e, _) \<Rightarrow> Inl e | (Inr text, _) \<Rightarrow> load_rows (splitlines text)))"

subsection \<open>Downloading the candidates of a page\<close>

record download_batch =
  db_paths :: "path list"
  db_ghosts :: counts
  db_rows :: "downloaded_handoff list"
  db_used :: "string list"

definition ghost :: "string \<Rightarrow> download_batch \<Rightarrow> download_batch" where
  "ghost reason b = b\<lparr>db_ghosts := record_ghost_reason reason 1 (db_ghosts b)\<rparr>"

definition initial_download_url ::
  "net \<Rightarrow> retry_policy \<Rightarrow> string \<Rightarrow> remote_candidate \<Rightarrow> download_batch \<Rightarrow> poller
     \<Rightarrow> (string option \<times> download_batch) res \<times> poller" where
  "initial_download_url N pol token c b p =
     (if present (rc_download_url c) then (Inr (rc_download_url c, b), p)
      else
        let b = ghost ''delta_file_missing_download_url'' b in
        and_then (resolve_download_url_once N pol token (rc_item_id c) p) (\<lambda>(u, reason) p.
          (Inr (u, if u = None then ghost reason b else b), p)))"

text \<open>
  The download with one refresh of the URL: whether the file is there, or an item whose URL stays
  unreachable.
\<close>

definition refetch_candidate ::
  "net \<Rightarrow> retry_policy \<Rightarrow> remote_candidate \<Rightarrow> string \<Rightarrow> path \<Rightarrow> download_batch \<Rightarrow> poller
     \<Rightarrow> (bool \<times> download_batch) res \<times> poller" where
  "refetch_candidate N pol c url tmp b p =
     (case download_with_retry N pol url tmp (rc_size_bytes c) p of
        (Inr _, p) \<Rightarrow> (Inr (True, b), p)
      | (Inl (DownloadError m e st), p) \<Rightarrow>
          and_then (pl_fs (fs_unlink tmp) p) (\<lambda>_ p.
          if is_download_url_unreachable st
          then (Inr (False, ghost ''ghost_download_unreachable_after_refresh'' b), p)
          else (Inl (DownloadError m e st), p))
      | (Inl x, p) \<Rightarrow> (Inl x, p))"

definition fetch_candidate ::
  "net \<Rightarrow> retry_policy \<Rightarrow> string \<Rightarrow> remote_candidate \<Rightarrow> string \<Rightarrow> path \<Rightarrow> download_batch \<Rightarrow> poller
     \<Rightarrow> (bool \<times> download_batch) res \<times> poller" where
  "fetch_candidate N pol token c url tmp b p =
     (case download_with_retry N pol url tmp (rc_size_bytes c) p of
        (Inr _, p) \<Rightarrow> (Inr (True, b), p)
      | (Inl (DownloadError m e st), p) \<Rightarrow>
          and_then (pl_fs (fs_unlink tmp) p) (\<lambda>_ p.
          if \<not> is_download_url_unreachable st then (Inl (DownloadError m e st), p)
          else and_then (resolve_download_url_once N pol token (rc_item_id c) p) (\<lambda>(u, reason) p.
            case u of
              None \<Rightarrow> (Inr (False, ghost reason b), p)
            | Some url' \<Rightarrow> refetch_candidate N pol c url' tmp b p))
      | (Inl x, p) \<Rightarrow> (Inl x, p))"

definition finish_candidate ::
  "net \<Rightarrow> string \<Rightarrow> path \<Rightarrow> path \<Rightarrow> string \<Rightarrow> remote_candidate \<Rightarrow> path \<Rightarrow> string \<Rightarrow> download_batch \<Rightarrow> poller
     \<Rightarrow> download_batch res \<times> poller" where
  "finish_candidate N mode target manifest account c tmp name b p =
     (let journal = child target ''_lifecycle.journal.jsonl''; final = child target name;
          quarantine = child (child target ''_quarantine'') name in
      and_then (append_lifecycle_event N journal ''download_completed'' account (rc_item_id c) tmp p) (\<lambda>_ p.
      if rc_size_bytes c = None \<and> mode = ''tolerant'' then
        and_then (pl_fs (fs_rename tmp quarantine) p) (\<lambda>_ p.
        and_then (append_lifecycle_event N journal ''download_quarantined'' account (rc_item_id c) quarantine
            (increment_counter ''integrity_quarantined_total'' p)) (\<lambda>_ p.
        (Inr (ghost ''integrity_missing_expected_size_quarantined'' b), p)))
      else
        and_then (pl_fs (fs_rename tmp final) p) (\<lambda>_ p.
        and_then (append_lifecycle_event N journal ''ready_for_hash'' account (rc_item_id c) final p) (\<lambda>_ p.
        and_then (append_boundary_handoff_entry N manifest c final p) (\<lambda>_ p.
        (Inr (b\<lparr>db_paths := db_paths b @ [final], db_rows := db_rows b @ [handoff_of c final]\<rparr>), p))))))"

definition stage_candidate ::
  "net \<Rightarrow> retry_policy \<Rightarrow> string \<Rightarrow> string \<Rightarrow> path \<Rightarrow> path \<Rightarrow> string \<Rightarrow> remote_candidate \<Rightarrow> download_batch \<Rightarrow> poller
     \<Rightarrow> download_batch res \<times> poller" where
  "stage_candidate N pol token mode target manifest account c b p =
     (case unique_staging_basename (outside N) (rc_item_id c) (db_used b) of (safe_base, used) \<Rightarrow>
      let b = b\<lparr>db_used := used\<rparr>;
          tmp = child target (safe_base @ ''.tmp'');
          p = count_if (rc_size_bytes c = None) ''integrity_uncertain_total'' p
      in if rc_size_bytes c = None \<and> mode = ''strict''
         then (Inr (ghost ''integrity_missing_expected_size_blocked'' b),
           increment_counter ''integrity_strict_blocked_total'' p)
         else
           and_then (append_lifecycle_event N (child target ''_lifecycle.journal.jsonl'') ''download_started'' account
               (rc_item_id c) tmp p) (\<lambda>_ p.
           and_then (initial_download_url N pol token c b p) (\<lambda>(u, b) p.
           case u of
             None \<Rightarrow> (Inr b, p)
           | Some url \<Rightarrow>
               and_then (fetch_candidate N pol token c url tmp b p) (\<lambda>(got, b) p.
               if got then finish_candidate N mode target manifest account c tmp (safe_base @ safe_extension (rc_name c)) b p
               else (Inr b, p)))))"

fun download_loop ::
  "net \<Rightarrow> retry_policy \<Rightarrow> string \<Rightarrow> string \<Rightarrow> path \<Rightarrow> path \<Rightarrow> string \<Rightarrow> int \<Rightarrow> int \<Rightarrow> remote_candidate list
     \<Rightarrow> download_batch \<Rightarrow> poller \<Rightarrow> download_batch res \<times> poller" where
  "download_loop N pol token mode target manifest account limit index [] b p = (Inr b, p)"
| "download_loop N pol token mode target manifest account limit index (c # cs) b p =
     (if limit > 0 \<and> index \<ge> limit then (Inr b, p)
      else and_then (stage_candidate N pol token mode target manifest account c b p) (\<lambda>b p.
        download_loop N pol token mode target manifest account limit (index + 1) cs b p))"

definition download_candidates ::
  "net \<Rightarrow> retry_policy \<Rightarrow> string \<Rightarrow> string \<Rightarrow> path \<Rightarrow> string \<Rightarrow> int option \<Rightarrow> bool \<Rightarrow> remote_candidate list \<Rightarrow> poller
     \<Rightarrow> download_batch res \<times> poller" where
  "download_candidates N pol token mode staging_root account max_downloads reset_manifest cs p =
     (let target = child staging_root account;
          manifest = boundary_manifest_path_for_account staging_root account;
          limit = (case max_downloads of None \<Rightarrow> 0 | Some n \<Rightarrow> n)
      in and_then (pl_fs (fs_mkdirs target) p) (\<lambda>_ p.
         and_then (pl_fs (fs_mkdirs (child target ''_quarantine'')) p) (\<lambda>_ p.
         and_then (if reset_manifest then pl_fs (fs_unlink manifest) p else (Inr (), p)) (\<lambda>_ p.
         download_loop N pol token mode target manifest account limit 0 cs
           \<lparr>db_paths = [], db_ghosts = [], db_rows = [], db_used = []\<rparr> p))))"

subsection \<open>The manifest round trip\<close>

definition printable :: "char \<Rightarrow> bool" where
  "printable c \<longleftrightarrow> 32 \<le> (of_char c :: nat) \<and> (of_char c :: nat) \<le> 126"

lemma printable_no_break: "printable c \<Longrightarrow> \<not> line_break c"
  by (auto simp: printable_def line_break_def)

lemma hex_digit_printable: "n < 16 \<Longrightarrow> printable (hex_digit n)"
  by (auto simp: printable_def hex_digit_def)

lemma printable_literals:
  "list_all printable ''{}, : null true false-bfnrtu0''" "printable jquote" "printable jback"
  by (simp_all add: printable_def)

lemma json_char_printable: "c' \<in> set (json_char c) \<Longrightarrow> printable c'"
proof -
  have "of_char c < (256 :: nat)" by simp
  then have "of_char c div 16 < (16 :: nat)" by (simp add: div_less_iff_less_mult)
  then have "printable (hex_digit (of_char c div 16))" "printable (hex_digit (of_char c mod 16))"
    by (simp_all add: hex_digit_printable)
  then show "c' \<in> set (json_char c) \<Longrightarrow> printable c'"
    using printable_literals by (auto simp: json_char_def Let_def split: if_splits) (auto simp: printable_def)
qed

lemma digits_printable: "ascii_digit c \<Longrightarrow> printable c"
  by (auto simp: ascii_digit_def printable_def Let_def)

lemma json_str_printable: "c \<in> set (json_str t) \<Longrightarrow> printable c"
  using json_char_printable printable_literals by (auto simp: json_str_def)

lemma json_val_printable: "c \<in> set (json_val v) \<Longrightarrow> printable c"
  using printable_literals
  by (cases v) (auto simp: json_str_printable int_str_def dest: nat_str_digits digits_printable split: if_splits)

lemma json_dumps_printable: "c \<in> set (json_dumps '', '' '': '' kvs) \<Longrightarrow> printable c"
  using set_join_with [of "'', ''" "map (\<lambda>(k, v). json_str k @ '': '' @ json_val v) kvs"] printable_literals
  by (auto simp: json_dumps_def dest!: subsetD intro: json_str_printable json_val_printable)

lemma load_rows_snoc:
  assumes "load_rows raws = Inr rows" and "json_loads raw = Some b" and "py_strip raw \<noteq> []"
  shows "load_rows (raws @ [raw]) = Inr (rows @ [handoff_row b])"
  using assms(1)
proof (induction raws arbitrary: rows)
  case (Cons r raws)
  then show ?case
    by (cases "load_rows raws") (auto split: if_splits option.splits)
qed (use assms(2,3) in simp)

lemma dumps_not_blank: "py_strip (json_dumps isep ksep kvs) \<noteq> []"
proof -
  have "\<not> py_space (CHR ''{'')" by (simp add: py_space_def)
  then show ?thesis
    by (auto simp: json_dumps_def py_strip_def strip_by_def dropWhile_eq_Nil_conv)
qed

lemma handoff_row_payload: "wf_path (dh_staging_path h) \<Longrightarrow> handoff_row (handoff_payload h) = h"
  by (cases h) (simp add: handoff_row_def handoff_payload_def jget_def Let_def)

definition manifest_text :: "fs \<Rightarrow> path \<Rightarrow> string" where
  "manifest_text f m = (case fs_node f m of Some (Reg c t) \<Rightarrow> c | _ \<Rightarrow> [])"

lemma load_text:
  "fs_node f m \<noteq> Some Dir \<Longrightarrow> load_boundary_handoff_candidates (Some m) f = load_rows (splitlines (manifest_text f m))"
  by (auto simp: load_boundary_handoff_candidates_def manifest_text_def fs_exists_def fs_read_def
      splitlines.simps [of "[]"] split: option.split node.split)

lemma append_line_text:
  assumes "append_line N m payload p = (Inr (), p')"
  shows "fs_node (fsys (pl_world p')) m \<noteq> Some Dir \<and> (\<exists>now. manifest_text (fsys (pl_world p')) m =
    manifest_text (fsys (pl_world p)) m @ json_dumps '', '' '': '' (payload now) @ [CHR 0x0A])"
proof -
  let ?f = "fsys (pl_world p)" and ?k = "fs_key (fsys (pl_world p)) m"
  obtain x g where g: "key_mkdirs (fs_key ?f (path_parent m)) ?f = (x, g)" by fastforce
  have cwd: "fs_key g m = ?k"
    using fs_frame_mkdirs(1) [of "fs_key ?f (path_parent m)" ?f] unfolding g by (simp add: fs_key_def)
  have same: "manifest_text g m = manifest_text ?f m"
    using st.mkd_cases [OF g, of ?k] cwd by (auto simp: manifest_text_def fs_node_def)
  have "fs_node g m \<noteq> Some Dir"
    "\<exists>now t. fsys (pl_world p') = key_put ?k (Reg (manifest_text g m @ json_dumps '', '' '': '' (payload now) @ [CHR 0x0A]) t) g"
    using assms g cwd
    by (cases x; auto simp: append_line_def pl_fs_def fs_call_def fs_mkdirs_def draw_time_def fs_append_def fs_write_def
        manifest_text_def split: if_splits)+
  moreover from this(1) have "?k \<noteq> []" by (auto simp: fs_node_def cwd)
  ultimately show ?thesis
    using cwd same by (auto simp: manifest_text_def fs_node_def fs_key_def)
qed

text \<open>
  C32: what the download stage hands over is what the ingest reads.  Appending the entry of a
  downloaded candidate to a manifest of complete lines makes the manifest readable with exactly one
  row more, at its end: the candidate's account, id, name, folder, time and size, and the staged
  path, whatever characters the names contain.
\<close>

theorem handoff_manifest_round_trip:
  assumes "append_boundary_handoff_entry N m c file p = (Inr (), p')" and "wf_path file"
    and "fs_node (fsys (pl_world p)) m \<noteq> Some Dir"
    and "load_boundary_handoff_candidates (Some m) (fsys (pl_world p)) = Inr rows"
    and "manifest_text (fsys (pl_world p)) m = [] \<or> last (manifest_text (fsys (pl_world p)) m) = CHR 0x0A"
  shows "load_boundary_handoff_candidates (Some m) (fsys (pl_world p')) = Inr (rows @ [handoff_of c file]) \<and>
    last (manifest_text (fsys (pl_world p')) m) = CHR 0x0A"
proof -
  let ?l = "json_dumps '', '' '': '' (handoff_payload (handoff_of c file))" and ?t = "manifest_text (fsys (pl_world p)) m"
  have "fs_node (fsys (pl_world p')) m \<noteq> Some Dir" and t': "manifest_text (fsys (pl_world p')) m = ?t @ ?l @ [CHR 0x0A]"
    using append_line_text assms(1) unfolding append_boundary_handoff_entry_def by blast+
  moreover have "splitlines (?t @ ?l @ [CHR 0x0A]) = splitlines ?t @ [?l]"
    using splitlines_snoc [OF _ assms(5)] json_dumps_printable printable_no_break by blast
  moreover have "load_rows (splitlines ?t @ [?l]) = Inr (rows @ [handoff_of c file])"
    using load_rows_snoc [OF _ json_round_trip [OF good_seps_default] dumps_not_blank] assms(3,4)
      handoff_row_payload [of "handoff_of c file"] assms(2)
    by (simp add: load_text handoff_of_def)
  ultimately show ?thesis by (simp add: load_text)
qed

definition handed_over :: remote_candidate where
  "handed_over = \<lparr>rc_account_name = ''ann'', rc_item_id = ''i1'', rc_name = ''a'' @ [jquote, CHR 0x0A], rc_relative_path = ''/p'',
     rc_size_bytes = Some 3, rc_raw_modified_time = None, rc_modified_time = ''m'', rc_download_url = None\<rparr>"

theorem handoff_manifest_round_trip_witness:
  "\<exists>p'. append_boundary_handoff_entry flaky_net (Path True [''s'', ''m'']) handed_over staged_tmp (fresh_poller empty_fs) = (Inr (), p') \<and>
     load_boundary_handoff_candidates (Some (Path True [''s'', ''m''])) (fsys (pl_world p')) = Inr [handoff_of handed_over staged_tmp]"
proof -
  let ?m = "Path True [''s'', ''m'']" and ?p = "fresh_poller empty_fs"
  have node: "fs_node (fsys (pl_world ?p)) ?m = None"
    by (simp add: fresh_poller_def empty_fs_def fs_node_def fs_key_def resolve_def node_at_def)
  obtain p' where run: "append_boundary_handoff_entry flaky_net ?m handed_over staged_tmp ?p = (Inr (), p')"
    by (simp add: append_boundary_handoff_entry_def append_line_def pl_fs_def fs_call_def fs_mkdirs_def key_mkdirs_def
        key_prefixes_def path_parent_def fs_key_def resolve_def fresh_poller_def empty_fs_def is_reg_def node_at_def
        draw_time_def fs_append_def fs_write_def add_dir_def key_put_def fs_node_def)
  have "load_boundary_handoff_candidates (Some ?m) (fsys (pl_world ?p)) = Inr []" "manifest_text (fsys (pl_world ?p)) ?m = []"
    using node by (simp_all add: load_boundary_handoff_candidates_def fs_exists_def manifest_text_def)
  with handoff_manifest_round_trip [OF run] node run show ?thesis
    by (auto simp: staged_tmp_def wf_path_def seg_ok_def)
qed

end
