(* ===== verification/Live_Photo.thy ===== *)
theory Live_Photo
  imports World
begin

section \<open>Live photo pairing (\<open>live_photo.py\<close>)\<close>

text \<open>
  The deferred queue that pairs a photo with its video: same account, same stem, capture times
  within the tolerance, nearest first.  Times are microseconds; \<open>from_iso_us\<close> of the environment
  is \<open>datetime.fromisoformat(\<dots>).astimezone(UTC)\<close>, \<open>None\<close> where it raises.
\<close>

definition PHOTO_EXTENSIONS :: "string list" where
  "PHOTO_EXTENSIONS = [''.heic'', ''.jpg'', ''.jpeg'', ''.png'']"

definition VIDEO_EXTENSIONS :: "string list" where
  "VIDEO_EXTENSIONS = [''.mov'', ''.mp4'', ''.m4v'']"

record live_photo_heuristics =
  h_capture_tolerance_seconds :: int
  h_stem_mode :: string
  h_component_order :: string
  h_conflict_policy :: string

definition default_heuristics :: live_photo_heuristics where
  "default_heuristics = \<lparr>h_capture_tolerance_seconds = 3, h_stem_mode = ''exact_stem'',
     h_component_order = ''photo_first'', h_conflict_policy = ''nearest_capture_time''\<rparr>"

record live_photo_candidate =
  lc_account :: string
  lc_onedrive_id :: string
  lc_filename :: string
  lc_captured_at :: string

record live_photo_pair =
  pr_account :: string
  pr_stem :: string
  pr_photo_onedrive_id :: string
  pr_video_onedrive_id :: string

record unresolved_row =
  ur_account :: string
  ur_onedrive_id :: string
  ur_filename :: string
  ur_component :: string
  ur_stem :: string
  ur_captured_at :: string
  ur_queued_at :: string
  ur_age_seconds :: int

record queued =
  q_candidate :: live_photo_candidate
  q_component :: string
  q_stem :: string
  q_captured_at :: int
  q_queued_at :: int

definition enforce_v1_defaults :: "live_photo_heuristics \<Rightarrow> unit res" where
  "enforce_v1_defaults h =
     (if h_capture_tolerance_seconds h \<noteq> 3
      then Inl (LivePhotoError ''V1 runtime accepts only live_photo_capture_tolerance_seconds=3'')
      else if h_stem_mode h \<noteq> ''exact_stem''
      then Inl (LivePhotoError ''V1 runtime accepts only live_photo_stem_mode=exact_stem'')
      else if h_component_order h \<noteq> ''photo_first''
      then Inl (LivePhotoError ''V1 runtime accepts only live_photo_component_order=photo_first'')
      else if h_conflict_policy h \<noteq> ''nearest_capture_time''
      then Inl (LivePhotoError ''V1 runtime accepts only live_photo_conflict_policy=nearest_capture_time'')
      else Inr ())"

definition classify_component :: "string \<Rightarrow> string option" where
  "classify_component filename =
     (let ext = py_lower (path_suffix (path_of filename)) in
      if ext \<in> set PHOTO_EXTENSIONS then Some ''photo''
      else if ext \<in> set VIDEO_EXTENSIONS then Some ''video'' else None)"

definition stem_of :: "string \<Rightarrow> string" where
  "stem_of filename = path_stem (path_of filename)"

definition parse_iso :: "env \<Rightarrow> string \<Rightarrow> int res" where
  "parse_iso E v =
     (case from_iso_us E (replace_str ''Z'' ''+00:00'' v) of
        Some t \<Rightarrow> Inr t | None \<Rightarrow> Inl (ValueError ''Invalid isoformat string''))"

definition within_tolerance :: "int \<Rightarrow> int \<Rightarrow> int \<Rightarrow> bool" where
  "within_tolerance a b tolerance_seconds \<longleftrightarrow> abs (a - b) \<le> tolerance_seconds * 1000000"

text \<open>\<open>min(\<dots>, key=\<dots>)\<close>: the first element with the least key.\<close>

fun first_min :: "('a \<Rightarrow> int) \<Rightarrow> 'a \<Rightarrow> 'a list \<Rightarrow> 'a" where
  "first_min key best [] = best"
| "first_min key best (x # xs) = first_min key (if key x < key best then x else best) xs"

definition eligible :: "live_photo_heuristics \<Rightarrow> live_photo_candidate \<Rightarrow> string \<Rightarrow> string \<Rightarrow> int
    \<Rightarrow> queued list \<Rightarrow> queued list" where
  "eligible h cand part stem t q =
     (let other = (if part = ''photo'' then ''video'' else ''photo'') in
      filter (\<lambda>x. lc_account (q_candidate x) = lc_account cand \<and> q_stem x = stem \<and>
        q_component x = other \<and> within_tolerance (q_captured_at x) t (h_capture_tolerance_seconds h)) q)"

definition pair_queue_ingest ::
  "env \<Rightarrow> live_photo_heuristics \<Rightarrow> live_photo_candidate \<Rightarrow> int \<Rightarrow> queued list
     \<Rightarrow> live_photo_pair option res \<times> queued list" where
  "pair_queue_ingest E h cand now q =
     (case classify_component (lc_filename cand) of
        None \<Rightarrow> (Inr None, q)
      | Some part \<Rightarrow>
          (case parse_iso E (lc_captured_at cand) of
             Inl e \<Rightarrow> (Inl e, q)
           | Inr t \<Rightarrow>
               (let stem = stem_of (lc_filename cand) in
                case eligible h cand part stem t q of
                  [] \<Rightarrow> (Inr None, q @ [\<lparr>q_candidate = cand, q_component = part, q_stem = stem,
                                       q_captured_at = t, q_queued_at = now\<rparr>])
                | x # xs \<Rightarrow>
                    (let c = first_min (\<lambda>y. abs (q_captured_at y - t)) x xs;
                         other_id = lc_onedrive_id (q_candidate c)
                     in (Inr (Some \<lparr>pr_account = lc_account cand, pr_stem = stem,
                           pr_photo_onedrive_id = (if part = ''photo'' then lc_onedrive_id cand else other_id),
                           pr_video_onedrive_id = (if part = ''photo'' then other_id else lc_onedrive_id cand)\<rparr>),
                         remove1 c q)))))"

definition age_of :: "int \<Rightarrow> queued \<Rightarrow> int" where
  "age_of now x = max 0 ((now - q_queued_at x) div 1000000)"

definition unresolved_of :: "env \<Rightarrow> int \<Rightarrow> queued \<Rightarrow> unresolved_row" where
  "unresolved_of E now x =
     \<lparr>ur_account = lc_account (q_candidate x), ur_onedrive_id = lc_onedrive_id (q_candidate x),
      ur_filename = lc_filename (q_candidate x), ur_component = q_component x, ur_stem = q_stem x,
      ur_captured_at = lc_captured_at (q_candidate x), ur_queued_at = iso E (q_queued_at x),
      ur_age_seconds = age_of now x\<rparr>"

definition unresolved_key :: "unresolved_row \<Rightarrow> string \<times> string \<times> string" where
  "unresolved_key r = (ur_account r, ur_stem r, ur_queued_at r)"

definition unresolved_diagnostics :: "env \<Rightarrow> int \<Rightarrow> queued list \<Rightarrow> unresolved_row list" where
  "unresolved_diagnostics E now q = sort_key unresolved_key (map (unresolved_of E now) q)"

definition pop_aged_unresolved ::
  "env \<Rightarrow> int \<Rightarrow> int \<Rightarrow> queued list \<Rightarrow> unresolved_row list \<times> queued list" where
  "pop_aged_unresolved E now max_age q =
     (sort_key unresolved_key (map (unresolved_of E now) (filter (\<lambda>x. age_of now x \<ge> max_age) q)),
      filter (\<lambda>x. \<not> age_of now x \<ge> max_age) q)"

section \<open>Live photo properties\<close>

lemma first_min_in: "first_min key b xs \<in> insert b (set xs)"
proof (induction xs arbitrary: b)
  case (Cons x xs)
  from Cons [of "if key x < key b then x else b"] show ?case by (auto split: if_splits)
qed simp

lemma first_min_le: "x \<in> insert b (set xs) \<Longrightarrow> key (first_min key b xs) \<le> key x"
proof (induction xs arbitrary: b x)
  case (Cons y ys)
  let ?b = "if key y < key b then y else b"
  have "key (first_min key ?b ys) \<le> key ?b" using Cons.IH by simp
  moreover have "key ?b \<le> key y" "key ?b \<le> key b" by auto
  ultimately show ?case using Cons by fastforce
qed simp

lemma classify_cases: "classify_component f = Some c \<Longrightarrow> c = ''photo'' \<or> c = ''video''"
  by (auto simp: classify_component_def Let_def split: if_splits)

text \<open>Two queued candidates that should have been paired.\<close>

definition matching :: "live_photo_heuristics \<Rightarrow> queued \<Rightarrow> queued \<Rightarrow> bool" where
  "matching h x y \<longleftrightarrow> lc_account (q_candidate x) = lc_account (q_candidate y) \<and> q_stem x = q_stem y \<and>
     q_component x \<noteq> q_component y \<and>
     within_tolerance (q_captured_at x) (q_captured_at y) (h_capture_tolerance_seconds h)"

definition queue_ok :: "live_photo_heuristics \<Rightarrow> queued list \<Rightarrow> bool" where
  "queue_ok h q \<longleftrightarrow> list_all (\<lambda>x. q_component x = ''photo'' \<or> q_component x = ''video'') q \<and>
     list_all (\<lambda>x. list_all (\<lambda>y. \<not> matching h x y) q) q"

lemma matching_sym: "matching h x y = matching h y x"
  by (auto simp: matching_def within_tolerance_def abs_minus_commute)

lemma eligible_matching:
  assumes "part = ''photo'' \<or> part = ''video''" "q_component x = ''photo'' \<or> q_component x = ''video''"
    and "x \<in> set q" "matching h x \<lparr>q_candidate = cand, q_component = part, q_stem = stem, q_captured_at = t, q_queued_at = n\<rparr>"
  shows "x \<in> set (eligible h cand part stem t q)"
  using assms by (auto simp: eligible_def matching_def Let_def)

lemma queue_ok_snoc:
  assumes "queue_ok h q" "q_component x = ''photo'' \<or> q_component x = ''video''"
    and "\<And>y. y \<in> set q \<Longrightarrow> \<not> matching h y x" "\<not> matching h x x"
  shows "queue_ok h (q @ [x])"
proof -
  have "\<not> matching h x y" if "y \<in> set q" for y using assms(3) [OF that] matching_sym by blast
  with assms show ?thesis by (simp add: queue_ok_def list_all_iff)
qed

lemma queue_ok_remove1: "queue_ok h q \<Longrightarrow> queue_ok h (remove1 x q)"
  using set_remove1_subset [of x q] by (auto simp: queue_ok_def list_all_iff)

lemma queue_ok_ingest:
  assumes "queue_ok h q"
  shows "queue_ok h (snd (pair_queue_ingest E h cand now q))"
proof (cases "classify_component (lc_filename cand)")
  case (Some part)
  note part = classify_cases [OF Some]
  show ?thesis
  proof (cases "parse_iso E (lc_captured_at cand)")
    case (Inr t)
    let ?stem = "stem_of (lc_filename cand)"
    let ?new = "\<lparr>q_candidate = cand, q_component = part, q_stem = ?stem, q_captured_at = t, q_queued_at = now\<rparr>"
    show ?thesis
    proof (cases "eligible h cand part ?stem t q")
      case Nil
      then have "\<not> matching h x ?new" if "x \<in> set q" for x
        using eligible_matching [OF part _ that, of h cand ?stem t now] assms that
        by (auto simp: queue_ok_def list_all_iff)
      moreover have "\<not> matching h ?new ?new" by (simp add: matching_def)
      ultimately show ?thesis
        using queue_ok_snoc [OF assms, of ?new] part Some Inr Nil
        by (simp add: pair_queue_ingest_def)
    next
      case (Cons x xs)
      with assms Some Inr show ?thesis
        by (simp add: pair_queue_ingest_def Let_def queue_ok_remove1)
    qed
  qed (use assms Some in \<open>simp add: pair_queue_ingest_def\<close>)
qed (use assms in \<open>simp add: pair_queue_ingest_def\<close>)

text \<open>
  The queue never holds two candidates that the heuristics would pair: starting empty, every
  candidate is either not a photo or video, queued with no partner present, or paired at once.
\<close>

theorem pair_queue_never_holds_a_match:
  "queue_ok h (fold (\<lambda>(cand, now) q. snd (pair_queue_ingest E h cand now q)) cands [])"
proof -
  have "queue_ok h q \<Longrightarrow> queue_ok h (fold (\<lambda>(cand, now) q. snd (pair_queue_ingest E h cand now q)) cands q)" for q
    by (induction cands arbitrary: q) (auto simp: queue_ok_ingest)
  then show ?thesis by (simp add: queue_ok_def)
qed

text \<open>
  A reported pair consists of the new candidate and a queued counterpart of the same
  account and stem, of the other component, within the tolerance and nearest in capture time among
  the queued ones that qualify; exactly that counterpart leaves the queue.
\<close>

theorem pair_is_nearest_counterpart:
  assumes "pair_queue_ingest E h cand now q = (Inr (Some p), q')"
  shows "\<exists>part t x. classify_component (lc_filename cand) = Some part \<and>
    parse_iso E (lc_captured_at cand) = Inr t \<and>
    x \<in> set (eligible h cand part (stem_of (lc_filename cand)) t q) \<and>
    (\<forall>y \<in> set (eligible h cand part (stem_of (lc_filename cand)) t q).
       abs (q_captured_at x - t) \<le> abs (q_captured_at y - t)) \<and>
    q' = remove1 x q \<and>
    p = \<lparr>pr_account = lc_account cand, pr_stem = stem_of (lc_filename cand),
         pr_photo_onedrive_id = (if part = ''photo'' then lc_onedrive_id cand else lc_onedrive_id (q_candidate x)),
         pr_video_onedrive_id = (if part = ''photo'' then lc_onedrive_id (q_candidate x) else lc_onedrive_id cand)\<rparr>"
proof -
  from assms obtain part t x xs where
    part: "classify_component (lc_filename cand) = Some part"
    and t: "parse_iso E (lc_captured_at cand) = Inr t"
    and el: "eligible h cand part (stem_of (lc_filename cand)) t q = x # xs"
    by (auto simp: pair_queue_ingest_def Let_def split: option.splits sum.splits list.splits)
  let ?c = "first_min (\<lambda>y. abs (q_captured_at y - t)) x xs"
  have "?c \<in> set (x # xs)" "\<And>y. y \<in> set (x # xs) \<Longrightarrow> abs (q_captured_at ?c - t) \<le> abs (q_captured_at y - t)"
    using first_min_in [of "\<lambda>y. abs (q_captured_at y - t)" x xs]
      first_min_le [where key = "\<lambda>y. abs (q_captured_at y - t)" and b = x and xs = xs] by simp_all
  with assms part t el show ?thesis
    by (intro exI [of _ part] exI [of _ t] exI [of _ ?c]) (auto simp: pair_queue_ingest_def Let_def)
qed

text \<open>A photo and its video, two seconds apart, and an environment in which to pair them.\<close>

definition pair_env :: env where
  "pair_env = \<lparr>clock = int, iso = int_str, ym_of = (\<lambda>_. (2024, 5)), uuid_hex = nat_str,
     sha256 = (\<lambda>s. s), xfer = (\<lambda>s. s), from_iso = (\<lambda>_. Some (2024, 5)),
     from_iso_us = (\<lambda>s. Some (1000000 * int (length s))), fn_match = (\<lambda>n p. n = p),
     re_search = (\<lambda>p n. Some (p = n))\<rparr>"

definition demo_video :: queued where
  "demo_video = \<lparr>q_candidate = \<lparr>lc_account = ''ann'', lc_onedrive_id = ''v'', lc_filename = ''IMG_1.MOV'',
       lc_captured_at = ''12''\<rparr>, q_component = ''video'', q_stem = ''IMG_1'', q_captured_at = 2000000, q_queued_at = 0\<rparr>"

definition demo_photo :: live_photo_candidate where
  "demo_photo = \<lparr>lc_account = ''ann'', lc_onedrive_id = ''p'', lc_filename = ''IMG_1.HEIC'', lc_captured_at = ''1234''\<rparr>"

theorem pair_is_nearest_counterpart_witness:
  "\<exists>part t x. classify_component (lc_filename demo_photo) = Some part \<and>
    parse_iso pair_env (lc_captured_at demo_photo) = Inr t \<and>
    x \<in> set (eligible default_heuristics demo_photo part (stem_of (lc_filename demo_photo)) t [demo_video]) \<and>
    [] = remove1 x [demo_video]"
proof -
  have "pair_queue_ingest pair_env default_heuristics demo_photo 5 [demo_video] =
      (Inr (Some \<lparr>pr_account = ''ann'', pr_stem = ''IMG_1'', pr_photo_onedrive_id = ''p'', pr_video_onedrive_id = ''v''\<rparr>), [])"
    by code_simp
  from pair_is_nearest_counterpart [OF this] show ?thesis by blast
qed

end
