(* ===== verification/Ingest.thy ===== *)
theory Ingest
  imports Live_Photo
begin

section \<open>The ingest decision engine (\<open>domain/ingest.py\<close>)\<close>

text \<open>
  One definition per method of \<open>IngestDecisionEngine\<close>, acting on the \<open>world\<close>.  \<open>jc\<close> is the size
  bound of the journal when the engine has one.  \<open>process_batch\<close> is the sequential branch
  (\<open>worker_count <= 1\<close>); the thread pool runs the same \<open>process_one\<close> calls in an order the
  scheduler picks.  Directory listings are taken once, at the start of a loop over them.
\<close>

record staged_candidate =
  sc_account_name :: string
  sc_onedrive_id :: string
  sc_original_filename :: string
  sc_relative_path :: string
  sc_modified_time :: string
  sc_size_bytes :: "int option"
  sc_staging_path :: path

record ingest_outcome =
  oc_account_name :: string
  oc_onedrive_id :: string
  oc_action :: string
  oc_sha256 :: "string option"
  oc_destination_path :: "path option"
  oc_prefilter_hit :: bool

record ingest_batch_result =
  bt_outcomes :: "ingest_outcome list"
  bt_pending_count :: nat
  bt_discarded_count :: nat
  bt_prefilter_discard_count :: nat
  bt_prefilter_hit_count :: nat
  bt_prefilter_miss_count :: nat
  bt_size_mismatch_count :: nat
  bt_zero_byte_reject_count :: nat
  bt_zero_byte_quarantine_count :: nat

record staging_drift_report =
  dr_stale_temp_count :: nat
  dr_completed_unpersisted_count :: nat
  dr_orphan_unknown_count :: nat
  dr_quarantined_count :: nat
  dr_warnings :: "string list"

text \<open>The keyword arguments \<open>process_batch\<close> hands to \<open>_process_one\<close>.\<close>

record ingest_params =
  ip_pending_root :: path
  ip_storage_template :: string
  ip_staging_on_same_pool :: bool
  ip_pre_hash_size_verify :: bool
  ip_zero_byte_policy :: string
  ip_quarantine_dir :: "path option"
  ip_collision_max_attempts :: int

definition INGEST_INPUT_SCHEMA_VERSION :: int where
  "INGEST_INPUT_SCHEMA_VERSION = 1"

subsection \<open>Helpers\<close>

definition mk_outcome ::
  "staged_candidate \<Rightarrow> string \<Rightarrow> string option \<Rightarrow> path option \<Rightarrow> bool \<Rightarrow> ingest_outcome" where
  "mk_outcome c action sha dest hit =
     \<lparr>oc_account_name = sc_account_name c, oc_onedrive_id = sc_onedrive_id c, oc_action = action,
      oc_sha256 = sha, oc_destination_path = dest, oc_prefilter_hit = hit\<rparr>"

definition ingest_journal_append ::
  "env \<Rightarrow> int option \<Rightarrow> string \<Rightarrow> string \<Rightarrow> staged_candidate \<Rightarrow> path option \<Rightarrow> string option \<Rightarrow> world
     \<Rightarrow> unit res \<times> world" where
  "ingest_journal_append E jc op_id phase c dest sha w =
     (case jc of
        None \<Rightarrow> (Inr (), w)
      | Some max_bytes \<Rightarrow>
          (Inr (), w\<lparr>jfiles := journal_append max_bytes
             \<lparr>j_op_id = op_id, j_phase = phase, j_ts = now_iso E w, j_account = sc_account_name c,
              j_onedrive_id = sc_onedrive_id c, j_staging_path = path_str (sc_staging_path c),
              j_destination_path = map_option path_str dest, j_sha256 = sha\<rparr> (jfiles w),
             ticks := Suc (ticks w)\<rparr>))"

definition handle_quarantine_or_delete ::
  "env \<Rightarrow> path \<Rightarrow> path option \<Rightarrow> string \<Rightarrow> world \<Rightarrow> unit res \<times> world" where
  "handle_quarantine_or_delete E p quarantine_dir category w =
     (case quarantine_dir of
        None \<Rightarrow> fs_call (fs_unlink p) w
      | Some q \<Rightarrow>
          (let target = child (child q category) (path_name p) in
           and_then (fs_call (fs_mkdirs (path_parent target)) w) (\<lambda>_ w.
           if fs_exists (fsys w) target
           then (case draw_time E w of (now, w) \<Rightarrow>
             fs_call (fs_rename p (with_name target
               (path_stem target @ ''-'' @ int_str (now div 1000000) @ path_suffix target))) w)
           else fs_call (fs_rename p target) w)))"

definition prefilter_status :: "registry_db \<Rightarrow> staged_candidate \<Rightarrow> (string \<times> string) option" where
  "prefilter_status d c =
     (case tbl_get (metadata_index d) (sc_account_name c, sc_onedrive_id c) of
        None \<Rightarrow> None
      | Some m \<Rightarrow>
          if m_size_bytes m = (case sc_size_bytes c of Some s \<Rightarrow> s | None \<Rightarrow> - 1) \<and>
             m_modified_time m = sc_modified_time c
          then (case tbl_get (files d) (m_sha256 m) of
                  None \<Rightarrow> None
                | Some r \<Rightarrow> if f_status r \<in> {''pending'', ''accepted'', ''rejected'', ''purged''}
                            then Some (f_status r, m_sha256 m) else None)
          else None)"

fun first_block_match :: "env \<Rightarrow> string \<Rightarrow> blocked_rule_row list \<Rightarrow> (string \<times> string) option" where
  "first_block_match E filename [] = None"
| "first_block_match E filename (r # rs) =
     (if br_rule_type r = ''filename'' \<and> fn_match E filename (br_pattern r)
      then Some (br_rule_type r, br_pattern r)
      else if br_rule_type r = ''regex'' \<and> re_search E (br_pattern r) filename = Some True
      then Some (br_rule_type r, br_pattern r)
      else first_block_match E filename rs)"

definition match_block_rule :: "env \<Rightarrow> registry_db \<Rightarrow> string \<Rightarrow> (string \<times> string) option" where
  "match_block_rule E d filename =
     first_block_match E filename (sort_key br_id (filter br_enabled (blocked_rules d)))"

fun validate_candidates :: "env \<Rightarrow> nat \<Rightarrow> staged_candidate list \<Rightarrow> unit res" where
  "validate_candidates E i [] = Inr ()"
| "validate_candidates E i (c # cs) =
     (let bad = (\<lambda>m. Inl (IngestError (''Malformed candidate['' @ nat_str i @ '']: '' @ m))) in
      if py_strip (sc_account_name c) = [] then bad ''account_name is required''
      else if py_strip (sc_onedrive_id c) = [] then bad ''onedrive_id is required''
      else if py_strip (sc_original_filename c) = [] then bad ''original_filename is required''
      else if \<not> prefix ''/'' (sc_relative_path c)
      then bad (''relative_path must start with '' @ py_quote ''/'' @ '': '' @ sc_relative_path c)
      else if from_iso E (replace_str ''Z'' ''+00:00'' (sc_modified_time c)) = None
      then bad ''modified_time is not valid ISO-8601''
      else if (case sc_size_bytes c of Some s \<Rightarrow> s < 0 | None \<Rightarrow> False)
      then bad ''size_bytes must be >= 0''
      else validate_candidates E (Suc i) cs)"

definition validate_batch_contract :: "env \<Rightarrow> staged_candidate list \<Rightarrow> int \<Rightarrow> unit res" where
  "validate_batch_contract E cs version =
     (if version \<noteq> INGEST_INPUT_SCHEMA_VERSION
      then Inl (IngestError (''Incompatible ingest input schema version: got='' @ int_str version @
             '' expected='' @ int_str INGEST_INPUT_SCHEMA_VERSION))
      else validate_candidates E 0 cs)"

definition terminal_reason_from_outcome :: "ingest_outcome \<Rightarrow> string" where
  "terminal_reason_from_outcome oc =
     (if oc_prefilter_hit oc then ''metadata_prefilter''
      else if oc_action oc = ''pending'' then ''unknown_hash''
      else if prefix ''discard_'' (oc_action oc) then ''known_hash''
      else if oc_action oc \<in> {''missing_staged'', ''size_mismatch'', ''reject_zero_byte'', ''quarantine_zero_byte''}
      then oc_action oc
      else ''terminal_outcome'')"

text \<open>\<open>raw.encode("utf-8")\<close> of code points below 256.\<close>

definition utf8 :: "string \<Rightarrow> string" where
  "utf8 s = concat (map (\<lambda>c. let n = (of_char c :: nat) in
     if n < 128 then [c] else [char_of (192 + n div 64), char_of (128 + n mod 64)]) s)"

definition live_photo_pair_id :: "env \<Rightarrow> string \<Rightarrow> string \<Rightarrow> string \<Rightarrow> string \<Rightarrow> string" where
  "live_photo_pair_id E account stem photo video =
     take 32 (sha256 E (utf8 (account @ ''|'' @ stem @ ''|'' @ photo @ ''|'' @ video)))"

subsection \<open>One candidate\<close>

text \<open>The branch of a file name that a block rule matches.\<close>

definition ingest_blocked ::
  "env \<Rightarrow> int option \<Rightarrow> string \<Rightarrow> staged_candidate \<Rightarrow> int \<Rightarrow> string \<Rightarrow> string \<times> string \<Rightarrow> world
     \<Rightarrow> ingest_outcome res \<times> world" where
  "ingest_blocked E jc op_id c actual_size sha rule w =
     and_then (fs_call (fs_unlink (sc_staging_path c)) w) (\<lambda>_ w.
     and_then (reg_call E (\<lambda>now. create_or_update_file now sha actual_size ''rejected''
         (Some (sc_original_filename c)) None) w) (\<lambda>_ w.
     and_then (reg_call E (\<lambda>now. upsert_metadata_index now (sc_account_name c) (sc_onedrive_id c)
         actual_size (sc_modified_time c) sha) w) (\<lambda>_ w.
     and_then (reg_call E (\<lambda>now. upsert_file_origin now sha (sc_account_name c) (sc_onedrive_id c)
         (Some (sc_relative_path c))) w) (\<lambda>_ w.
     and_then (reg_call E (\<lambda>now. append_audit_event now (Some sha) ''rejected''
         (Some (''block_rule:'' @ fst rule @ '':'' @ snd rule)) ''ingest_pipeline'' None None) w) (\<lambda>_ w.
     and_then (ingest_journal_append E jc op_id ''registry_persisted'' c None (Some sha) w) (\<lambda>_ w.
     (Inr (mk_outcome c ''discard_rejected'' (Some sha) None False), w)))))))"

text \<open>The branch of a hash the registry does not know.\<close>

definition ingest_unknown ::
  "env \<Rightarrow> int option \<Rightarrow> ingest_params \<Rightarrow> string \<Rightarrow> staged_candidate \<Rightarrow> string \<Rightarrow> world
     \<Rightarrow> ingest_outcome res \<times> world" where
  "ingest_unknown E jc P op_id c sha w =
     and_then (lift_res (render_storage_relative_path (from_iso E) (ym_of E (clock E (ticks w)))
         (ip_storage_template P) sha (sc_original_filename c) (sc_modified_time c)) w) (\<lambda>relative w.
     and_then (lift_res (choose_collision_safe_destination_with_threshold
         (joinpath (ip_pending_root P) relative) (ip_collision_max_attempts P) (fsys w)) w) (\<lambda>dest w.
     and_then (fs_call (commit_staging_to_accepted (sha256 E) (xfer E) (sc_staging_path c) dest
         (ip_staging_on_same_pool P) (Some (ip_pending_root P))) w) (\<lambda>_ w.
     and_then (ingest_journal_append E jc op_id ''storage_committed'' c (Some dest) (Some sha) w) (\<lambda>_ w.
     and_then (reg_call E (\<lambda>now. finalize_unknown_ingest now sha (fs_size (fsys w) dest)
         (sc_original_filename c) (path_str dest) (sc_account_name c) (sc_onedrive_id c)
         (sc_relative_path c) (sc_modified_time c) ''ingest_pipeline'' None) w) (\<lambda>_ w.
     and_then (ingest_journal_append E jc op_id ''registry_persisted'' c (Some dest) (Some sha) w) (\<lambda>_ w.
     (Inr (mk_outcome c ''pending'' (Some sha) (Some dest) False), w)))))))"

text \<open>The branch of a known hash.\<close>

definition ingest_known ::
  "env \<Rightarrow> int option \<Rightarrow> string \<Rightarrow> staged_candidate \<Rightarrow> string \<Rightarrow> string \<Rightarrow> world
     \<Rightarrow> ingest_outcome res \<times> world" where
  "ingest_known E jc op_id c sha st w =
     (let known_size = fs_size (fsys w) (sc_staging_path c) in
     and_then (fs_call (fs_unlink (sc_staging_path c)) w) (\<lambda>_ w.
     and_then (reg_call E (\<lambda>now. finalize_known_ingest now sha st (sc_account_name c) (sc_onedrive_id c)
         (sc_relative_path c) (sc_modified_time c) known_size ''ingest_pipeline'') w) (\<lambda>_ w.
     and_then (ingest_journal_append E jc op_id ''registry_persisted'' c None (Some sha) w) (\<lambda>_ w.
     (Inr (mk_outcome c (''discard_'' @ st) (Some sha) None False), w)))))"

text \<open>From the hash on.\<close>

definition ingest_hashed ::
  "env \<Rightarrow> int option \<Rightarrow> ingest_params \<Rightarrow> string \<Rightarrow> staged_candidate \<Rightarrow> int \<Rightarrow> world
     \<Rightarrow> ingest_outcome res \<times> world" where
  "ingest_hashed E jc P op_id c actual_size w =
     and_then (fs_call (sha256_file (sha256 E) (sc_staging_path c)) w) (\<lambda>sha w.
     and_then (ingest_journal_append E jc op_id ''hash_completed'' c None (Some sha) w) (\<lambda>_ w.
     case match_block_rule E (db w) (sc_original_filename c) of
       Some rule \<Rightarrow> ingest_blocked E jc op_id c actual_size sha rule w
     | None \<Rightarrow>
         (case get_file (db w) sha of
            None \<Rightarrow> ingest_unknown E jc P op_id c sha w
          | Some r \<Rightarrow> ingest_known E jc op_id c sha (f_status r) w)))"

definition process_one ::
  "env \<Rightarrow> int option \<Rightarrow> ingest_params \<Rightarrow> staged_candidate \<Rightarrow> world \<Rightarrow> ingest_outcome res \<times> world" where
  "process_one E jc P c w0 =
     (let path = sc_staging_path c;
          op_id = sc_account_name c @ '':'' @ sc_onedrive_id c @ '':'' @ take 12 (uuid_hex E (ticks w0));
          w1 = w0\<lparr>ticks := Suc (ticks w0)\<rparr>
      in and_then (ingest_journal_append E jc op_id ''ingest_started'' c None None w1) (\<lambda>_ w.
      if \<not> fs_exists (fsys w) path
      then and_then (ingest_journal_append E jc op_id ''missing_staged'' c None None w) (\<lambda>_ w.
           (Inr (mk_outcome c ''missing_staged'' None None False), w))
      else (let actual_size = fs_size (fsys w) path in
        if ip_pre_hash_size_verify P \<and> sc_size_bytes c \<noteq> None \<and> sc_size_bytes c \<noteq> Some actual_size
        then and_then (ingest_journal_append E jc op_id ''size_mismatch'' c None None w) (\<lambda>_ w.
             and_then (handle_quarantine_or_delete E path (ip_quarantine_dir P) ''size_mismatch'' w) (\<lambda>_ w.
             (Inr (mk_outcome c ''size_mismatch'' None None False), w)))
        else if actual_size = 0 \<and> ip_zero_byte_policy P = ''reject''
        then and_then (fs_call (fs_unlink path) w) (\<lambda>_ w.
             (Inr (mk_outcome c ''reject_zero_byte'' None None False), w))
        else if actual_size = 0 \<and> ip_zero_byte_policy P = ''quarantine''
        then and_then (handle_quarantine_or_delete E path (ip_quarantine_dir P) ''zero_byte'' w) (\<lambda>_ w.
             (Inr (mk_outcome c ''quarantine_zero_byte'' None None False), w))
        else (case prefilter_status (db w) c of
                Some (st, sha) \<Rightarrow>
                  and_then (fs_call (fs_unlink path) w) (\<lambda>_ w.
                  and_then (reg_call E (\<lambda>now. append_audit_event now (Some sha) (''prefilter_'' @ st)
                      (Some ''metadata_index_match'') ''ingest_pipeline'' None None) w) (\<lambda>_ w.
                  (Inr (mk_outcome c (''discard_'' @ st) (Some sha) None True), w)))
              | None \<Rightarrow> ingest_hashed E jc P op_id c actual_size w))))"

subsection \<open>A batch\<close>

definition size_or_minus_one :: "staged_candidate \<Rightarrow> int" where
  "size_or_minus_one c = (case sc_size_bytes c of Some s \<Rightarrow> s | None \<Rightarrow> - 1)"

text \<open>
  \<open>sort(key=(size, -index), reverse=True)\<close>: the keys are distinct, so this is the ascending order of
  the negated keys.
\<close>

definition schedule :: "bool \<Rightarrow> staged_candidate list \<Rightarrow> (nat \<times> staged_candidate) list" where
  "schedule size_aware cs =
     (let indexed = enumerate 0 cs in
      if size_aware then sort_key (\<lambda>(i, c). (- size_or_minus_one c, int i)) indexed else indexed)"

fun run_all ::
  "env \<Rightarrow> int option \<Rightarrow> ingest_params \<Rightarrow> (nat \<times> staged_candidate) list \<Rightarrow> world
     \<Rightarrow> (nat \<times> staged_candidate \<times> ingest_outcome) list res \<times> world" where
  "run_all E jc P [] w = (Inr [], w)"
| "run_all E jc P ((i, c) # ics) w =
     and_then (process_one E jc P c w) (\<lambda>oc w.
     and_then (run_all E jc P ics w) (\<lambda>rs w. (Inr ((i, c, oc) # rs), w)))"

definition pair_step ::
  "env \<Rightarrow> live_photo_heuristics option \<Rightarrow> (string \<times> string) list \<Rightarrow> staged_candidate \<Rightarrow> queued list \<Rightarrow> world
     \<Rightarrow> queued list res \<times> world" where
  "pair_step E h shas c q w =
     (case h of
        None \<Rightarrow> (Inr q, w)
      | Some hs \<Rightarrow>
          (case draw_time E w of (now, w) \<Rightarrow>
           (case pair_queue_ingest E hs \<lparr>lc_account = sc_account_name c, lc_onedrive_id = sc_onedrive_id c,
                   lc_filename = sc_original_filename c, lc_captured_at = sc_modified_time c\<rparr> now q of
              (Inl e, q) \<Rightarrow> (Inl e, w)
            | (Inr None, q) \<Rightarrow> (Inr q, w)
            | (Inr (Some p), q) \<Rightarrow>
                (case (map_of shas (pr_photo_onedrive_id p), map_of shas (pr_video_onedrive_id p)) of
                   (Some ph, Some vi) \<Rightarrow>
                     and_then (reg_call E (\<lambda>now. upsert_live_photo_pair now
                         (live_photo_pair_id E (pr_account p) (pr_stem p) ph vi)
                         (pr_account p) (pr_stem p) ph vi ''paired'') w) (\<lambda>_ w. (Inr q, w))
                 | _ \<Rightarrow> (Inr q, w)))))"

fun finish_all ::
  "env \<Rightarrow> live_photo_heuristics option \<Rightarrow> string \<Rightarrow> nat \<Rightarrow> (string \<times> string) list \<Rightarrow> queued list
     \<Rightarrow> (nat \<times> staged_candidate \<times> ingest_outcome) list \<Rightarrow> world \<Rightarrow> unit res \<times> world" where
  "finish_all E h run n shas q [] w = (Inr (), w)"
| "finish_all E h run n shas q ((i, c, oc) # rs) w =
     (let shas' = (case oc_sha256 oc of None \<Rightarrow> shas
                     | Some s \<Rightarrow> AList.update (sc_onedrive_id c) s shas) in
      and_then (pair_step E h shas' c q w) (\<lambda>q w.
      and_then (reg_call E (\<lambda>now. append_ingest_terminal_event now run (int (Suc n)) (sc_account_name c)
          (sc_onedrive_id c) (oc_sha256 oc) (oc_action oc)
          (Some (terminal_reason_from_outcome oc)) ''ingest_pipeline'') w) (\<lambda>_ w.
      finish_all E h run (Suc n) shas' q rs w)))"

definition count_outcomes :: "(ingest_outcome \<Rightarrow> bool) \<Rightarrow> ingest_outcome list \<Rightarrow> nat" where
  "count_outcomes P ocs = length (filter P ocs)"

definition batch_result :: "ingest_outcome list \<Rightarrow> ingest_batch_result" where
  "batch_result ocs =
     \<lparr>bt_outcomes = ocs,
      bt_pending_count = count_outcomes (\<lambda>x. oc_action x = ''pending'') ocs,
      bt_discarded_count = count_outcomes (\<lambda>x. oc_action x \<in> {''discard_accepted'', ''discard_rejected'',
          ''discard_purged'', ''discard_pending'', ''missing_staged''}) ocs,
      bt_prefilter_discard_count = count_outcomes oc_prefilter_hit ocs,
      bt_prefilter_hit_count = count_outcomes oc_prefilter_hit ocs,
      bt_prefilter_miss_count = count_outcomes (\<lambda>x. \<not> oc_prefilter_hit x) ocs,
      bt_size_mismatch_count = count_outcomes (\<lambda>x. oc_action x = ''size_mismatch'') ocs,
      bt_zero_byte_reject_count = count_outcomes (\<lambda>x. oc_action x = ''reject_zero_byte'') ocs,
      bt_zero_byte_quarantine_count = count_outcomes (\<lambda>x. oc_action x = ''quarantine_zero_byte'') ocs\<rparr>"

definition process_batch ::
  "env \<Rightarrow> int option \<Rightarrow> ingest_params \<Rightarrow> staged_candidate list \<Rightarrow> int \<Rightarrow> int \<Rightarrow> bool
     \<Rightarrow> live_photo_heuristics option \<Rightarrow> world \<Rightarrow> ingest_batch_result res \<times> world" where
  "process_batch E jc P cs version worker_count size_aware h w =
     and_then (lift_res (validate_batch_contract E cs version) w) (\<lambda>_ w.
     guard (ip_zero_byte_policy P \<in> {''allow'', ''quarantine'', ''reject''})
       (IngestError (''Invalid zero_byte_policy: '' @ ip_zero_byte_policy P @
          ''. Expected one of allow/quarantine/reject'')) w (\<lambda>w.
     guard (worker_count \<ge> 1) (IngestError ''worker_count must be >= 1'') w (\<lambda>w.
     guard (ip_collision_max_attempts P \<ge> 1) (IngestError ''collision_max_attempts must be >= 1'') w (\<lambda>w.
     guard (lint_storage_template (ip_storage_template P) = [])
       (IngestError (''Unsafe storage template detected: '' @
          join_with '','' (lint_storage_template (ip_storage_template P)))) w (\<lambda>w.
     (let run = uuid_hex E (ticks w); w = w\<lparr>ticks := Suc (ticks w)\<rparr> in
     and_then (lift_res (case h of None \<Rightarrow> Inr () | Some hs \<Rightarrow> enforce_v1_defaults hs) w) (\<lambda>_ w.
     and_then (run_all E jc P (schedule size_aware cs) w) (\<lambda>rs w.
     (let ordered = sort_key fst rs in
     and_then (finish_all E h run 0 [] [] ordered w) (\<lambda>_ w.
     (Inr (batch_result (map (snd \<circ> snd) ordered)), w)))))))))))"

subsection \<open>Staging maintenance\<close>

definition keys_below :: "string list \<Rightarrow> fs \<Rightarrow> string list list" where
  "keys_below root f = filter (strict_prefix root) (map fst (nodes f))"

definition key_path :: "string list \<Rightarrow> path" where
  "key_path k = Path True k"

fun cleanup_loop :: "int \<Rightarrow> int \<Rightarrow> string list list \<Rightarrow> world \<Rightarrow> nat res \<times> world" where
  "cleanup_loop now ttl [] w = (Inr 0, w)"
| "cleanup_loop now ttl (k # ks) w =
     (if fs_exists (fsys w) (key_path k) \<and> now - fs_mtime (fsys w) (key_path k) > ttl
      then and_then (fs_call (fs_unlink (key_path k)) w) (\<lambda>_ w.
           and_then (cleanup_loop now ttl ks w) (\<lambda>n w. (Inr (Suc n), w)))
      else cleanup_loop now ttl ks w)"

definition cleanup_staging_tmp_files :: "env \<Rightarrow> path \<Rightarrow> int \<Rightarrow> world \<Rightarrow> nat res \<times> world" where
  "cleanup_staging_tmp_files E staging_dir tmp_ttl_minutes w =
     (if \<not> fs_exists (fsys w) staging_dir then (Inr 0, w)
      else (case draw_time E w of (now, w) \<Rightarrow>
        cleanup_loop now (max 1 tmp_ttl_minutes * 60 * 1000000)
          (filter (\<lambda>k. suffix ''.tmp'' (last k)) (keys_below (fs_key (fsys w) staging_dir) (fsys w))) w))"

text \<open>The category of a staged file by its age, as the \<open>if\<close>/\<open>elif\<close> chain tests it.\<close>

definition drift_category :: "path \<Rightarrow> int \<Rightarrow> int \<Rightarrow> int \<Rightarrow> int \<Rightarrow> string option" where
  "drift_category p age tmp_ttl failed_ttl orphan_ttl =
     (if path_suffix p = ''.tmp'' \<and> age > tmp_ttl then Some ''stale_temp''
      else if path_suffix p \<noteq> ''.tmp'' \<and> age > orphan_ttl then Some ''orphan_unknown''
      else if path_suffix p \<noteq> ''.tmp'' \<and> age > failed_ttl then Some ''completed_unpersisted''
      else None)"

definition quarantine_drifted :: "int \<Rightarrow> path \<Rightarrow> string \<Rightarrow> path \<Rightarrow> world \<Rightarrow> unit res \<times> world" where
  "quarantine_drifted now quarantine_dir category p w =
     (let q = child (child quarantine_dir category) (path_name p) in
      and_then (fs_call (fs_mkdirs (path_parent q)) w) (\<lambda>_ w.
      fs_call (fs_rename p (if fs_exists (fsys w) q
        then with_name q (path_stem q @ ''-'' @ int_str (now div 1000000) @ path_suffix q) else q)) w))"

fun drift_loop ::
  "int \<Rightarrow> path \<Rightarrow> int \<Rightarrow> int \<Rightarrow> int \<Rightarrow> string list list \<Rightarrow> world \<Rightarrow> string list res \<times> world" where
  "drift_loop now qd tmp_ttl failed_ttl orphan_ttl [] w = (Inr [], w)"
| "drift_loop now qd tmp_ttl failed_ttl orphan_ttl (k # ks) w =
     (if \<not> fs_is_file (fsys w) (key_path k) then drift_loop now qd tmp_ttl failed_ttl orphan_ttl ks w
      else case drift_category (key_path k) (now - fs_mtime (fsys w) (key_path k)) tmp_ttl failed_ttl orphan_ttl of
          None \<Rightarrow> drift_loop now qd tmp_ttl failed_ttl orphan_ttl ks w
        | Some cat \<Rightarrow>
            and_then (quarantine_drifted now qd cat (key_path k) w) (\<lambda>_ w.
            and_then (drift_loop now qd tmp_ttl failed_ttl orphan_ttl ks w) (\<lambda>cats w.
            (Inr (cat # cats), w))))"

definition threshold_warning :: "string \<Rightarrow> nat \<Rightarrow> int \<Rightarrow> string list" where
  "threshold_warning name n threshold =
     (if int n \<ge> threshold then [name @ ''_threshold_exceeded:'' @ nat_str n] else [])"

definition drift_report :: "string list \<Rightarrow> int \<Rightarrow> staging_drift_report" where
  "drift_report cats threshold =
     (let st = count_list cats ''stale_temp''; cu = count_list cats ''completed_unpersisted'';
          ou = count_list cats ''orphan_unknown''
      in \<lparr>dr_stale_temp_count = st, dr_completed_unpersisted_count = cu, dr_orphan_unknown_count = ou,
          dr_quarantined_count = length cats,
          dr_warnings = threshold_warning ''stale_temp'' st threshold @
            threshold_warning ''completed_unpersisted'' cu threshold @
            threshold_warning ''orphan_unknown'' ou threshold\<rparr>)"

definition reconcile_staging_drift ::
  "env \<Rightarrow> path \<Rightarrow> path \<Rightarrow> int \<Rightarrow> int \<Rightarrow> int \<Rightarrow> int \<Rightarrow> world \<Rightarrow> staging_drift_report res \<times> world" where
  "reconcile_staging_drift E staging_dir quarantine_dir tmp_ttl_minutes failed_ttl_hours orphan_ttl_days
      warning_threshold w =
     (if \<not> fs_exists (fsys w) staging_dir
      then (Inr \<lparr>dr_stale_temp_count = 0, dr_completed_unpersisted_count = 0, dr_orphan_unknown_count = 0,
              dr_quarantined_count = 0, dr_warnings = []\<rparr>, w)
      else (case draw_time E w of (now, w) \<Rightarrow>
        and_then (drift_loop now quarantine_dir (max 1 tmp_ttl_minutes * 60 * 1000000)
            (max 1 failed_ttl_hours * 3600 * 1000000) (max 1 orphan_ttl_days * 86400 * 1000000)
            (keys_below (fs_key (fsys w) staging_dir) (fsys w)) w) (\<lambda>cats w.
        (Inr (drift_report cats warning_threshold), w))))"

subsection \<open>Crash recovery\<close>

record replay_report =
  rp_interrupted_total :: nat
  rp_quarantined_destinations :: nat
  rp_removed_staging :: nat
  rp_unresolved_op_ids :: "string list"

text \<open>The keys of \<open>by_op\<close>, in the order of their first records.\<close>

definition op_ids :: "journal_record list \<Rightarrow> string list" where
  "op_ids rs = rev (remdups (rev (map j_op_id rs)))"

definition op_records :: "journal_record list \<Rightarrow> string \<Rightarrow> journal_record list" where
  "op_records rs op = filter (\<lambda>r. j_op_id r = op) rs"

definition replay_destination :: "journal_record \<Rightarrow> path option" where
  "replay_destination r =
     (case j_destination_path r of None \<Rightarrow> None | Some d \<Rightarrow> if d = [] then None else Some (path_of d))"

definition quarantine_destination :: "path option \<Rightarrow> world \<Rightarrow> nat res \<times> world" where
  "quarantine_destination dest w =
     (case dest of
        None \<Rightarrow> (Inr 0, w)
      | Some p \<Rightarrow>
          if fs_exists (fsys w) p
          then guard (path_name p \<noteq> []) (ValueError (path_str p @ '' has an empty name'')) w (\<lambda>w.
               and_then (fs_call (fs_rename p (with_suffix p (path_suffix p @ ''.orphaned''))) w)
                 (\<lambda>_ w. (Inr 1, w)))
          else (Inr 0, w))"

definition replay_one :: "env \<Rightarrow> string \<Rightarrow> journal_record \<Rightarrow> world \<Rightarrow> (nat \<times> nat) res \<times> world" where
  "replay_one E op latest w =
     and_then (quarantine_destination (replay_destination latest) w) (\<lambda>q w.
     (let staging = path_of (j_staging_path latest); present = fs_exists (fsys w) staging in
     and_then (if present then fs_call (fs_unlink staging) w else (Inr (), w)) (\<lambda>_ w.
     and_then (case j_sha256 latest of
         None \<Rightarrow> (Inr 0, w)
       | Some sha \<Rightarrow> if get_file (db w) sha = None then (Inr 0, w)
           else reg_call E (\<lambda>now. append_audit_event now (Some sha) ''recovery_interrupted_ingest''
             (Some (''journal_replay:'' @ op)) ''ingest_pipeline'' None None) w) (\<lambda>_ w.
     (Inr (q, if present then 1 else 0), w)))))"

fun replay_loop ::
  "env \<Rightarrow> journal_record list \<Rightarrow> string list \<Rightarrow> world \<Rightarrow> (string \<times> nat \<times> nat) list res \<times> world" where
  "replay_loop E rs [] w = (Inr [], w)"
| "replay_loop E rs (op # ops) w =
     (let recs = op_records rs op in
      if list_ex (\<lambda>r. j_phase r = ''registry_persisted'') recs then replay_loop E rs ops w
      else and_then (replay_one E op (last recs) w) (\<lambda>(q, s) w.
           and_then (replay_loop E rs ops w) (\<lambda>out w. (Inr ((op, q, s) # out), w))))"

definition replay_interrupted_operations :: "env \<Rightarrow> int option \<Rightarrow> world \<Rightarrow> replay_report res \<times> world" where
  "replay_interrupted_operations E jc w =
     (case jc of
        None \<Rightarrow> (Inr \<lparr>rp_interrupted_total = 0, rp_quarantined_destinations = 0, rp_removed_staging = 0,
                   rp_unresolved_op_ids = []\<rparr>, w)
      | Some _ \<Rightarrow>
          and_then (lift_res (read_all (jfiles w)) w) (\<lambda>rs w.
          and_then (replay_loop E rs (op_ids rs) w) (\<lambda>out w.
          (Inr \<lparr>rp_interrupted_total = length out,
             rp_quarantined_destinations = sum_list (map (fst \<circ> snd) out),
             rp_removed_staging = sum_list (map (snd \<circ> snd) out),
             rp_unresolved_op_ids = map fst out\<rparr>,
           w\<lparr>jfiles := journal_clear (jfiles w)\<rparr>))))"

end
