(* ===== verification/Poll.thy ===== *)
theory Poll
  imports Staging Ingest
begin

section \<open>Polling an account (\<open>adapters/onedrive/client.py\<close>)\<close>

text \<open>
  One poll of an account: the walk over the delta pages with its limits and breakers, the download
  of every page's candidates, the handoff to the ingest and the cursor.  The three small files beside
  the cursor path are modelled by what they hold: the cursor text, the incident counters the code
  writes (the end of the cool-down in microseconds, the number of loop incidents) and the resync
  marker; each is replaced atomically.  The handoff processor is an argument; the production
  caller passes the ingest.
\<close>

record account_config =
  ac_name :: string
  ac_root :: string
  ac_max_downloads :: int

record account_files =
  af_cursor :: "string option"
  af_cooldown_until :: "int option"
  af_loop_incidents :: int
  af_marker :: "(string \<times> string option) option"

record poll_limits =
  lm_max_delta_pages :: nat
  lm_max_runtime_seconds :: rat
  lm_tmp_ttl_minutes :: int
  lm_integrity_mode :: string
  lm_loop_resync_threshold :: int
  lm_ghost_threshold :: int
  lm_stale_page_threshold :: int
  lm_cooldown_seconds :: int

record poll_state =
  ps_net :: poller
  ps_files :: account_files

type_synonym handoff_processor = "string \<Rightarrow> downloaded_handoff list \<Rightarrow> world \<Rightarrow> unit res \<times> world"

subsection \<open>Cursor, incidents, resync marker\<close>

definition load_cursor :: "account_files \<Rightarrow> string option" where
  "load_cursor a = (case af_cursor a of None \<Rightarrow> None | Some t \<Rightarrow> if py_strip t = [] then None else Some (py_strip t))"

definition save_cursor :: "string \<Rightarrow> poll_state \<Rightarrow> poll_state" where
  "save_cursor cursor s = s\<lparr>ps_files := (ps_files s)\<lparr>af_cursor := Some cursor\<rparr>\<rparr>"

definition clear_resync_marker :: "poll_state \<Rightarrow> poll_state" where
  "clear_resync_marker s = s\<lparr>ps_files := (ps_files s)\<lparr>af_marker := None\<rparr>\<rparr>"

definition mark_resync_required :: "string \<Rightarrow> string option \<Rightarrow> poll_state \<Rightarrow> poll_state" where
  "mark_resync_required reason url s = s\<lparr>ps_files := (ps_files s)\<lparr>af_marker := Some (reason, url)\<rparr>\<rparr>"

definition is_breaker_cooldown_active :: "int \<Rightarrow> account_files \<Rightarrow> bool" where
  "is_breaker_cooldown_active now a = (case af_cooldown_until a of None \<Rightarrow> False | Some t \<Rightarrow> now < t)"

definition arm_breaker_cooldown :: "net \<Rightarrow> int \<Rightarrow> poll_state \<Rightarrow> poll_state" where
  "arm_breaker_cooldown N cooldown_seconds s =
     (case draw_time (outside N) (pl_world (ps_net s)) of (now, w) \<Rightarrow>
        s\<lparr>ps_net := (ps_net s)\<lparr>pl_world := w\<rparr>,
          ps_files := (ps_files s)\<lparr>af_cooldown_until := Some (now + cooldown_seconds * 1000000)\<rparr>\<rparr>)"

definition increment_loop_incident :: "poll_state \<Rightarrow> int \<times> poll_state" where
  "increment_loop_incident s =
     (let n = af_loop_incidents (ps_files s) + 1 in (n, s\<lparr>ps_files := (ps_files s)\<lparr>af_loop_incidents := n\<rparr>\<rparr>))"

definition reset_loop_incidents :: "poll_state \<Rightarrow> poll_state" where
  "reset_loop_incidents s = s\<lparr>ps_files := (ps_files s)\<lparr>af_loop_incidents := 0\<rparr>\<rparr>"

definition normalize_root_path :: "string \<Rightarrow> string" where
  "normalize_root_path r = (let n = py_strip r in if prefix ''/'' n then n else ''/'' @ n)"

definition build_initial_delta_url :: "account_config \<Rightarrow> string" where
  "build_initial_delta_url a =
     GRAPH_BASE @ ''/me/drive/root:/'' @
     join_with ''/'' (map url_quote (filter (\<lambda>s. s \<noteq> []) (split_on (CHR ''/'') (normalize_root_path (ac_root a))))) @
     '':/delta''"

subsection \<open>Leftover temporary files\<close>

fun recover_loop :: "int \<Rightarrow> int \<Rightarrow> path \<Rightarrow> string list list \<Rightarrow> poller \<Rightarrow> unit res \<times> poller" where
  "recover_loop now ttl quarantine [] p = (Inr (), p)"
| "recover_loop now ttl quarantine (k # ks) p =
     (let f = key_path k in
      if path_suffix f \<noteq> ''.tmp'' \<or> now - fs_mtime (fsys (pl_world p)) f < ttl
      then recover_loop now ttl quarantine ks p
      else
        and_then (pl_fs (fs_mkdirs quarantine) p) (\<lambda>_ p.
        and_then (pl_fs (fs_rename f (child quarantine (path_name f @ ''.'' @ int_str (now div 1000000)))) p) (\<lambda>_ p.
        recover_loop now ttl quarantine ks (increment_counter ''staging_tmp_files_quarantined_total'' p))))"

definition recover_staging_tmp_files :: "net \<Rightarrow> path \<Rightarrow> int \<Rightarrow> poller \<Rightarrow> unit res \<times> poller" where
  "recover_staging_tmp_files N staging_dir ttl_minutes p =
     (if \<not> fs_exists (fsys (pl_world p)) staging_dir then (Inr (), p)
      else (case draw_time (outside N) (pl_world p) of (now, w) \<Rightarrow>
        (let dir = fs_key (fsys w) staging_dir in
         recover_loop now (max ttl_minutes 0 * 60 * 1000000) (child staging_dir ''_recovery_quarantine'')
           (filter (\<lambda>k. butlast k = dir) (key_files_below dir (fsys w))) (p\<lparr>pl_world := w\<rparr>))))"

subsection \<open>The walk over the pages\<close>

record walk =
  wk_next :: "string option"
  wk_delta :: "string option"
  wk_seen_links :: "string list"
  wk_seen_ids :: "string list"
  wk_reducer :: reducer
  wk_downloaded :: "path list"
  wk_ghosts :: counts

record poll_result =
  pr_downloaded :: "path list"
  pr_candidate_count :: nat
  pr_ghosts :: counts
  pr_anomalies :: counts

definition add_counts :: "counts \<Rightarrow> counts \<Rightarrow> counts" where
  "add_counts new m = fold (\<lambda>(k, n). record_ghost_reason k n) new m"

definition note_anomaly :: "string \<Rightarrow> int \<Rightarrow> walk \<Rightarrow> walk" where
  "note_anomaly reason n wk =
     wk\<lparr>wk_reducer := (wk_reducer wk)\<lparr>rd_counts := record_ghost_reason reason n (rd_counts (wk_reducer wk))\<rparr>\<rparr>"

definition nothing_polled :: "walk \<Rightarrow> poll_result" where
  "nothing_polled wk = \<lparr>pr_downloaded = [], pr_candidate_count = 0, pr_ghosts = [],
     pr_anomalies = rd_counts (wk_reducer wk)\<rparr>"

definition lift_net :: "(poller \<Rightarrow> 'a res \<times> poller) \<Rightarrow> poll_state \<Rightarrow> 'a res \<times> poll_state" where
  "lift_net m s = (case m (ps_net s) of (r, p) \<Rightarrow> (r, s\<lparr>ps_net := p\<rparr>))"

definition run_handoff :: "handoff_processor option \<Rightarrow> string \<Rightarrow> downloaded_handoff list \<Rightarrow> poll_state \<Rightarrow> unit res \<times> poll_state" where
  "run_handoff proc account rows s =
     (case proc of
        None \<Rightarrow> (Inr (), s)
      | Some f \<Rightarrow>
          if rows = [] then (Inr (), s)
          else (case f account rows (pl_world (ps_net s)) of
                  (r, w) \<Rightarrow> (r, s\<lparr>ps_net := (ps_net s)\<lparr>pl_world := w\<rparr>\<rparr>)))"

text \<open>One page after it has been fetched: count, reduce, download, hand over, checkpoint.\<close>

definition account_page :: "net \<Rightarrow> string \<Rightarrow> string \<Rightarrow> gobject \<Rightarrow> walk \<Rightarrow> walk" where
  "account_page N now account payload wk =
     (case count_replayed_item_ids (conv N) payload (wk_seen_ids wk) of (replayed, ids) \<Rightarrow>
      let wk = (if replayed > 0 then note_anomaly ''delta_replayed_item_id'' (int replayed) wk else wk)
      in wk\<lparr>wk_seen_ids := ids,
            wk_reducer := apply_delta_page_to_reducer (conv N) now account payload (wk_reducer wk),
            wk_next := as_str (conv N) (gget payload ''@odata.nextLink''),
            wk_delta := (case nonempty_str (conv N) (gget payload ''@odata.deltaLink'') of
                           Some u \<Rightarrow> Some u | None \<Rightarrow> wk_delta wk)\<rparr>)"

definition remaining_budget :: "account_config \<Rightarrow> walk \<Rightarrow> int option" where
  "remaining_budget A wk =
     (if ac_max_downloads A > 0 then Some (max (ac_max_downloads A - int (length (wk_downloaded wk))) 0) else None)"

definition download_page ::
  "net \<Rightarrow> retry_policy \<Rightarrow> poll_limits \<Rightarrow> account_config \<Rightarrow> path \<Rightarrow> string \<Rightarrow> handoff_processor option
     \<Rightarrow> remote_candidate list \<Rightarrow> walk \<Rightarrow> poll_state \<Rightarrow> walk res \<times> poll_state" where
  "download_page N pol L A staging_root token proc cs wk s =
     (if cs = [] \<or> remaining_budget A wk = Some 0 then (Inr wk, s)
      else
        and_then (lift_net (download_candidates N pol token (lm_integrity_mode L) staging_root (ac_name A)
            (remaining_budget A wk) False cs) s) (\<lambda>b s.
        and_then (run_handoff proc (ac_name A) (db_rows b) s) (\<lambda>_ s.
        (Inr (wk\<lparr>wk_downloaded := wk_downloaded wk @ db_paths b, wk_ghosts := add_counts (db_ghosts b) (wk_ghosts wk)\<rparr>), s))))"

definition process_page ::
  "net \<Rightarrow> retry_policy \<Rightarrow> poll_limits \<Rightarrow> account_config \<Rightarrow> path \<Rightarrow> string \<Rightarrow> handoff_processor option
     \<Rightarrow> gobject \<Rightarrow> walk \<Rightarrow> poll_state \<Rightarrow> walk res \<times> poll_state" where
  "process_page N pol L A staging_root token proc payload wk s =
     (case draw_time (outside N) (pl_world (ps_net s)) of (t, w) \<Rightarrow>
      let now = iso (outside N) t;
          s = s\<lparr>ps_net := (ps_net s)\<lparr>pl_world := w\<rparr>\<rparr>;
          wk = account_page N now (ac_name A) payload wk
      in and_then (download_page N pol L A staging_root token proc
             (reduce_delta_page_candidates (conv N) now (ac_name A) payload) wk s) (\<lambda>wk s.
         (Inr wk, (case wk_next wk of None \<Rightarrow> s | Some u \<Rightarrow> clear_resync_marker (save_cursor u s)))))"

text \<open>
  The loop: it stops (with a flag for the download budget), returns early, or raises.  The last
  argument counts the pages that may still be read.
\<close>

fun walk_pages ::
  "net \<Rightarrow> retry_policy \<Rightarrow> poll_limits \<Rightarrow> account_config \<Rightarrow> path \<Rightarrow> string \<Rightarrow> handoff_processor option \<Rightarrow> rat
     \<Rightarrow> nat \<Rightarrow> walk \<Rightarrow> poll_state \<Rightarrow> (poll_result + walk \<times> bool) res \<times> poll_state" where
  "walk_pages N pol L A staging_root token proc start pages wk s =
     (case wk_next wk of
        None \<Rightarrow> (Inr (Inr (wk, False)), s)
      | Some [] \<Rightarrow> (Inr (Inr (wk, False)), s)
      | Some url \<Rightarrow>
          if ac_max_downloads A > 0 \<and> int (length (wk_downloaded wk)) \<ge> ac_max_downloads A
          then (Inr (Inr (wk, True)), s)
          else if mono N (pl_requests (ps_net s)) - start > lm_max_runtime_seconds L
          then (Inl (GraphError ''Delta polling exceeded runtime limit'' ''delta_runtime_limit_exceeded'' None), s)
          else (case pages of
                  0 \<Rightarrow> (Inl (GraphError ''Delta polling exceeded max pages'' ''delta_page_limit_exceeded'' None), s)
                | Suc left \<Rightarrow>
                    if url \<in> set (wk_seen_links wk) then
                      (case increment_loop_incident s of (n, s) \<Rightarrow>
                         if n \<ge> lm_loop_resync_threshold L
                         then (Inr (Inl (nothing_polled (note_anomaly ''delta_forced_resync_after_loop_threshold'' 1 wk))),
                           reset_loop_incidents (mark_resync_required ''delta_forced_resync_after_loop_threshold'' None s))
                         else (Inl (GraphError ''Delta nextLink cycle detected'' ''delta_nextlink_cycle_detected'' None), s))
                    else
                      (case lift_net (graph_get_json N pol url token) s of
                         (Inl (GraphResyncRequired resync_url), s) \<Rightarrow>
                           (Inr (Inl (nothing_polled (note_anomaly ''delta_resync_required_410'' 1 wk))),
                             mark_resync_required ''delta_resync_required_410'' resync_url s)
                       | (Inl e, s) \<Rightarrow> (Inl e, s)
                       | (Inr payload, s) \<Rightarrow>
                           and_then (process_page N pol L A staging_root token proc payload
                               (wk\<lparr>wk_seen_links := url # wk_seen_links wk\<rparr>) s) (\<lambda>wk s.
                             walk_pages N pol L A staging_root token proc start left wk s))))"

declare walk_pages.simps [simp del]

subsection \<open>The poll\<close>

definition EXPORTED_DIAGNOSTIC_KEYS :: "string list" where
  "EXPORTED_DIAGNOSTIC_KEYS = [''retry_attempt_total'', ''retry_transport_error_total'', ''throttle_response_total'',
     ''resync_required_total'', ''auth_refresh_attempt_total'', ''auth_refresh_success_total'', ''auth_refresh_failure_total'',
     ''graph_response_request_id_seen_total'', ''graph_response_correlation_id_seen_total'']"

definition export_diagnostics :: "counts \<Rightarrow> counts \<Rightarrow> counts" where
  "export_diagnostics diag m =
     fold (\<lambda>(k, n) m. if k \<in> set EXPORTED_DIAGNOSTIC_KEYS then record_ghost_reason (''diag_'' @ k) n m else m) diag m"

definition finish_poll ::
  "net \<Rightarrow> poll_limits \<Rightarrow> walk \<Rightarrow> bool \<Rightarrow> poll_state \<Rightarrow> poll_result res \<times> poll_state" where
  "finish_poll N L wk halted s =
     (if wk_delta wk = None \<and> \<not> halted
      then (Inl (GraphError ''No delta link returned'' ''missing_delta_link'' None), s)
      else
        let s = (case wk_delta wk of None \<Rightarrow> s | Some u \<Rightarrow> clear_resync_marker (save_cursor u s));
            m = export_diagnostics (pl_diag (ps_net s)) (rd_counts (wk_reducer wk));
            (m, s) = (if count_of m ''delta_replayed_item_id'' \<ge> lm_stale_page_threshold L
                      then (record_ghost_reason ''delta_breaker_armed_stale_page'' 1 m, arm_breaker_cooldown N (lm_cooldown_seconds L) s)
                      else if count_total (wk_ghosts wk) \<ge> lm_ghost_threshold L
                      then (record_ghost_reason ''delta_breaker_armed_ghost'' 1 m, arm_breaker_cooldown N (lm_cooldown_seconds L) s)
                      else (m, s))
        in (Inr \<lparr>pr_downloaded = wk_downloaded wk,
               pr_candidate_count = length (materialize_reduced_candidates (rd_entries (wk_reducer wk))),
               pr_ghosts = wk_ghosts wk, pr_anomalies = m\<rparr>, s))"

definition first_walk :: "string \<Rightarrow> walk" where
  "first_walk url = \<lparr>wk_next = Some url, wk_delta = None, wk_seen_links = [], wk_seen_ids = [],
     wk_reducer = empty_reducer, wk_downloaded = [], wk_ghosts = []\<rparr>"

definition poll_account_once ::
  "net \<Rightarrow> retry_policy \<Rightarrow> poll_limits \<Rightarrow> account_config \<Rightarrow> path \<Rightarrow> string \<Rightarrow> handoff_processor option
     \<Rightarrow> poll_state \<Rightarrow> poll_result res \<times> poll_state" where
  "poll_account_once N pol L A staging_root token proc s =
     (let url = (case load_cursor (ps_files s) of Some c \<Rightarrow> c | None \<Rightarrow> build_initial_delta_url A);
          s = s\<lparr>ps_net := (ps_net s)\<lparr>pl_diag := []\<rparr>\<rparr>;
          start = mono N (pl_requests (ps_net s))
      in and_then (lift_net (pl_fs (fs_unlink (boundary_manifest_path_for_account staging_root (ac_name A)))) s) (\<lambda>_ s.
         (case draw_time (outside N) (pl_world (ps_net s)) of (now, w) \<Rightarrow>
          let s = s\<lparr>ps_net := (ps_net s)\<lparr>pl_world := w\<rparr>\<rparr> in
          if is_breaker_cooldown_active now (ps_files s)
          then (Inr (nothing_polled (note_anomaly ''delta_breaker_cooldown_active'' 1 (first_walk url))), s)
          else
            and_then (lift_net (recover_staging_tmp_files N (child staging_root (ac_name A)) (lm_tmp_ttl_minutes L)) s) (\<lambda>_ s.
            and_then (walk_pages N pol L A staging_root token proc start (lm_max_delta_pages L) (first_walk url) s) (\<lambda>r s.
            case r of
              Inl result \<Rightarrow> (Inr result, s)
            | Inr (wk, halted) \<Rightarrow> finish_poll N L wk halted s)))))"

subsection \<open>The download budget\<close>

lemma ghost_paths [simp]: "db_paths (ghost r b) = db_paths b"
  by (simp add: ghost_def)

lemma initial_url_paths: "initial_download_url N pol token c b p = (Inr (u, b'), p') \<Longrightarrow> db_paths b' = db_paths b"
  by (auto simp: initial_download_url_def Let_def and_then_eq_Inr split: if_splits prod.splits)

lemma refetch_paths:
  assumes "refetch_candidate N pol c url tmp b p = (Inr (got, b'), p')"
  shows "db_paths b' = db_paths b"
proof (cases "download_with_retry N pol url tmp (rc_size_bytes c) p")
  case (Pair x q)
  with assms show ?thesis
    by (cases x) (auto simp: refetch_candidate_def and_then_eq_Inr split: exn.splits if_splits)
qed

lemma fetch_paths:
  assumes "fetch_candidate N pol token c url tmp b p = (Inr (got, b'), p')"
  shows "db_paths b' = db_paths b"
proof (cases "download_with_retry N pol url tmp (rc_size_bytes c) p")
  case (Pair x q)
  with assms show ?thesis
    by (cases x) (auto simp: fetch_candidate_def and_then_eq_Inr split: exn.splits if_splits option.splits dest: refetch_paths)
qed

lemma finish_paths:
  "finish_candidate N mode target manifest account c tmp name b p = (Inr b', p') \<Longrightarrow>
    length (db_paths b') \<le> Suc (length (db_paths b))"
  by (auto simp: finish_candidate_def Let_def and_then_eq_Inr split: if_splits)

lemma stage_paths:
  assumes "stage_candidate N pol token mode target manifest account c b p = (Inr b', p')"
  shows "length (db_paths b') \<le> Suc (length (db_paths b))"
proof -
  obtain base used where u: "unique_staging_basename (outside N) (rc_item_id c) (db_used b) = (base, used)" by fastforce
  show ?thesis
  proof (cases "rc_size_bytes c = None \<and> mode = ''strict''")
    case True
    with assms u show ?thesis by (auto simp: stage_candidate_def Let_def)
  next
    case False
    with assms u obtain url b1 q q' where i: "initial_download_url N pol token c (b\<lparr>db_used := used\<rparr>) q = (Inr (url, b1), q')"
      and k: "(case url of None \<Rightarrow> (Inr b1, q') | Some url \<Rightarrow>
        and_then (fetch_candidate N pol token c url (child target (base @ ''.tmp'')) b1 q') (\<lambda>(got, b) p.
          if got then finish_candidate N mode target manifest account c (child target (base @ ''.tmp'')) (base @ safe_extension (rc_name c)) b p
          else (Inr b, p))) = (Inr b', p')"
      by (simp add: stage_candidate_def Let_def and_then_eq_Inr) blast
    from initial_url_paths [OF i] have "db_paths b1 = db_paths b" by simp
    with k show ?thesis
      by (auto simp: and_then_eq_Inr split: option.splits if_splits dest!: fetch_paths finish_paths)
  qed
qed

lemma download_loop_limit:
  assumes "limit > 0"
  shows "download_loop N pol token mode target manifest account limit index cs b p = (Inr b', p') \<Longrightarrow>
    length (db_paths b') \<le> length (db_paths b) + nat (limit - index)"
proof (induction cs arbitrary: index b p)
  case (Cons c cs)
  show ?case
  proof (cases "index \<ge> limit")
    case True
    with Cons.prems assms show ?thesis by simp
  next
    case False
    with Cons.prems obtain b1 p1 where "stage_candidate N pol token mode target manifest account c b p = (Inr b1, p1)"
      and rest: "download_loop N pol token mode target manifest account limit (index + 1) cs b1 p1 = (Inr b', p')"
      by (auto simp: and_then_eq_Inr)
    with stage_paths [of N pol token mode target manifest account c b p b1 p1] Cons.IH [OF rest] False
    show ?thesis by (simp add: nat_diff_distrib' nat_diff_split) 
  qed
qed simp

lemma download_candidates_limit:
  assumes "download_candidates N pol token mode sroot account (Some n) reset cs p = (Inr b, p')" and "n > 0"
  shows "int (length (db_paths b)) \<le> n"
  using assms download_loop_limit [of n]
  by (auto simp: download_candidates_def Let_def and_then_eq_Inr) fastforce



definition demo_account :: account_config where
  "demo_account = \<lparr>ac_name = ''ann'', ac_root = ''/Camera'', ac_max_downloads = 1\<rparr>"

definition demo_limits :: poll_limits where
  "demo_limits = \<lparr>lm_max_delta_pages = 1000, lm_max_runtime_seconds = 300, lm_tmp_ttl_minutes = 120,
     lm_integrity_mode = ''strict'', lm_loop_resync_threshold = 3, lm_ghost_threshold = 10,
     lm_stale_page_threshold = 10, lm_cooldown_seconds = 300\<rparr>"

definition demo_state :: "string option \<Rightarrow> poll_state" where
  "demo_state cursor = \<lparr>ps_net = fresh_poller empty_fs, ps_files = \<lparr>af_cursor = cursor, af_cooldown_until = None,
     af_loop_incidents = 0, af_marker = None\<rparr>\<rparr>"

definition file_item :: "string \<Rightarrow> gval" where
  "file_item i = GObj [(''id'', GStr i), (''name'', GStr ''a.jpg''), (''file'', GObj [])]"

definition two_item_page :: gobject where
  "two_item_page = [(''value'', GList [file_item ''1'', file_item ''2'']), (''@odata.nextLink'', GStr ''page2'')]"

lemma two_candidates:
  "\<exists>c d. reduce_delta_page_candidates (conv flaky_net) now ''ann'' two_item_page = [c, d] \<and>
     rc_size_bytes c = None \<and> rc_size_bytes d = None"
  by (simp add: reduce_delta_page_candidates_def apply_delta_page_to_reducer_def page_items_def two_item_page_def gget_def
      reduce_item_def file_item_def nonempty_str_def ghas_def build_candidate_from_payload_def empty_reducer_def
      materialize_reduced_candidates_def List.map_filter_def Let_def)

lemma strict_loop:
  "\<forall>c \<in> set cs. rc_size_bytes c = None \<Longrightarrow>
    \<exists>b' p'. download_loop N pol token ''strict'' target manifest account limit index cs b p = (Inr b', p')"
proof (induction cs arbitrary: index b p)
  case (Cons c cs)
  then have "\<exists>b1 p1. stage_candidate N pol token ''strict'' target manifest account c b p = (Inr b1, p1)"
    by (auto simp: stage_candidate_def Let_def split: prod.split)
  with Cons show ?case by (cases "limit > 0 \<and> index \<ge> limit") fastforce+
qed simp

lemma demo_page_processed:
  "\<exists>wk' s'. process_page flaky_net DEFAULT_POLICY demo_limits demo_account (Path True [''s'']) ''t1'' None two_item_page
     (first_walk ''page1'') (demo_state None) = (Inr wk', s')"
proof -
  obtain t w where t: "draw_time (outside flaky_net) (pl_world (ps_net (demo_state None))) = (t, w)" by fastforce
  then have w: "fsys w = empty_fs" by (auto simp: draw_time_def demo_state_def fresh_poller_def)
  obtain c d where cs: "reduce_delta_page_candidates (conv flaky_net) (iso (outside flaky_net) t) ''ann'' two_item_page = [c, d]"
    "rc_size_bytes c = None" "rc_size_bytes d = None" using two_candidates by blast
  have mk: "\<exists>f'. fs_mkdirs (child (Path True [''s'']) ''ann'') empty_fs = (Inr (), f') \<and>
      (\<exists>f''. fs_mkdirs (child (child (Path True [''s'']) ''ann'') ''_quarantine'') f' = (Inr (), f''))"
    by (simp add: fs_mkdirs_def key_mkdirs_def key_prefixes_def child_def joinpath_def path_of_def fs_key_def resolve_def
        empty_fs_def is_reg_def node_at_def add_dir_def key_put_def)
  let ?wk = "account_page flaky_net (iso (outside flaky_net) t) ''ann'' two_item_page (first_walk ''page1'')"
  have "\<exists>b p. download_candidates flaky_net DEFAULT_POLICY ''t1'' ''strict'' (Path True [''s'']) ''ann'' n False [c, d]
      (q\<lparr>pl_world := w\<rparr>) = (Inr b, p)" for n q
    using mk strict_loop [of "[c, d]"] cs w
    by (auto simp: download_candidates_def Let_def pl_fs_def fs_call_def)
  then obtain b p where "download_candidates flaky_net DEFAULT_POLICY ''t1'' ''strict'' (Path True [''s'']) ''ann''
      (remaining_budget demo_account ?wk) False [c, d] ((ps_net (demo_state None))\<lparr>pl_world := w\<rparr>) = (Inr b, p)" by blast
  then have "\<exists>wk' s'. download_page flaky_net DEFAULT_POLICY demo_limits demo_account (Path True [''s'']) ''t1'' None [c, d] ?wk
      ((demo_state None)\<lparr>ps_net := (ps_net (demo_state None))\<lparr>pl_world := w\<rparr>\<rparr>) = (Inr wk', s')"
    by (simp add: download_page_def lift_net_def run_handoff_def demo_limits_def demo_account_def)
  with t cs(1) show ?thesis by (auto simp: process_page_def Let_def demo_account_def)
qed


subsection \<open>A rejected cursor\<close>

lemma graph_gone:
  assumes "\<forall>n tok. \<exists>hs body. http_get N n url (Some tok) = Response 410 hs body" and "0 < max_attempts pol"
  shows "\<exists>u p'. graph_get_json N pol url token p = (Inl (GraphResyncRequired u), p')"
proof -
  obtain k where k: "max_attempts pol = Suc k" using assms(2) gr0_implies_Suc by blast
  obtain hs body where "http_get N (pl_requests p) url (Some token) = Response 410 hs body" using assms(1) by blast
  then show ?thesis
    by (simp add: graph_get_json_def k graph_attempts.simps(2) send_def Let_def classify_status_def RETRYABLE_STATUS_CODES_def)
qed

lemma walk_gone:
  assumes "\<forall>n tok. \<exists>hs body. http_get N n url (Some tok) = Response 410 hs body" and "0 < max_attempts pol"
    and "walk_pages N pol L A staging_root token proc start pages (first_walk url) s = (Inr r, s')" and "url \<noteq> []"
  shows "\<exists>u res. r = Inl res \<and> pr_downloaded res = [] \<and>
    ps_files s' = (ps_files s)\<lparr>af_marker := Some (''delta_resync_required_410'', u)\<rparr>"
proof -
  obtain u p' where "graph_get_json N pol url token (ps_net s) = (Inl (GraphResyncRequired u), p')"
    using graph_gone [OF assms(1,2)] by blast
  moreover obtain c cs where "url = c # cs" using assms(4) by (cases url) auto
  ultimately show ?thesis
    using assms(3) [unfolded walk_pages.simps [of N pol L A staging_root token proc start pages "first_walk url"]]
    by (auto simp: first_walk_def lift_net_def nothing_polled_def mark_resync_required_def split: if_splits nat.splits)
qed

lemma lift_net_files: "lift_net m s = (r, s') \<Longrightarrow> ps_files s' = ps_files s"
  by (auto simp: lift_net_def split: prod.splits)

text \<open>
  C34: a cursor the service no longer accepts stays.  When the service answers 410 for the saved
  cursor, a poll that completes downloads nothing, writes the resync marker and leaves the cursor as it
  is; the next poll starts from the same cursor, since nothing reads the marker.
\<close>

theorem rejected_cursor_is_kept:
  assumes "\<forall>n tok. \<exists>hs body. http_get N n cursor (Some tok) = Response 410 hs body" and "0 < max_attempts pol"
    and "load_cursor (ps_files s) = Some cursor" and "af_cooldown_until (ps_files s) = None"
    and "poll_account_once N pol L A staging_root token proc s = (Inr res, s')"
  shows "pr_downloaded res = [] \<and> load_cursor (ps_files s') = Some cursor \<and>
    (\<exists>u. af_marker (ps_files s') = Some (''delta_resync_required_410'', u)) \<and> af_cooldown_until (ps_files s') = None"
proof -
  have "cursor \<noteq> []" using assms(3) by (auto simp: load_cursor_def split: option.splits if_splits)
  from assms(3-5) obtain s1 s2 r start where s1: "ps_files s1 = ps_files s"
    and wp: "walk_pages N pol L A staging_root token proc start (lm_max_delta_pages L) (first_walk cursor) s1 = (Inr r, s2)"
    and fin: "(case r of Inl result \<Rightarrow> (Inr result, s2) | Inr (wk, halted) \<Rightarrow> finish_poll N L wk halted s2) = (Inr res, s')"
    by (auto simp: poll_account_once_def Let_def and_then_eq_Inr is_breaker_cooldown_active_def draw_time_def
        dest!: lift_net_files)
  from walk_gone [OF assms(1,2) wp \<open>cursor \<noteq> []\<close>] fin s1 assms(3,4) show ?thesis
    by (auto simp: load_cursor_def)
qed


definition gone_net :: net where
  "gone_net = flaky_net\<lparr>http_get := (\<lambda>n url tok. Response 410 [] [])\<rparr>"

theorem rejected_cursor_is_kept_witness:
  "\<exists>res s'. poll_account_once gone_net DEFAULT_POLICY demo_limits demo_account (Path True [''s'']) ''t1'' None
      (demo_state (Some ''old'')) = (Inr res, s') \<and> load_cursor (ps_files s') = Some ''old''"
proof -
  let ?s = "demo_state (Some ''old'')"
  have cur: "load_cursor (ps_files ?s) = Some ''old''"
    by (simp add: load_cursor_def demo_state_def py_strip_def strip_by_def py_space_def)
  have "\<exists>res s'. poll_account_once gone_net DEFAULT_POLICY demo_limits demo_account (Path True [''s'']) ''t1'' None ?s = (Inr res, s')"
    using cur
    by (simp add: poll_account_once_def Let_def lift_net_def pl_fs_def fs_call_def fs_unlink_def key_unlink_def
        demo_state_def fresh_poller_def empty_fs_def node_at_def draw_time_def is_breaker_cooldown_active_def
        recover_staging_tmp_files_def fs_exists_def fs_node_def boundary_manifest_path_for_account_def child_def joinpath_def
        path_of_def fs_key_def resolve_def demo_account_def demo_limits_def first_walk_def walk_pages.simps
        graph_get_json_def DEFAULT_POLICY_def numeral_eq_Suc graph_attempts.simps send_def gone_net_def flaky_net_def
        classify_status_def RETRYABLE_STATUS_CODES_def)
  then obtain res s' where run: "poll_account_once gone_net DEFAULT_POLICY demo_limits demo_account (Path True [''s'']) ''t1'' None ?s = (Inr res, s')"
    by blast
  have "load_cursor (ps_files s') = Some ''old''"
    using rejected_cursor_is_kept [OF _ _ cur _ run] by (simp add: gone_net_def DEFAULT_POLICY_def demo_state_def)
  with run show ?thesis by blast
qed

end
