(* ===== verification/Ini.thy ===== *)
theory Ini
  imports Py_Text Paths
begin

section \<open>Configuration files as \<open>configparser\<close> reads them\<close>

text \<open>
  \<open>ConfigParser(interpolation=None)\<close> with \<open>optionxform = str\<close>, as \<open>config.load_config\<close> sets it up:
  the line loop of \<open>read_file\<close> with comments, section headers, the two delimiters, continuation
  lines by indentation, blank lines inside values, the strict checks against repeated sections and
  options, and the \<open>DEFAULT\<close> section whose options every section falls back to.  Every
  \<open>configparser.Error\<close> is a \<open>ParserError\<close> here.
\<close>

record ini =
  ini_defaults :: "(string, string) tbl"
  ini_sections :: "(string, (string, string) tbl) tbl"

text \<open>The state of the loop: values are lists of lines until the end of the file.\<close>

record ini_reader =
  ir_defaults :: "(string, string list) tbl"
  ir_sections :: "(string, (string, string list) tbl) tbl"
  ir_section :: "string option"
  ir_option :: "string option"
  ir_indent :: nat
  ir_errors :: bool

definition new_reader :: ini_reader where
  "new_reader = \<lparr>ir_defaults = [], ir_sections = [], ir_section = None, ir_option = None,
     ir_indent = 0, ir_errors = False\<rparr>"

definition py_rstrip :: "string \<Rightarrow> string" where
  "py_rstrip s = rev (dropWhile py_space (rev s))"

text \<open>Text mode reads \<open>\r\n\<close> and \<open>\r\<close> as line ends too.\<close>

fun universal_newlines :: "string \<Rightarrow> string" where
  "universal_newlines [] = []"
| "universal_newlines [c] = [if c = CHR 0x0D then CHR 0x0A else c]"
| "universal_newlines (c # d # s) =
     (if c = CHR 0x0D
      then CHR 0x0A # (if d = CHR 0x0A then universal_newlines s else universal_newlines (d # s))
      else c # universal_newlines (d # s))"

definition text_lines :: "string \<Rightarrow> string list" where
  "text_lines s =
     (let ls = split_on (CHR 0x0A) (universal_newlines s) in if last ls = [] then butlast ls else ls)"

text \<open>\<open>\[(?P<header>.+)\]\<close> matched at the start: up to the last closing bracket.\<close>

definition section_header :: "string \<Rightarrow> string option" where
  "section_header v =
     (case v of
        [] \<Rightarrow> None
      | c # r \<Rightarrow>
          let h = rev (tl (dropWhile (\<lambda>c. c \<noteq> CHR '']'') (rev r))) in
          if c = CHR ''['' \<and> CHR '']'' \<in> set r \<and> h \<noteq> [] then Some h else None)"

text \<open>\<open>(?P<option>.*?)\s*(?:=|:)\s*(?P<value>.*)$\<close>.\<close>

definition is_delim :: "char \<Rightarrow> bool" where
  "is_delim c \<longleftrightarrow> c = CHR ''='' \<or> c = CHR '':''"

definition option_line :: "string \<Rightarrow> (string \<times> string) option" where
  "option_line v =
     (case dropWhile (\<lambda>c. \<not> is_delim c) v of
        [] \<Rightarrow> None
      | d # r \<Rightarrow> Some (py_rstrip (takeWhile (\<lambda>c. \<not> is_delim c) v), py_strip r))"

definition in_current :: "((string, string list) tbl \<Rightarrow> (string, string list) tbl) \<Rightarrow> ini_reader \<Rightarrow> ini_reader" where
  "in_current g R =
     (case ir_section R of
        None \<Rightarrow> R
      | Some s \<Rightarrow>
          if s = ''DEFAULT'' then R\<lparr>ir_defaults := g (ir_defaults R)\<rparr>
          else R\<lparr>ir_sections := tbl_update s g (ir_sections R)\<rparr>)"

definition current_options :: "ini_reader \<Rightarrow> (string, string list) tbl" where
  "current_options R =
     (case ir_section R of
        None \<Rightarrow> []
      | Some s \<Rightarrow>
          if s = ''DEFAULT'' then ir_defaults R
          else (case tbl_get (ir_sections R) s of None \<Rightarrow> [] | Some ob \<Rightarrow> ob))"

definition open_option :: "ini_reader \<Rightarrow> string option" where
  "open_option R = (case ir_option R of None \<Rightarrow> None | Some k \<Rightarrow> if k = [] \<or> ir_section R = None then None else Some k)"

definition add_value_line :: "string \<Rightarrow> ini_reader \<Rightarrow> ini_reader" where
  "add_value_line v R =
     (case open_option R of None \<Rightarrow> R | Some k \<Rightarrow> in_current (tbl_update k (\<lambda>ls. ls @ [v])) R)"

definition start_section :: "string \<Rightarrow> ini_reader \<Rightarrow> ini_reader res" where
  "start_section s R =
     (if s \<in> set (map fst (ir_sections R)) then Inl (ParserError ''DuplicateSectionError'')
      else if s = ''DEFAULT'' then Inr (R\<lparr>ir_section := Some s, ir_option := None\<rparr>)
      else Inr (R\<lparr>ir_sections := ir_sections R @ [(s, [])], ir_section := Some s, ir_option := None\<rparr>))"

definition start_option :: "string \<Rightarrow> ini_reader \<Rightarrow> ini_reader res" where
  "start_option v R =
     (case option_line v of
        None \<Rightarrow> Inr (R\<lparr>ir_errors := True\<rparr>)
      | Some (k, x) \<Rightarrow>
          if k \<in> set (map fst (current_options R)) then Inl (ParserError ''DuplicateOptionError'')
          else Inr ((in_current (\<lambda>ob. ob @ [(k, [x])]) R)\<lparr>ir_option := Some k, ir_errors := ir_errors R \<or> k = []\<rparr>))"

definition read_line :: "string \<Rightarrow> ini_reader \<Rightarrow> ini_reader res" where
  "read_line line R =
     (let v = py_strip line; indent = length (takeWhile py_space line) in
      if v = [] then Inr (add_value_line [] R)
      else if hd v = CHR ''#'' \<or> hd v = CHR '';'' then Inr R
      else if open_option R \<noteq> None \<and> ir_indent R < indent then Inr (add_value_line v R)
      else
        let R = R\<lparr>ir_indent := indent\<rparr> in
        (case section_header v of
           Some s \<Rightarrow> start_section s R
         | None \<Rightarrow>
             if ir_section R = None then Inl (ParserError ''MissingSectionHeaderError'')
             else start_option v R))"

fun read_lines :: "string list \<Rightarrow> ini_reader \<Rightarrow> ini_reader res" where
  "read_lines [] R = Inr R"
| "read_lines (l # ls) R = (case read_line l R of Inl e \<Rightarrow> Inl e | Inr R \<Rightarrow> read_lines ls R)"

definition join_values :: "(string, string list) tbl \<Rightarrow> (string, string) tbl" where
  "join_values ob = map (\<lambda>(k, ls). (k, py_rstrip (join_with [CHR 0x0A] ls))) ob"

definition read_ini :: "string \<Rightarrow> ini res" where
  "read_ini t =
     (case read_lines (text_lines t) new_reader of
        Inl e \<Rightarrow> Inl e
      | Inr R \<Rightarrow>
          if ir_errors R then Inl (ParserError ''ParsingError'')
          else Inr \<lparr>ini_defaults = join_values (ir_defaults R),
                    ini_sections = map (\<lambda>(s, ob). (s, join_values ob)) (ir_sections R)\<rparr>)"

text \<open>\<open>section.get(key, fallback=None)\<close>, and the names \<open>parser.sections()\<close> lists.\<close>

definition section_names :: "ini \<Rightarrow> string list" where
  "section_names I = map fst (ini_sections I)"

definition option_value :: "ini \<Rightarrow> string \<Rightarrow> string \<Rightarrow> string option" where
  "option_value I s k =
     (case tbl_get (case tbl_get (ini_sections I) s of None \<Rightarrow> [] | Some ob \<Rightarrow> ob) k of
        Some v \<Rightarrow> Some v
      | None \<Rightarrow> tbl_get (ini_defaults I) k)"


subsection \<open>No section is read twice\<close>

lemma sections_in_current [simp]: "map fst (ir_sections (in_current g R)) = map fst (ir_sections R)"
proof -
  have "map fst (tbl_update s g t) = map fst t" for s and t :: "(string, (string, string list) tbl) tbl"
    by (auto simp: tbl_update_def update_keys map_of_eq_None_iff dest: map_of_SomeD split: option.split)
  then show ?thesis by (simp add: in_current_def split: option.split)
qed

lemma sections_add_value_line [simp]: "map fst (ir_sections (add_value_line v R)) = map fst (ir_sections R)"
  by (simp add: add_value_line_def split: option.split)

lemma read_line_distinct:
  assumes "read_line l R = Inr R'" and "distinct (map fst (ir_sections R))"
  shows "distinct (map fst (ir_sections R'))"
  using assms by (auto simp: read_line_def start_section_def start_option_def Let_def
      split: if_splits option.splits)

lemma read_lines_distinct:
  "read_lines ls R = Inr R' \<Longrightarrow> distinct (map fst (ir_sections R)) \<Longrightarrow> distinct (map fst (ir_sections R'))"
  by (induction ls arbitrary: R) (auto split: sum.splits dest: read_line_distinct)

lemma distinct_section_names: "read_ini t = Inr I \<Longrightarrow> distinct (section_names I)"
  by (auto simp: read_ini_def section_names_def new_reader_def case_prod_unfold comp_def
      dest!: read_lines_distinct split: sum.splits if_splits)

subsection \<open>Errors\<close>

lemma read_lines_error: "read_lines ls R = Inl e \<Longrightarrow> \<exists>m. e = ParserError m"
proof (induction ls arbitrary: R)
  case (Cons l ls)
  have "read_line l R = Inl x \<Longrightarrow> \<exists>m. x = ParserError m" for x
    by (auto simp: read_line_def start_section_def start_option_def Let_def split: if_splits option.splits prod.splits)
  with Cons show ?case by (auto split: sum.splits)
qed simp

lemma read_ini_error: "read_ini t = Inl e \<Longrightarrow> \<exists>m. e = ParserError m"
  using read_lines_error by (auto simp: read_ini_def split: sum.splits if_splits)

end
