(* ===== verification/Config.thy ===== *)
theory Config
  imports Ini Filesys Retry Delta "HOL-Library.State_Monad"
begin

section \<open>Configuration (\<open>config.py\<close>)\<close>

text \<open>
  \<open>load_config\<close> reads the INI file, converts every key with its getter, collects the text of every
  complaint in one list and raises them all together.  The list is the state of a state monad, as the
  argument \<open>errors\<close> of the source's functions is; the records are the source's data classes, field by
  field.  Reading an account also looks for the file the onboarding leaves beside the token cache, and
  renames one with its older name, so the file store is threaded through that step.  \<open>float\<close> and
  \<open>json.loads\<close> of a text are arguments, as for the other components.
\<close>

subsection \<open>Data\<close>

definition SUPPORTED_CONFIG_VERSION :: int where "SUPPORTED_CONFIG_VERSION = 2"
definition SUPPORTED_PROVIDER :: string where "SUPPORTED_PROVIDER = ''onedrive''"
definition SUPPORTED_STEM_MODE :: "string list" where "SUPPORTED_STEM_MODE = [''exact_stem'']"
definition SUPPORTED_COMPONENT_ORDER :: "string list" where "SUPPORTED_COMPONENT_ORDER = [''photo_first'']"
definition SUPPORTED_CONFLICT_POLICY :: "string list" where "SUPPORTED_CONFLICT_POLICY = [''nearest_capture_time'']"
definition SUPPORTED_INTEGRITY_MODES :: "string list" where "SUPPORTED_INTEGRITY_MODES = [''strict'', ''tolerant'']"

record CoreConfig =
  config_version :: int
  poll_interval_minutes :: int
  process_accounts_in_config_order :: bool
  staging_path :: path
  pending_path :: path
  accepted_path :: path
  accepted_storage_template :: string
  rejected_path :: path
  trash_path :: path
  registry_path :: path
  staging_on_same_pool :: bool
  storage_template :: string
  verify_sha256_on_first_download :: bool
  max_downloads_per_poll :: int
  max_poll_runtime_seconds :: int
  tmp_ttl_minutes :: int
  failed_ttl_hours :: int
  orphan_ttl_days :: int
  live_photo_capture_tolerance_seconds :: int
  live_photo_stem_mode :: string
  live_photo_component_order :: string
  live_photo_conflict_policy :: string
  sync_hash_import_enabled :: bool
  sync_hash_import_path :: path
  sync_hash_import_glob :: string
  thumbnail_cache_path :: path
  integrity_mode :: string
  drift_warning_threshold_ratio :: pyfloat
  drift_critical_threshold_ratio :: pyfloat
  drift_min_events_for_evaluation :: int
  drift_fail_fast_enabled :: bool
  delta_loop_resync_threshold :: int
  delta_breaker_ghost_threshold :: int
  delta_breaker_stale_page_threshold :: int
  delta_breaker_cooldown_seconds :: int
  account_worker_count :: int
  adaptive_backpressure_enabled :: bool
  backpressure_retry_threshold :: int
  backpressure_transport_error_threshold :: int
  backpressure_cooldown_seconds :: int

record LoggingConfig =
  log_level :: string
  console_format :: string

record WebConfig =
  api_token :: string
  bind_host :: string
  bind_port :: int
  cors_allowed_origins :: "string list"

record ImportConfig =
  chunk_size :: int

record AccountConfig =
  acc_name :: string
  acc_enabled :: bool
  acc_display_name :: string
  acc_provider :: string
  acc_authority :: string
  acc_client_id :: string
  acc_onedrive_root :: string
  acc_token_cache :: path
  acc_delta_cursor :: path
  acc_max_downloads :: "int option"
  acc_resolved_onedrive_root :: "string option"

definition effective_onedrive_root :: "AccountConfig \<Rightarrow> string" where
  "effective_onedrive_root a =
     (case acc_resolved_onedrive_root a of
        Some (c # r) \<Rightarrow> c # r
      | _ \<Rightarrow> acc_onedrive_root a)"

record AppConfig =
  app_source_path :: path
  app_core :: CoreConfig
  app_logging :: LoggingConfig
  app_web :: WebConfig
  app_accounts :: "AccountConfig list"
  app_import :: ImportConfig

definition ordered_enabled_accounts :: "AppConfig \<Rightarrow> AccountConfig list" where
  "ordered_enabled_accounts cfg =
     (let enabled = filter acc_enabled (app_accounts cfg) in
      if process_accounts_in_config_order (app_core cfg) then enabled else sort_key acc_name enabled)"

definition default_core :: CoreConfig where
  "default_core = \<lparr>
     config_version = SUPPORTED_CONFIG_VERSION,
     poll_interval_minutes = 15,
     process_accounts_in_config_order = True,
     staging_path = path_of ''/tmp/staging'',
     pending_path = path_of ''/tmp/pending'',
     accepted_path = path_of ''/tmp/accepted'',
     accepted_storage_template = ''{yyyy}/{mm}/{original}'',
     rejected_path = path_of ''/tmp/rejected'',
     trash_path = path_of ''/tmp/trash'',
     registry_path = path_of ''/tmp/registry.db'',
     staging_on_same_pool = False,
     storage_template = ''{yyyy}/{mm}/{original}'',
     verify_sha256_on_first_download = True,
     max_downloads_per_poll = 200,
     max_poll_runtime_seconds = 300,
     tmp_ttl_minutes = 120,
     failed_ttl_hours = 24,
     orphan_ttl_days = 7,
     live_photo_capture_tolerance_seconds = 3,
     live_photo_stem_mode = ''exact_stem'',
     live_photo_component_order = ''photo_first'',
     live_photo_conflict_policy = ''nearest_capture_time'',
     sync_hash_import_enabled = True,
     sync_hash_import_path = path_of ''/nightfall/media/pictures'',
     sync_hash_import_glob = ''.hashes.sha1'',
     thumbnail_cache_path = path_of ''/tmp/cache/thumbnails'',
     integrity_mode = ''strict'',
     drift_warning_threshold_ratio = Fin (1 / 20),
     drift_critical_threshold_ratio = Fin (1 / 5),
     drift_min_events_for_evaluation = 20,
     drift_fail_fast_enabled = True,
     delta_loop_resync_threshold = 3,
     delta_breaker_ghost_threshold = 10,
     delta_breaker_stale_page_threshold = 10,
     delta_breaker_cooldown_seconds = 300,
     account_worker_count = 1,
     adaptive_backpressure_enabled = True,
     backpressure_retry_threshold = 20,
     backpressure_transport_error_threshold = 5,
     backpressure_cooldown_seconds = 300\<rparr>"

subsection \<open>Getters\<close>

type_synonym 'a check = "(string list, 'a) state"

datatype 'a fallback = Required | Default 'a

record section_proxy =
  sec_name :: string
  sec_get :: "string \<Rightarrow> string option"

definition section_of :: "ini \<Rightarrow> string \<Rightarrow> section_proxy" where
  "section_of I s = \<lparr>sec_name = s, sec_get = option_value I s\<rparr>"

definition report :: "string \<Rightarrow> unit check" where
  "report msg = State_Monad.update (\<lambda>errors. errors @ [msg])"

definition complain :: "section_proxy \<Rightarrow> string \<Rightarrow> string \<Rightarrow> 'a \<Rightarrow> 'a check" where
  "complain S what key x = do { report (''['' @ sec_name S @ ''] '' @ what @ '': '' @ key); State_Monad.return x }"

text \<open>A missing value, and the value an unreadable one is replaced with.\<close>

definition missing :: "section_proxy \<Rightarrow> string \<Rightarrow> 'a \<Rightarrow> 'a fallback \<Rightarrow> 'a check" where
  "missing S key none fb =
     (case fb of
        Required \<Rightarrow> complain S ''missing required key'' key none
      | Default d \<Rightarrow> State_Monad.return d)"

definition instead :: "'a \<Rightarrow> 'a fallback \<Rightarrow> 'a" where
  "instead none fb = (case fb of Required \<Rightarrow> none | Default d \<Rightarrow> d)"

definition get_str :: "section_proxy \<Rightarrow> string \<Rightarrow> string fallback \<Rightarrow> string check" where
  "get_str S key fb =
     (case sec_get S key of
        None \<Rightarrow> missing S key [] fb
      | Some raw \<Rightarrow>
          if fb = Required \<and> py_strip raw = [] then complain S ''key must not be empty'' key []
          else State_Monad.return (py_strip raw))"

definition get_path :: "section_proxy \<Rightarrow> string \<Rightarrow> string fallback \<Rightarrow> path check" where
  "get_path S key fb =
     do { v \<leftarrow> get_str S key fb; State_Monad.return (if v = [] then path_of ''.'' else path_of v) }"

definition get_int :: "section_proxy \<Rightarrow> string \<Rightarrow> int fallback \<Rightarrow> int check" where
  "get_int S key fb =
     (case sec_get S key of
        None \<Rightarrow> missing S key 0 fb
      | Some raw \<Rightarrow>
          (case read_int (py_strip raw) of
             Some n \<Rightarrow> State_Monad.return n
           | None \<Rightarrow> complain S ''key must be integer'' key (instead 0 fb)))"

definition get_float :: "(string \<Rightarrow> pyfloat option) \<Rightarrow> section_proxy \<Rightarrow> string \<Rightarrow> pyfloat fallback \<Rightarrow> pyfloat check" where
  "get_float rf S key fb =
     (case sec_get S key of
        None \<Rightarrow> missing S key (Fin 0) fb
      | Some raw \<Rightarrow>
          (case rf (py_strip raw) of
             Some x \<Rightarrow> State_Monad.return x
           | None \<Rightarrow> complain S ''key must be float'' key (instead (Fin 0) fb)))"

definition get_optional_int :: "section_proxy \<Rightarrow> string \<Rightarrow> int \<Rightarrow> int option check" where
  "get_optional_int S key d =
     (case sec_get S key of
        None \<Rightarrow> State_Monad.return (Some d)
      | Some raw \<Rightarrow>
          (case read_int (py_strip raw) of
             Some n \<Rightarrow> State_Monad.return (Some n)
           | None \<Rightarrow> complain S ''key must be integer'' key (Some d)))"

definition get_bool :: "section_proxy \<Rightarrow> string \<Rightarrow> bool fallback \<Rightarrow> bool check" where
  "get_bool S key fb =
     (case sec_get S key of
        None \<Rightarrow> missing S key False fb
      | Some raw \<Rightarrow>
          (let v = py_lower (py_strip raw) in
           if v \<in> set [''1'', ''yes'', ''true'', ''on''] then State_Monad.return True
           else if v \<in> set [''0'', ''no'', ''false'', ''off''] then State_Monad.return False
           else complain S ''key must be boolean'' key (instead False fb)))"

subsection \<open>Sections\<close>

definition parse_core_section :: "(string \<Rightarrow> pyfloat option) \<Rightarrow> section_proxy \<Rightarrow> CoreConfig check" where
  "parse_core_section rf S = do {
     v_staging_path \<leftarrow> get_path S ''staging_path'' Required;
     v_pending_path \<leftarrow> get_path S ''pending_path'' Required;
     v_accepted_path \<leftarrow> get_path S ''accepted_path'' Required;
     v_rejected_path \<leftarrow> get_path S ''rejected_path'' Required;
     v_trash_path \<leftarrow> get_path S ''trash_path'' Required;
     v_config_version \<leftarrow> get_int S ''config_version'' Required;
     v_poll_interval_minutes \<leftarrow> get_int S ''poll_interval_minutes'' (Default 15);
     v_process_accounts_in_config_order \<leftarrow> get_bool S ''process_accounts_in_config_order'' (Default True);
     v_accepted_storage_template \<leftarrow> get_str S ''accepted_storage_template'' (Default ''{yyyy}/{mm}/{original}'');
     v_registry_path \<leftarrow> get_path S ''registry_path'' Required;
     v_staging_on_same_pool \<leftarrow> get_bool S ''staging_on_same_pool'' (Default False);
     v_storage_template \<leftarrow> get_str S ''storage_template'' (Default ''{yyyy}/{mm}/{original}'');
     v_verify_sha256_on_first_download \<leftarrow> get_bool S ''verify_sha256_on_first_download'' (Default True);
     v_max_downloads_per_poll \<leftarrow> get_int S ''max_downloads_per_poll'' (Default 200);
     v_max_poll_runtime_seconds \<leftarrow> get_int S ''max_poll_runtime_seconds'' (Default 300);
     v_tmp_ttl_minutes \<leftarrow> get_int S ''tmp_ttl_minutes'' (Default 120);
     v_failed_ttl_hours \<leftarrow> get_int S ''failed_ttl_hours'' (Default 24);
     v_orphan_ttl_days \<leftarrow> get_int S ''orphan_ttl_days'' (Default 7);
     v_live_photo_capture_tolerance_seconds \<leftarrow> get_int S ''live_photo_capture_tolerance_seconds'' (Default 3);
     v_live_photo_stem_mode \<leftarrow> get_str S ''live_photo_stem_mode'' (Default ''exact_stem'');
     v_live_photo_component_order \<leftarrow> get_str S ''live_photo_component_order'' (Default ''photo_first'');
     v_live_photo_conflict_policy \<leftarrow> get_str S ''live_photo_conflict_policy'' (Default ''nearest_capture_time'');
     v_sync_hash_import_enabled \<leftarrow> get_bool S ''sync_hash_import_enabled'' (Default True);
     v_sync_hash_import_path \<leftarrow> get_path S ''sync_hash_import_path'' Required;
     v_sync_hash_import_glob \<leftarrow> get_str S ''sync_hash_import_glob'' (Default ''.hashes.sha1'');
     v_thumbnail_cache_path \<leftarrow> get_path S ''thumbnail_cache_path''
       (Default (path_str (child (child (path_parent v_staging_path) ''cache'') ''thumbnails'')));
     v_integrity_mode \<leftarrow> get_str S ''integrity_mode'' (Default ''strict'');
     v_drift_warning_threshold_ratio \<leftarrow> get_float rf S ''drift_warning_threshold_ratio'' (Default (Fin (1 / 20)));
     v_drift_critical_threshold_ratio \<leftarrow> get_float rf S ''drift_critical_threshold_ratio'' (Default (Fin (1 / 5)));
     v_drift_min_events_for_evaluation \<leftarrow> get_int S ''drift_min_events_for_evaluation'' (Default 20);
     v_drift_fail_fast_enabled \<leftarrow> get_bool S ''drift_fail_fast_enabled'' (Default True);
     v_delta_loop_resync_threshold \<leftarrow> get_int S ''delta_loop_resync_threshold'' (Default 3);
     v_delta_breaker_ghost_threshold \<leftarrow> get_int S ''delta_breaker_ghost_threshold'' (Default 10);
     v_delta_breaker_stale_page_threshold \<leftarrow> get_int S ''delta_breaker_stale_page_threshold'' (Default 10);
     v_delta_breaker_cooldown_seconds \<leftarrow> get_int S ''delta_breaker_cooldown_seconds'' (Default 300);
     v_account_worker_count \<leftarrow> get_int S ''account_worker_count'' (Default 1);
     v_adaptive_backpressure_enabled \<leftarrow> get_bool S ''adaptive_backpressure_enabled'' (Default True);
     v_backpressure_retry_threshold \<leftarrow> get_int S ''backpressure_retry_threshold'' (Default 20);
     v_backpressure_transport_error_threshold \<leftarrow> get_int S ''backpressure_transport_error_threshold'' (Default 5);
     v_backpressure_cooldown_seconds \<leftarrow> get_int S ''backpressure_cooldown_seconds'' (Default 300);
          State_Monad.return \<lparr>config_version = v_config_version, poll_interval_minutes =
       v_poll_interval_minutes, process_accounts_in_config_order = v_process_accounts_in_config_order,
       staging_path = v_staging_path, pending_path = v_pending_path, accepted_path = v_accepted_path,
       accepted_storage_template = v_accepted_storage_template, rejected_path = v_rejected_path, trash_path =
       v_trash_path, registry_path = v_registry_path, staging_on_same_pool = v_staging_on_same_pool,
       storage_template = v_storage_template, verify_sha256_on_first_download =
       v_verify_sha256_on_first_download, max_downloads_per_poll = v_max_downloads_per_poll,
       max_poll_runtime_seconds = v_max_poll_runtime_seconds, tmp_ttl_minutes = v_tmp_ttl_minutes,
       failed_ttl_hours = v_failed_ttl_hours, orphan_ttl_days = v_orphan_ttl_days,
       live_photo_capture_tolerance_seconds = v_live_photo_capture_tolerance_seconds, live_photo_stem_mode =
       v_live_photo_stem_mode, live_photo_component_order = v_live_photo_component_order,
       live_photo_conflict_policy = v_live_photo_conflict_policy, sync_hash_import_enabled =
       v_sync_hash_import_enabled, sync_hash_import_path = v_sync_hash_import_path, sync_hash_import_glob =
       v_sync_hash_import_glob, thumbnail_cache_path = v_thumbnail_cache_path, integrity_mode =
       v_integrity_mode, drift_warning_threshold_ratio = v_drift_warning_threshold_ratio,
       drift_critical_threshold_ratio = v_drift_critical_threshold_ratio, drift_min_events_for_evaluation =
       v_drift_min_events_for_evaluation, drift_fail_fast_enabled = v_drift_fail_fast_enabled,
       delta_loop_resync_threshold = v_delta_loop_resync_threshold, delta_breaker_ghost_threshold =
       v_delta_breaker_ghost_threshold, delta_breaker_stale_page_threshold =
       v_delta_breaker_stale_page_threshold, delta_breaker_cooldown_seconds =
       v_delta_breaker_cooldown_seconds, account_worker_count = v_account_worker_count,
       adaptive_backpressure_enabled = v_adaptive_backpressure_enabled, backpressure_retry_threshold =
       v_backpressure_retry_threshold, backpressure_transport_error_threshold =
       v_backpressure_transport_error_threshold, backpressure_cooldown_seconds =
       v_backpressure_cooldown_seconds\<rparr>
     }"

definition parse_core :: "(string \<Rightarrow> pyfloat option) \<Rightarrow> ini \<Rightarrow> CoreConfig check" where
  "parse_core rf I =
     (if ''core'' \<notin> set (section_names I)
      then do { report ''Missing required [core] section''; State_Monad.return default_core }
      else parse_core_section rf (section_of I ''core''))"

text \<open>\<open>str.upper\<close> below code point 256; the capitals of two letters are beyond it and stay as they are.\<close>

definition capital_letter :: "char \<Rightarrow> string" where
  "capital_letter c = (let n = (of_char c :: nat) in
     if 97 \<le> n \<and> n \<le> 122 \<or> 224 \<le> n \<and> n \<le> 254 \<and> n \<noteq> 247 then [char_of (n - 32)]
     else if n = 223 then ''SS'' else [c])"

definition parse_logging :: "ini \<Rightarrow> LoggingConfig check" where
  "parse_logging I =
     (if ''logging'' \<notin> set (section_names I)
      then State_Monad.return \<lparr>log_level = ''INFO'', console_format = ''json''\<rparr>
      else do {
        lv \<leftarrow> get_str (section_of I ''logging'') ''log_level'' (Default ''INFO'');
        cf \<leftarrow> get_str (section_of I ''logging'') ''console_format'' (Default ''json'');
        State_Monad.return \<lparr>log_level = concat (map capital_letter lv), console_format = cf\<rparr> })"

definition parse_web :: "ini \<Rightarrow> WebConfig check" where
  "parse_web I =
     (if ''web'' \<notin> set (section_names I)
      then State_Monad.return \<lparr>api_token = [], bind_host = ''127.0.0.1'', bind_port = 8000,
             cors_allowed_origins = [''http://localhost:8000'']\<rparr>
      else do {
        raw_cors \<leftarrow> get_str (section_of I ''web'') ''cors_allowed_origins'' (Default ''http://localhost:8000'');
        let origins = filter (\<lambda>s. s \<noteq> []) (map py_strip (split_on (CHR '','') raw_cors));
        tok \<leftarrow> get_str (section_of I ''web'') ''api_token'' (Default []);
        host \<leftarrow> get_str (section_of I ''web'') ''bind_host'' (Default ''127.0.0.1'');
        port \<leftarrow> get_int (section_of I ''web'') ''bind_port'' (Default 8000);
        State_Monad.return \<lparr>api_token = tok, bind_host = host, bind_port = port,
          cors_allowed_origins = (if origins = [] then [''http://localhost:8000''] else origins)\<rparr> })"

definition parse_import :: "ini \<Rightarrow> ImportConfig check" where
  "parse_import I =
     (if ''import'' \<notin> set (section_names I) then State_Monad.return \<lparr>chunk_size = 1000\<rparr>
      else do {
        n \<leftarrow> get_int (section_of I ''import'') ''chunk_size'' (Default 1000);
        State_Monad.return \<lparr>chunk_size = n\<rparr> })"

subsection \<open>Accounts\<close>

definition onboarding_metadata_path :: "path \<Rightarrow> path" where
  "onboarding_metadata_path p = child (path_parent p) (path_stem p @ ''.onboarding.json'')"

definition legacy_onboarding_metadata_path :: "path \<Rightarrow> path" where
  "legacy_onboarding_metadata_path p =
     (if path_suffix p \<noteq> [] then with_suffix p (path_suffix p @ ''.onboarding.json'')
      else path_of (path_str p @ ''.onboarding.json''))"

definition migrate_onboarding_file :: "path \<Rightarrow> fs \<Rightarrow> unit res \<times> fs" where
  "migrate_onboarding_file p f =
     (if \<not> fs_exists f (onboarding_metadata_path p) \<and> fs_exists f (legacy_onboarding_metadata_path p)
      then and_then (fs_mkdirs (path_parent (onboarding_metadata_path p)) f) (\<lambda>_ f.
           fs_rename (legacy_onboarding_metadata_path p) (onboarding_metadata_path p) f)
      else (Inr (), f))"

definition resolved_root_in :: "(string \<Rightarrow> gval option) \<Rightarrow> path \<Rightarrow> fs \<Rightarrow> string option" where
  "resolved_root_in loads p f =
     (case fst (fs_read (onboarding_metadata_path p) f) of
        Inl e \<Rightarrow> None
      | Inr body \<Rightarrow>
          (case loads body of
             Some (GObj payload) \<Rightarrow>
               (case gget payload ''resolved_onedrive_root'' of
                  GStr r \<Rightarrow>
                    (let n = py_strip r in
                     if n = [] then None else if prefix ''/'' n then Some n else Some (''/'' @ n))
                | _ \<Rightarrow> None)
           | _ \<Rightarrow> None))"

definition load_onboarding_resolved_root ::
  "(string \<Rightarrow> gval option) \<Rightarrow> path \<Rightarrow> fs \<Rightarrow> string option res \<times> fs" where
  "load_onboarding_resolved_root loads p f =
     and_then (migrate_onboarding_file p f) (\<lambda>_ f. (Inr (resolved_root_in loads p f), f))"

definition parse_account :: "section_proxy \<Rightarrow> string \<Rightarrow> int \<Rightarrow> AccountConfig check" where
  "parse_account S name inherited = do {
     cache \<leftarrow> get_path S ''token_cache'' Required;
     enabled \<leftarrow> get_bool S ''enabled'' (Default True);
     display \<leftarrow> get_str S ''display_name'' (Default name);
     provider \<leftarrow> get_str S ''provider'' Required;
     authority \<leftarrow> get_str S ''authority'' (Default ''https://login.microsoftonline.com/consumers'');
     client \<leftarrow> get_str S ''client_id'' Required;
     root \<leftarrow> get_str S ''onedrive_root'' Required;
     cursor \<leftarrow> get_path S ''delta_cursor'' Required;
     limit \<leftarrow> get_optional_int S ''max_downloads'' inherited;
     State_Monad.return \<lparr>acc_name = name, acc_enabled = enabled, acc_display_name = display,
       acc_provider = provider, acc_authority = authority, acc_client_id = client, acc_onedrive_root = root,
       acc_token_cache = cache, acc_delta_cursor = cursor, acc_max_downloads = limit,
       acc_resolved_onedrive_root = None\<rparr>
   }"

fun parse_accounts ::
  "(string \<Rightarrow> gval option) \<Rightarrow> ini \<Rightarrow> int \<Rightarrow> string list \<Rightarrow> string list \<Rightarrow> fs
     \<Rightarrow> (AccountConfig list \<times> string list) res \<times> fs" where
  "parse_accounts loads I inherited [] errors f = (Inr ([], errors), f)"
| "parse_accounts loads I inherited (s # ss) errors f =
     (if \<not> prefix ''account.'' s then parse_accounts loads I inherited ss errors f
      else
        (case run_state (parse_account (section_of I s) (drop 8 s) inherited) errors of (a, errors) \<Rightarrow>
         and_then (load_onboarding_resolved_root loads (acc_token_cache a) f) (\<lambda>r f.
         and_then (parse_accounts loads I inherited ss errors f) (\<lambda>(as, errors) f.
         (Inr (a\<lparr>acc_resolved_onedrive_root := r\<rparr> # as, errors), f)))))"

subsection \<open>Validation\<close>

fun report_all :: "(bool \<times> string) list \<Rightarrow> unit check" where
  "report_all [] = State_Monad.return ()"
| "report_all ((bad, msg) # cs) = do { (if bad then report msg else State_Monad.return ()); report_all cs }"

definition py_list_str :: "string list \<Rightarrow> string" where
  "py_list_str xs = ''['' @ join_with '', '' (map (\<lambda>x. [CHR 0x27] @ x @ [CHR 0x27]) xs) @ '']''"

definition has_name_token :: "string \<Rightarrow> bool" where
  "has_name_token t \<longleftrightarrow> contains_str ''{original}'' t \<or> contains_str ''{sha8}'' t"

definition core_checks :: "CoreConfig \<Rightarrow> (bool \<times> string) list" where
  "core_checks c =
    [(config_version c \<noteq> SUPPORTED_CONFIG_VERSION,
       ''[core] config_version must be '' @ int_str SUPPORTED_CONFIG_VERSION @ ''; got '' @ int_str (config_version c)),
     (poll_interval_minutes c \<le> 0, ''[core] poll_interval_minutes must be > 0''),
     (max_downloads_per_poll c \<le> 0, ''[core] max_downloads_per_poll must be > 0''),
     (max_poll_runtime_seconds c \<le> 0, ''[core] max_poll_runtime_seconds must be > 0''),
     (live_photo_capture_tolerance_seconds c < 0, ''[core] live_photo_capture_tolerance_seconds must be >= 0''),
     (live_photo_stem_mode c \<notin> set SUPPORTED_STEM_MODE,
       ''[core] live_photo_stem_mode must be one of: '' @ py_list_str SUPPORTED_STEM_MODE),
     (live_photo_component_order c \<notin> set SUPPORTED_COMPONENT_ORDER,
       ''[core] live_photo_component_order must be one of: '' @ py_list_str SUPPORTED_COMPONENT_ORDER),
     (live_photo_conflict_policy c \<notin> set SUPPORTED_CONFLICT_POLICY,
       ''[core] live_photo_conflict_policy must be one of: '' @ py_list_str SUPPORTED_CONFLICT_POLICY),
     (integrity_mode c \<notin> set SUPPORTED_INTEGRITY_MODES,
       ''[core] integrity_mode must be one of: '' @ py_list_str SUPPORTED_INTEGRITY_MODES),
     (flt_less (drift_warning_threshold_ratio c) (Fin 0), ''[core] drift_warning_threshold_ratio must be >= 0''),
     (flt_less (drift_critical_threshold_ratio c) (Fin 0), ''[core] drift_critical_threshold_ratio must be >= 0''),
     (flt_less (drift_critical_threshold_ratio c) (drift_warning_threshold_ratio c),
       ''[core] drift_warning_threshold_ratio must be <= drift_critical_threshold_ratio''),
     (drift_min_events_for_evaluation c \<le> 0, ''[core] drift_min_events_for_evaluation must be > 0''),
     (delta_loop_resync_threshold c \<le> 0, ''[core] delta_loop_resync_threshold must be > 0''),
     (delta_breaker_ghost_threshold c \<le> 0, ''[core] delta_breaker_ghost_threshold must be > 0''),
     (delta_breaker_stale_page_threshold c \<le> 0, ''[core] delta_breaker_stale_page_threshold must be > 0''),
     (delta_breaker_cooldown_seconds c \<le> 0, ''[core] delta_breaker_cooldown_seconds must be > 0''),
     (account_worker_count c \<le> 0, ''[core] account_worker_count must be > 0''),
     (backpressure_retry_threshold c \<le> 0, ''[core] backpressure_retry_threshold must be > 0''),
     (backpressure_transport_error_threshold c \<le> 0, ''[core] backpressure_transport_error_threshold must be > 0''),
     (backpressure_cooldown_seconds c \<le> 0, ''[core] backpressure_cooldown_seconds must be > 0''),
     (\<not> has_name_token (storage_template c), ''[core] storage_template must include at least {original} or {sha8}''),
     (\<not> has_name_token (accepted_storage_template c),
       ''[core] accepted_storage_template must include at least {original} or {sha8}'')]"

definition queue_roots :: "string list \<Rightarrow> CoreConfig \<Rightarrow> (string \<times> string list) list" where
  "queue_roots cwd c =
     [(''pending_path'', resolve cwd (pending_path c)), (''accepted_path'', resolve cwd (accepted_path c)),
      (''rejected_path'', resolve cwd (rejected_path c)), (''trash_path'', resolve cwd (trash_path c))]"

fun check_roots :: "(string \<times> string list) list \<Rightarrow> (string list, string) tbl \<Rightarrow> unit check" where
  "check_roots [] seen = State_Monad.return ()"
| "check_roots ((name, p) # rs) seen =
     (case tbl_get seen p of
        Some other \<Rightarrow> do {
          report (''[core] '' @ name @ '' must not equal '' @ other @ ''; lifecycle roots must remain distinct'');
          check_roots rs seen }
      | None \<Rightarrow> check_roots rs ((p, name) # seen))"

definition validate_core :: "string list \<Rightarrow> CoreConfig \<Rightarrow> unit check" where
  "validate_core cwd c = do { report_all (core_checks c); check_roots (queue_roots cwd c) [] }"

definition account_name_ok :: "string \<Rightarrow> bool" where
  "account_name_ok s \<longleftrightarrow> s \<noteq> [] \<and> list_all (\<lambda>c. ascii_lower c \<or> ascii_digit c \<or> c = CHR ''_'' \<or> c = CHR ''-'') s"

definition account_checks :: "string list \<Rightarrow> path list \<Rightarrow> path list \<Rightarrow> AccountConfig \<Rightarrow> (bool \<times> string) list" where
  "account_checks names caches cursors a =
    [(\<not> account_name_ok (acc_name a), ''Account name must match ^[a-z0-9_-]+$: '' @ acc_name a),
     (acc_name a \<in> set names, ''Duplicate account section name: '' @ acc_name a),
     (acc_provider a \<noteq> SUPPORTED_PROVIDER,
       ''[account.'' @ acc_name a @ ''] provider must be '' @ [CHR 0x27] @ SUPPORTED_PROVIDER @ [CHR 0x27]),
     (acc_token_cache a \<in> set caches,
       ''Duplicate token_cache path across accounts: '' @ path_str (acc_token_cache a)),
     (acc_delta_cursor a \<in> set cursors,
       ''Duplicate delta_cursor path across accounts: '' @ path_str (acc_delta_cursor a)),
     ((case acc_max_downloads a of None \<Rightarrow> False | Some n \<Rightarrow> n \<le> 0),
       ''[account.'' @ acc_name a @ ''] max_downloads must be > 0 when set'')]"

fun check_accounts :: "string list \<Rightarrow> path list \<Rightarrow> path list \<Rightarrow> AccountConfig list \<Rightarrow> unit check" where
  "check_accounts names caches cursors [] = State_Monad.return ()"
| "check_accounts names caches cursors (a # as) = do {
     report_all (account_checks names caches cursors a);
     check_accounts (acc_name a # names) (acc_token_cache a # caches) (acc_delta_cursor a # cursors) as }"

definition validate_accounts :: "AccountConfig list \<Rightarrow> unit check" where
  "validate_accounts accounts =
     (if accounts = [] then report ''At least one [account.<name>] section is required''
      else do {
        report_all [(\<not> list_ex acc_enabled accounts, ''At least one account must be enabled'')];
        check_accounts [] [] [] accounts })"

definition validate_import :: "ImportConfig \<Rightarrow> unit check" where
  "validate_import i = report_all [(chunk_size i \<le> 0, ''[import] chunk_size must be > 0'')]"

definition section_check :: "string \<Rightarrow> bool \<times> string" where
  "section_check s =
     (if s \<in> set [''core'', ''logging'', ''web'', ''import''] \<or> prefix ''account.'' s then (False, [])
      else if s = ''account''
      then (True, ''Legacy single-account section [account] is not supported; use [account.<name>] sections'')
      else (True, ''Unsupported section ['' @ s @ ''] for v2 config model''))"

definition validate_section_model :: "ini \<Rightarrow> unit check" where
  "validate_section_model I = report_all (map section_check (section_names I))"

subsection \<open>Loading\<close>

definition read_config_file :: "path \<Rightarrow> fs \<Rightarrow> ini res" where
  "read_config_file p f =
     (case fst (fs_read p f) of
        Inr body \<Rightarrow> read_ini body
      | Inl (OSError m) \<Rightarrow>
          if m = ''ENOENT'' then Inl (ConfigError (''Config file not found: '' @ path_str p))
          else Inl (ConfigError (''Unable to read config file: '' @ path_str p @ '': '' @ m))
      | Inl e \<Rightarrow> Inl e)"

definition parse_globals ::
  "(string \<Rightarrow> pyfloat option) \<Rightarrow> ini \<Rightarrow> (CoreConfig \<times> LoggingConfig \<times> WebConfig \<times> ImportConfig) check" where
  "parse_globals rf I = do {
     c \<leftarrow> parse_core rf I; l \<leftarrow> parse_logging I; w \<leftarrow> parse_web I; i \<leftarrow> parse_import I;
     State_Monad.return (c, l, w, i) }"

definition validate_all :: "string list \<Rightarrow> ini \<Rightarrow> AccountConfig list \<Rightarrow> CoreConfig \<Rightarrow> ImportConfig \<Rightarrow> unit check" where
  "validate_all cwd I accounts c i = do {
     validate_section_model I; validate_accounts accounts; validate_core cwd c; validate_import i }"

definition load_config ::
  "(string \<Rightarrow> pyfloat option) \<Rightarrow> (string \<Rightarrow> gval option) \<Rightarrow> path \<Rightarrow> fs \<Rightarrow> AppConfig res \<times> fs" where
  "load_config rf loads p f =
     (case read_config_file p f of
        Inl e \<Rightarrow> (Inl e, f)
      | Inr I \<Rightarrow>
          (case run_state (parse_globals rf I) [] of ((c, l, w, i), errors) \<Rightarrow>
           and_then (parse_accounts loads I (max_downloads_per_poll c) (section_names I) errors f)
             (\<lambda>(accounts, errors) f.
              let errors = snd (run_state (validate_all (fs_cwd f) I accounts c i) errors) in
              if errors \<noteq> [] then (Inl (ConfigError (join_with [CHR 0x0A] errors)), f)
              else (Inr \<lparr>app_source_path = p, app_core = c, app_logging = l, app_web = w,
                      app_accounts = accounts, app_import = i\<rparr>, f))))"

definition validate_config_file ::
  "(string \<Rightarrow> pyfloat option) \<Rightarrow> (string \<Rightarrow> gval option) \<Rightarrow> path \<Rightarrow> fs \<Rightarrow> string list res \<times> fs" where
  "validate_config_file rf loads p f =
     (case load_config rf loads p f of
        (Inr cfg, f) \<Rightarrow> (Inr [], f)
      | (Inl (ConfigError msg), f) \<Rightarrow> (Inr (splitlines msg), f)
      | (Inl e, f) \<Rightarrow> (Inl e, f))"

subsection \<open>What the checks let through\<close>

lemma run_report [simp]: "run_state (report m) e = ((), e @ [m])"
  by (simp add: report_def State_Monad.update_def)

lemma run_report_all [simp]: "run_state (report_all cs) e = ((), e @ map snd (filter fst cs))"
  by (induction cs arbitrary: e rule: report_all.induct) auto

lemma run_check_roots:
  "snd (run_state (check_roots rs seen) e) = [] \<longleftrightarrow>
     e = [] \<and> distinct (map snd rs) \<and> set (map snd rs) \<inter> fst ` set seen = {}"
proof (induction rs seen arbitrary: e rule: check_roots.induct)
  case (2 name p rs seen)
  show ?case
  proof (cases "map_of seen p")
    case None
    then have "p \<notin> fst ` set seen" by (simp add: map_of_eq_None_iff)
    then show ?thesis unfolding check_roots.simps None option.case 2(1) [OF None] by auto
  next
    case (Some other)
    then have "p \<in> fst ` set seen" by (metis domI dom_map_of_conv_image_fst)
    then show ?thesis
      unfolding check_roots.simps Some option.case run_state_bind run_report prod.case 2(2) [OF Some] by simp
  qed
qed simp

lemma filter_fst_empty: "filter fst cs = [] \<longleftrightarrow> list_all (\<lambda>c. \<not> fst c) cs"
  by (induction cs) auto

definition sound_account :: "AccountConfig \<Rightarrow> bool" where
  "sound_account a \<longleftrightarrow> account_name_ok (acc_name a) \<and> acc_provider a = SUPPORTED_PROVIDER \<and>
     (case acc_max_downloads a of None \<Rightarrow> True | Some n \<Rightarrow> 0 < n)"

lemma run_check_accounts:
  "snd (run_state (check_accounts ns cs ds as) e) = [] \<longleftrightarrow>
     e = [] \<and> list_all sound_account as \<and>
     distinct (map acc_name as) \<and> set (map acc_name as) \<inter> set ns = {} \<and>
     distinct (map acc_token_cache as) \<and> set (map acc_token_cache as) \<inter> set cs = {} \<and>
     distinct (map acc_delta_cursor as) \<and> set (map acc_delta_cursor as) \<inter> set ds = {}"
proof (induction ns cs ds as arbitrary: e rule: check_accounts.induct)
  case (2 ns cs ds a as)
  have "filter fst (account_checks ns cs ds a) = [] \<longleftrightarrow>
      sound_account a \<and> acc_name a \<notin> set ns \<and> acc_token_cache a \<notin> set cs \<and> acc_delta_cursor a \<notin> set ds"
    unfolding account_checks_def filter_fst_empty list.pred_inject fst_conv sound_account_def
    by (cases "acc_max_downloads a") auto
  with 2 show ?case
    unfolding check_accounts.simps run_state_bind run_report_all prod.case by auto
qed simp

lemma run_validate_accounts:
  "snd (run_state (validate_accounts as) e) = [] \<longleftrightarrow>
     e = [] \<and> list_ex acc_enabled as \<and> list_all sound_account as \<and> distinct (map acc_name as) \<and>
     distinct (map acc_token_cache as) \<and> distinct (map acc_delta_cursor as)"
  by (auto simp: validate_accounts_def run_check_accounts)

definition sound_core :: "string list \<Rightarrow> CoreConfig \<Rightarrow> bool" where
  "sound_core cwd c \<longleftrightarrow>
     config_version c = 2 \<and>
     list_all (\<lambda>n. 0 < n)
       [poll_interval_minutes c, max_downloads_per_poll c, max_poll_runtime_seconds c,
        drift_min_events_for_evaluation c, delta_loop_resync_threshold c, delta_breaker_ghost_threshold c,
        delta_breaker_stale_page_threshold c, delta_breaker_cooldown_seconds c, account_worker_count c,
        backpressure_retry_threshold c, backpressure_transport_error_threshold c, backpressure_cooldown_seconds c] \<and>
     0 \<le> live_photo_capture_tolerance_seconds c \<and>
     live_photo_stem_mode c = ''exact_stem'' \<and> live_photo_component_order c = ''photo_first'' \<and>
     live_photo_conflict_policy c = ''nearest_capture_time'' \<and>
     (integrity_mode c = ''strict'' \<or> integrity_mode c = ''tolerant'') \<and>
     \<not> flt_less (drift_warning_threshold_ratio c) (Fin 0) \<and> \<not> flt_less (drift_critical_threshold_ratio c) (Fin 0) \<and>
     \<not> flt_less (drift_critical_threshold_ratio c) (drift_warning_threshold_ratio c) \<and>
     has_name_token (storage_template c) \<and> has_name_token (accepted_storage_template c) \<and>
     distinct [resolve cwd (pending_path c), resolve cwd (accepted_path c), resolve cwd (rejected_path c),
       resolve cwd (trash_path c)]"

lemma core_checks_pass:
  "filter fst (core_checks c) = [] \<and> distinct (map snd (queue_roots cwd c)) \<longleftrightarrow> sound_core cwd c"
  unfolding core_checks_def filter_fst_empty list.pred_inject fst_conv sound_core_def queue_roots_def
    list.map snd_conv SUPPORTED_CONFIG_VERSION_def SUPPORTED_STEM_MODE_def SUPPORTED_COMPONENT_ORDER_def
    SUPPORTED_CONFLICT_POLICY_def SUPPORTED_INTEGRITY_MODES_def list.set not_le not_less singleton_iff insert_iff
    empty_iff not_not
  by (simp only: list.pred_inject(1) simp_thms) argo

lemma run_validate_core: "snd (run_state (validate_core cwd c) e) = [] \<longleftrightarrow> e = [] \<and> sound_core cwd c"
  by (auto simp: validate_core_def run_check_roots core_checks_pass [symmetric])

definition known_section :: "string \<Rightarrow> bool" where
  "known_section s \<longleftrightarrow> s \<in> set [''core'', ''logging'', ''web'', ''import''] \<or> prefix ''account.'' s"

lemma section_check_fst: "fst (section_check s) \<longleftrightarrow> \<not> known_section s"
  by (simp add: section_check_def known_section_def)

lemma run_validate_all:
  "snd (run_state (validate_all cwd I as c i) e) = [] \<longleftrightarrow>
     e = [] \<and> list_all known_section (section_names I) \<and>
     list_ex acc_enabled as \<and> list_all sound_account as \<and> distinct (map acc_name as) \<and>
     distinct (map acc_token_cache as) \<and> distinct (map acc_delta_cursor as) \<and>
     sound_core cwd c \<and> 0 < chunk_size i"
proof -
  let ?e1 = "e @ map snd (filter fst (map section_check (section_names I)))"
  let ?e2 = "snd (run_state (validate_accounts as) ?e1)" let ?e3 = "snd (run_state (validate_core cwd c) ?e2)"
  have "snd (run_state (validate_all cwd I as c i) e) = [] \<longleftrightarrow> ?e3 = [] \<and> 0 < chunk_size i"
    by (simp add: validate_all_def validate_section_model_def validate_import_def case_prod_unfold not_le)
  moreover have "filter fst (map section_check (section_names I)) = [] \<longleftrightarrow> list_all known_section (section_names I)"
    by (auto simp: filter_empty_conv section_check_fst list_all_iff)
  ultimately show ?thesis by (auto simp: run_validate_core run_validate_accounts)
qed

subsection \<open>Required keys\<close>

text \<open>
  \<open>needs S ks m\<close>: when \<open>m\<close> leaves the list of complaints empty, it was empty before, and every key
  of \<open>ks\<close> has a value that is not blank.
\<close>

definition has_value :: "section_proxy \<Rightarrow> string \<Rightarrow> bool" where
  "has_value S k \<longleftrightarrow> (\<exists>v. sec_get S k = Some v \<and> py_strip v \<noteq> [])"

definition needs :: "section_proxy \<Rightarrow> string list \<Rightarrow> 'a check \<Rightarrow> bool" where
  "needs S ks m \<longleftrightarrow> (\<forall>e. snd (run_state m e) = [] \<longrightarrow> e = [] \<and> list_all (has_value S) ks)"

lemma needs_return: "needs S [] (State_Monad.return x)"
  by (simp add: needs_def)

lemma needs_bind: "needs S ks m \<Longrightarrow> (\<And>x. needs S ls (g x)) \<Longrightarrow> needs S (ks @ ls) (State_Monad.bind m g)"
  unfolding needs_def run_state_bind case_prod_unfold list_all_append by blast

lemma needs_complain: "needs S ks (complain S' what k x)"
  by (simp add: needs_def complain_def)

lemma needs_missing: "needs S' [] (missing S k z fb)"
  by (simp add: missing_def needs_complain needs_return split: fallback.split)

lemma needs_get_str: "needs S' [] (get_str S k fb)"
  by (simp add: get_str_def needs_missing needs_complain needs_return split: option.split)

lemma needs_get_int: "needs S' [] (get_int S k fb)"
  by (simp add: get_int_def needs_missing needs_complain needs_return split: option.split)

lemma needs_get_float: "needs S' [] (get_float rf S k fb)"
  by (simp add: get_float_def needs_missing needs_complain needs_return split: option.split)

lemma needs_get_bool: "needs S' [] (get_bool S k fb)"
  by (simp add: get_bool_def needs_missing needs_complain needs_return Let_def split: option.split)

lemma needs_get_optional_int: "needs S' [] (get_optional_int S k d)"
  by (simp add: get_optional_int_def needs_complain needs_return split: option.split)

lemma needs_get_path: "needs S' [] (get_path S k fb)"
  unfolding get_path_def using needs_bind [OF needs_get_str needs_return] by simp

lemma needs_required_str: "needs S [k] (get_str S k Required)"
  by (auto simp: get_str_def needs_def missing_def complain_def has_value_def split: option.split)

lemma needs_required_path: "needs S [k] (get_path S k Required)"
  unfolding get_path_def using needs_bind [OF needs_required_str needs_return] by simp

lemma read_int_Nil [simp]: "read_int [] = None"
  by (simp add: read_int_def py_strip_def strip_by_def)

lemma needs_required_int: "needs S [k] (get_int S k Required)"
  by (auto simp: get_int_def needs_def missing_def complain_def has_value_def split: option.split)

text \<open>The rules by which a chain of getters is walked through.\<close>

lemmas needs_step =
  needs_bind [OF needs_required_path, simplified] needs_bind [OF needs_required_int, simplified]
  needs_bind [OF needs_required_str, simplified]

lemmas needs_skip =
  needs_bind [OF needs_get_str [of _ _ _ "Default d" for d], simplified]
  needs_bind [OF needs_get_path [of _ _ _ "Default d" for d], simplified]
  needs_bind [OF needs_get_int [of _ _ _ "Default d" for d], simplified]
  needs_bind [OF needs_get_float [of _ _ _ _ "Default d" for d], simplified]
  needs_bind [OF needs_get_bool [of _ _ _ "Default d" for d], simplified]
  needs_bind [OF needs_get_optional_int, simplified]

definition CORE_KEYS :: "string list" where
  "CORE_KEYS = [''staging_path'', ''pending_path'', ''accepted_path'', ''rejected_path'', ''trash_path'',
     ''config_version'', ''registry_path'', ''sync_hash_import_path'']"

definition ACCOUNT_KEYS :: "string list" where
  "ACCOUNT_KEYS = [''token_cache'', ''provider'', ''client_id'', ''onedrive_root'', ''delta_cursor'']"

lemma needs_core_section: "needs S CORE_KEYS (parse_core_section rf S)"
  unfolding parse_core_section_def CORE_KEYS_def by (intro needs_step needs_skip needs_return)

lemma needs_account: "needs S ACCOUNT_KEYS (parse_account S name inherited)"
  unfolding parse_account_def ACCOUNT_KEYS_def by (intro needs_step needs_skip needs_return)

lemma needs_logging: "needs S [] (parse_logging I)"
  unfolding parse_logging_def by (simp add: needs_return) (intro impI needs_skip needs_return)

lemma needs_web: "needs S [] (parse_web I)"
  unfolding parse_web_def Let_def by (simp add: needs_return) (intro impI needs_skip needs_return)

lemma needs_import: "needs S [] (parse_import I)"
  unfolding parse_import_def by (simp add: needs_return) (intro impI needs_skip needs_return)

lemma needs_core:
  assumes "snd (run_state (parse_core rf I) e) = []"
  shows "e = [] \<and> ''core'' \<in> set (section_names I) \<and> list_all (has_value (section_of I ''core'')) CORE_KEYS"
  using assms needs_core_section [of "section_of I ''core''" rf]
  by (auto simp: parse_core_def needs_def split: if_splits)

lemma needs_globals:
  assumes "run_state (parse_globals rf I) [] = (cfg, [])"
  shows "''core'' \<in> set (section_names I) \<and> list_all (has_value (section_of I ''core'')) CORE_KEYS"
proof -
  have q: "needs S [] (State_Monad.bind (parse_logging I) (\<lambda>l. State_Monad.bind (parse_web I) (\<lambda>w.
      State_Monad.bind (parse_import I) (\<lambda>i. State_Monad.return (c, l, w, i)))))" for S c
    using needs_bind [OF needs_logging needs_bind [OF needs_web needs_bind [OF needs_import needs_return]]] by simp
  obtain c e where c: "run_state (parse_core rf I) [] = (c, e)" by fastforce
  with assms q [of undefined c] have "e = []"
    unfolding parse_globals_def needs_def by (auto simp: case_prod_unfold)
  with c needs_core [of rf I "[]"] show ?thesis by simp
qed

subsection \<open>Loading a configuration\<close>

lemma migrate_keeps:
  assumes "migrate_onboarding_file p f = (r, f')"
  shows "held node_at f' = held node_at f \<and> fs_cwd f' = fs_cwd f"
proof (cases "\<not> fs_exists f (onboarding_metadata_path p) \<and> fs_exists f (legacy_onboarding_metadata_path p)")
  case True
  let ?d = "fs_key f (onboarding_metadata_path p)"
  obtain m g where m: "fs_mkdirs (path_parent (onboarding_metadata_path p)) f = (m, g)" by fastforce
  then have mk: "key_mkdirs (fs_key f (path_parent (onboarding_metadata_path p))) f = (m, g)" by (simp add: fs_mkdirs_def)
  then have cwd: "fs_cwd g = fs_cwd f" by (metis fs_frame_mkdirs(1) snd_conv)
  note g = st.mkd_held [OF mk] cwd
  show ?thesis
  proof (cases m)
    case (Inl e)
    with True m assms g show ?thesis by (auto simp: migrate_onboarding_file_def)
  next
    case (Inr u)
    with True m assms have mv: "key_rename (fs_key g (legacy_onboarding_metadata_path p)) ?d g = (r, f')"
      using fs_key_cong [OF cwd] by (auto simp: migrate_onboarding_file_def fs_rename_def)
    have none: "node_at f ?d = None" using True by (simp add: fs_exists_def fs_node_def)
    have "held node_at f' = held node_at g"
    proof (cases r)
      case (Inl e)
      with mv st.mv_fail show ?thesis by blast
    next
      case (Inr u)
      with mv st.mv_ok [of _ ?d g u f'] have "node_at g ?d \<noteq> Some Dir" by blast
      with none st.mkd_cases [OF mk, of ?d] have "node_at g ?d = None" by auto
      with st.mv_held [OF mv] show ?thesis by blast
    qed
    moreover have "fs_cwd f' = fs_cwd g" using mv by (metis fs_frame_ops(3) snd_conv)
    ultimately show ?thesis using g by simp
  qed
qed (use assms in \<open>auto simp: migrate_onboarding_file_def\<close>)

lemma load_root_keeps:
  assumes "load_onboarding_resolved_root loads p f = (r, f')"
  shows "held node_at f' = held node_at f \<and> fs_cwd f' = fs_cwd f"
proof -
  obtain m g where m: "migrate_onboarding_file p f = (m, g)" by fastforce
  with assms have "f' = g" by (cases m) (auto simp: load_onboarding_resolved_root_def)
  with migrate_keeps [OF m] show ?thesis by simp
qed

lemma parse_accounts_keeps:
  "parse_accounts loads I inh ss e f = (r, f') \<Longrightarrow> held node_at f' = held node_at f \<and> fs_cwd f' = fs_cwd f"
proof (induction ss arbitrary: e f r f')
  case (Cons s ss)
  show ?case
  proof (cases "prefix ''account.'' s")
    case True
    obtain a e1 where a: "run_state (parse_account (section_of I s) (drop 8 s) inh) e = (a, e1)" by fastforce
    obtain q g where q: "load_onboarding_resolved_root loads (acc_token_cache a) f = (q, g)" by fastforce
    show ?thesis
    proof (cases q)
      case (Inl x)
      with Cons.prems True a q load_root_keeps [OF q] show ?thesis by auto
    next
      case (Inr root)
      obtain t h where t: "parse_accounts loads I inh ss e1 g = (t, h)" by fastforce
      with Cons.prems True a q Inr have "f' = h" by (cases t) auto
      with Cons.IH [OF t] load_root_keeps [OF q] show ?thesis by simp
    qed
  qed (use Cons in auto)
qed auto

lemma account_name_parsed: "acc_name (fst (run_state (parse_account S name inh) e)) = name"
  by (simp add: parse_account_def case_prod_unfold)

lemma parse_accounts_clean:
  "parse_accounts loads I inh ss e f = (Inr (as, []), f') \<Longrightarrow>
     e = [] \<and> map acc_name as = map (drop 8) (filter (prefix ''account.'') ss) \<and>
     (\<forall>s \<in> set (filter (prefix ''account.'') ss). list_all (has_value (section_of I s)) ACCOUNT_KEYS)"
proof (induction ss arbitrary: e f as)
  case (Cons s ss)
  show ?case
  proof (cases "prefix ''account.'' s")
    case True
    obtain a e1 where a: "run_state (parse_account (section_of I s) (drop 8 s) inh) e = (a, e1)" by fastforce
    with True Cons.prems obtain r g bs where "parse_accounts loads I inh ss e1 g = (Inr (bs, []), f')"
      and as: "as = a\<lparr>acc_resolved_onedrive_root := r\<rparr> # bs"
      by (auto simp: and_then_eq_Inr)
    note rest = Cons.IH [OF this(1)]
    have "needs (section_of I s) ACCOUNT_KEYS (parse_account (section_of I s) (drop 8 s) inh)" by (rule needs_account)
    then have "snd (run_state (parse_account (section_of I s) (drop 8 s) inh) e) = [] \<longrightarrow>
        e = [] \<and> list_all (has_value (section_of I s)) ACCOUNT_KEYS" unfolding needs_def by blast
    with a rest have "e = []" "list_all (has_value (section_of I s)) ACCOUNT_KEYS" by simp_all
    moreover have "acc_name a = drop 8 s" using account_name_parsed [of "section_of I s" "drop 8 s" inh e] a by simp
    ultimately show ?thesis using rest as True by simp
  qed (use Cons in auto)
qed simp

lemma load_config_unfold:
  assumes "load_config rf loads p f = (Inr cfg, f')"
  shows "\<exists>I. read_config_file p f = Inr I \<and>
    (\<exists>l w. run_state (parse_globals rf I) [] = ((app_core cfg, l, w, app_import cfg), [])) \<and>
    parse_accounts loads I (max_downloads_per_poll (app_core cfg)) (section_names I) [] f = (Inr (app_accounts cfg, []), f') \<and>
    snd (run_state (validate_all (fs_cwd f) I (app_accounts cfg) (app_core cfg) (app_import cfg)) []) = []"
proof -
  from assms obtain I where I: "read_config_file p f = Inr I"
    by (auto simp: load_config_def split: sum.splits)
  obtain c l w i e where g: "run_state (parse_globals rf I) [] = ((c, l, w, i), e)"
    by (cases "run_state (parse_globals rf I) []"; cases "fst (run_state (parse_globals rf I) [])") auto
  with assms I obtain as e1 where as: "parse_accounts loads I (max_downloads_per_poll c) (section_names I) e f = (Inr (as, e1), f')"
    and v: "snd (run_state (validate_all (fs_cwd f') I as c i) e1) = []"
    and cfg: "cfg = \<lparr>app_source_path = p, app_core = c, app_logging = l, app_web = w, app_accounts = as, app_import = i\<rparr>"
    by (auto simp: load_config_def and_then_eq_Inr Let_def split: if_splits)
  from v have e1: "e1 = []" by (simp add: run_validate_all)
  with parse_accounts_clean [OF as [unfolded e1]] have "e = []" by simp
  moreover have "fs_cwd f' = fs_cwd f" using parse_accounts_keeps [OF as] by simp
  ultimately show ?thesis using I g as v cfg e1 by auto
qed

lemma load_config_success:
  assumes "load_config rf loads p f = (Inr cfg, f')"
  shows "(\<exists>I. read_config_file p f = Inr I \<and> list_all known_section (section_names I) \<and>
      list_all (has_value (section_of I ''core'')) CORE_KEYS \<and>
      map acc_name (app_accounts cfg) = map (drop 8) (filter (prefix ''account.'') (section_names I)) \<and>
      (\<forall>s \<in> set (filter (prefix ''account.'') (section_names I)). list_all (has_value (section_of I s)) ACCOUNT_KEYS)) \<and>
    sound_core (fs_cwd f) (app_core cfg) \<and> 0 < chunk_size (app_import cfg) \<and>
    ordered_enabled_accounts cfg \<noteq> [] \<and> list_all sound_account (app_accounts cfg) \<and>
    distinct (map acc_name (app_accounts cfg)) \<and> distinct (map acc_token_cache (app_accounts cfg)) \<and>
    distinct (map acc_delta_cursor (app_accounts cfg))"
proof -
  from load_config_unfold [OF assms] obtain I l w where I: "read_config_file p f = Inr I"
    and g: "run_state (parse_globals rf I) [] = ((app_core cfg, l, w, app_import cfg), [])"
    and as: "parse_accounts loads I (max_downloads_per_poll (app_core cfg)) (section_names I) [] f = (Inr (app_accounts cfg, []), f')"
    and v: "snd (run_state (validate_all (fs_cwd f) I (app_accounts cfg) (app_core cfg) (app_import cfg)) []) = []"
    by blast
  have "ordered_enabled_accounts cfg \<noteq> []" if "list_ex acc_enabled (app_accounts cfg)"
  proof -
    from that obtain a where "a \<in> set (app_accounts cfg)" "acc_enabled a" by (auto simp: list_ex_iff)
    then have "a \<in> set (ordered_enabled_accounts cfg)" by (simp add: ordered_enabled_accounts_def Let_def)
    then show ?thesis by auto
  qed
  with I v needs_globals [OF g] parse_accounts_clean [OF as] show ?thesis
    unfolding run_validate_all by blast
qed

lemma load_config_keeps:
  assumes "load_config rf loads p f = (r, f')"
  shows "held node_at f' = held node_at f"
proof (cases "read_config_file p f")
  case (Inr I)
  obtain c l w i e where g: "run_state (parse_globals rf I) [] = ((c, l, w, i), e)"
    by (cases "run_state (parse_globals rf I) []"; cases "fst (run_state (parse_globals rf I) [])") auto
  obtain q h where q: "parse_accounts loads I (max_downloads_per_poll c) (section_names I) e f = (q, h)" by fastforce
  with assms Inr g have "f' = h"
    by (cases q) (auto simp: load_config_def Let_def split: if_splits)
  with parse_accounts_keeps [OF q] show ?thesis by simp
qed (use assms in \<open>auto simp: load_config_def\<close>)

text \<open>
  C35: a configuration that loads is usable.  Its file has only known sections, a \<open>[core]\<close> section and
  accounts with a value for every required key; the version is 2, every limit is positive, the
  modes are supported and the templates name the file; the four queue roots are pairwise different
  directories, also when they are written differently; there is at least one enabled account, and
  the accounts, in file order, have valid and pairwise different names, token caches and cursors.
  Whether it loads or not, no file's content is lost: at most onboarding files get their new name.
\<close>

theorem loaded_config_is_sound:
  assumes "load_config rf loads p f = (Inr cfg, f')"
  shows "held node_at f' = held node_at f \<and>
    (\<exists>I. read_config_file p f = Inr I \<and> list_all known_section (section_names I) \<and>
      list_all (has_value (section_of I ''core'')) CORE_KEYS \<and>
      map acc_name (app_accounts cfg) = map (drop 8) (filter (prefix ''account.'') (section_names I)) \<and>
      (\<forall>s \<in> set (filter (prefix ''account.'') (section_names I)). list_all (has_value (section_of I s)) ACCOUNT_KEYS)) \<and>
    sound_core (fs_cwd f) (app_core cfg) \<and> 0 < chunk_size (app_import cfg) \<and>
    ordered_enabled_accounts cfg \<noteq> [] \<and> list_all sound_account (app_accounts cfg) \<and>
    distinct (map acc_name (app_accounts cfg)) \<and> distinct (map acc_token_cache (app_accounts cfg)) \<and>
    distinct (map acc_delta_cursor (app_accounts cfg))"
  using load_config_keeps [OF assms] load_config_success [OF assms] by blast

definition sample_config :: string where
  "sample_config =
     ''[core]'' @ [CHR 0x0A] @
     ''config_version = 2'' @ [CHR 0x0A] @
     ''staging_path = /var/staging'' @ [CHR 0x0A] @
     ''pending_path = /var/pending'' @ [CHR 0x0A] @
     ''accepted_path = /var/accepted'' @ [CHR 0x0A] @
     ''rejected_path = /var/rejected'' @ [CHR 0x0A] @
     ''trash_path = /var/trash'' @ [CHR 0x0A] @
     ''registry_path = /var/registry.db'' @ [CHR 0x0A] @
     ''sync_hash_import_path : /pictures'' @ [CHR 0x0A] @
     ''# the only account'' @ [CHR 0x0A] @
     ''[account.anna]'' @ [CHR 0x0A] @
     ''provider = onedrive'' @ [CHR 0x0A] @
     ''client_id = c1'' @ [CHR 0x0A] @
     ''onedrive_root = /Pictures'' @ [CHR 0x0A] @
     ''token_cache = /var/anna.json'' @ [CHR 0x0A] @
     ''delta_cursor = /var/anna.cursor'' @ [CHR 0x0A]"

definition sample_store :: fs where
  "sample_store = \<lparr>nodes = [([''etc''], Dir), ([''etc'', ''photo.conf''], Reg sample_config 0)],
     fs_cwd = [], fs_dev = (\<lambda>_. 0)\<rparr>"

theorem loaded_config_is_sound_witness:
  "\<exists>cfg f'. load_config (\<lambda>_. None) (\<lambda>_. None) (path_of ''/etc/photo.conf'') sample_store = (Inr cfg, f') \<and>
     distinct [resolve [] (pending_path (app_core cfg)), resolve [] (accepted_path (app_core cfg)),
       resolve [] (rejected_path (app_core cfg)), resolve [] (trash_path (app_core cfg))]"
proof -
  let ?r = "load_config (\<lambda>_. None) (\<lambda>_. None) (path_of ''/etc/photo.conf'') sample_store"
  have "isl (fst ?r) = False" by code_simp
  then obtain cfg f' where r: "?r = (Inr cfg, f')" by (cases ?r; cases "fst ?r") auto
  have "fs_cwd sample_store = []" by (simp add: sample_store_def)
  with loaded_config_is_sound [OF r] r show ?thesis unfolding sound_core_def by (intro exI conjI) auto
qed

subsection \<open>Validation reports what loading refuses\<close>

text \<open>\<open>speaks m\<close>: no complaint \<open>m\<close> adds is an empty text.\<close>

definition speaks :: "'a check \<Rightarrow> bool" where
  "speaks m \<longleftrightarrow> (\<forall>e. [] \<notin> set e \<longrightarrow> [] \<notin> set (snd (run_state m e)))"

lemma speaks_return: "speaks (State_Monad.return x)"
  by (simp add: speaks_def)

lemma speaks_bind: "speaks m \<Longrightarrow> (\<And>x. speaks (g x)) \<Longrightarrow> speaks (State_Monad.bind m g)"
  unfolding speaks_def run_state_bind case_prod_unfold by blast

lemma speaks_complain: "speaks (complain S what k x)"
  by (simp add: speaks_def complain_def)

lemma speaks_report: "msg \<noteq> [] \<Longrightarrow> speaks (report msg)"
  by (simp add: speaks_def)

lemma speaks_report_all: "[] \<notin> set (map snd (filter fst cs)) \<Longrightarrow> speaks (report_all cs)"
  unfolding speaks_def run_report_all snd_conv set_append by blast

lemma speaks_missing: "speaks (missing S k z fb)"
  by (simp add: missing_def speaks_complain speaks_return split: fallback.split)

lemma speaks_get_str: "speaks (get_str S k fb)"
  by (simp add: get_str_def speaks_missing speaks_complain speaks_return split: option.split)

lemma speaks_get_int: "speaks (get_int S k fb)"
  by (simp add: get_int_def speaks_missing speaks_complain speaks_return split: option.split)

lemma speaks_get_float: "speaks (get_float rf S k fb)"
  by (simp add: get_float_def speaks_missing speaks_complain speaks_return split: option.split)

lemma speaks_get_bool: "speaks (get_bool S k fb)"
  by (simp add: get_bool_def speaks_missing speaks_complain speaks_return Let_def split: option.split)

lemma speaks_get_optional_int: "speaks (get_optional_int S k d)"
  by (simp add: get_optional_int_def speaks_complain speaks_return split: option.split)

lemma speaks_get_path: "speaks (get_path S k fb)"
  unfolding get_path_def by (intro speaks_bind speaks_get_str speaks_return)

lemmas speaks_getters = speaks_get_str speaks_get_path speaks_get_int speaks_get_float speaks_get_bool
  speaks_get_optional_int speaks_return

lemma speaks_core: "speaks (parse_core rf I)"
proof -
  have "speaks (parse_core_section rf S)" for S
    unfolding parse_core_section_def by (intro speaks_bind speaks_getters)
  moreover have "speaks (do { report ''Missing required [core] section''; State_Monad.return default_core })"
    by (intro speaks_bind speaks_return speaks_report) simp
  ultimately show ?thesis by (simp add: parse_core_def)
qed

lemma speaks_globals: "speaks (parse_globals rf I)"
proof -
  have "speaks (parse_logging I)"
    unfolding parse_logging_def by (simp add: speaks_return) (intro impI speaks_bind speaks_getters)
  moreover have "speaks (parse_web I)"
    unfolding parse_web_def Let_def by (simp add: speaks_return) (intro impI speaks_bind speaks_getters)
  moreover have "speaks (parse_import I)"
    unfolding parse_import_def by (simp add: speaks_return) (intro impI speaks_bind speaks_getters)
  ultimately show ?thesis unfolding parse_globals_def by (intro speaks_bind speaks_core speaks_return)
qed

lemma speaks_account: "speaks (parse_account S name inh)"
  unfolding parse_account_def by (intro speaks_bind speaks_getters)

lemma speaks_check_roots: "speaks (check_roots rs seen)"
proof (induction rs seen rule: check_roots.induct)
  case (2 name p rs seen)
  have "speaks (report (''[core] '' @ name @ '' must not equal '' @ x @ ''; lifecycle roots must remain distinct''))" for x
    by (rule speaks_report) simp
  with 2 show ?case by (cases "map_of seen p") (auto intro: speaks_bind)
qed (simp add: speaks_return)

lemma speaks_check_accounts: "speaks (check_accounts ns cs ds as)"
proof (induction ns cs ds as rule: check_accounts.induct)
  case (2 ns cs ds a as)
  have "[] \<notin> set (map snd (account_checks ns cs ds a))"
    by (simp add: account_checks_def)
  then have "speaks (report_all (account_checks ns cs ds a))" by (intro speaks_report_all) auto
  with 2 show ?case unfolding check_accounts.simps by (intro speaks_bind)
qed (simp add: speaks_return)

lemma core_checks_speak: "[] \<notin> set (map snd (core_checks c))"
  by (simp add: core_checks_def)

lemma section_check_speaks: "fst (section_check s) \<Longrightarrow> snd (section_check s) \<noteq> []"
  by (simp add: section_check_def split: if_splits)

lemma speaks_validate_all: "speaks (validate_all cwd I as c i)"
proof -
  have "speaks (validate_section_model I)"
    unfolding validate_section_model_def using section_check_speaks by (intro speaks_report_all) fastforce
  moreover have "speaks (validate_accounts as)"
    unfolding validate_accounts_def by (auto intro!: speaks_bind speaks_report speaks_report_all speaks_check_accounts)
  moreover have "speaks (validate_core cwd c)"
    unfolding validate_core_def using core_checks_speak [of c]
    by (intro speaks_bind speaks_report_all speaks_check_roots) auto
  moreover have "speaks (validate_import i)"
    unfolding validate_import_def by (intro speaks_report_all) simp
  ultimately show ?thesis unfolding validate_all_def by (intro speaks_bind)
qed

lemma read_config_file_error:
  assumes "read_config_file p f = Inl e"
  shows "(\<exists>m. e = ParserError m) \<or> (\<exists>m. e = ConfigError m \<and> m \<noteq> [])"
  using assms read_ini_error
  by (auto simp: read_config_file_def fs_read_def split: sum.splits exn.splits if_splits option.splits node.splits)

lemma load_root_error:
  assumes "load_onboarding_resolved_root loads p f = (Inl e, f')" shows "\<exists>m. e = OSError m"
proof -
  have "fs_mkdirs q g = (Inl e, h) \<Longrightarrow> \<exists>m. e = OSError m" for q g h
    by (auto simp: fs_mkdirs_def key_mkdirs_def split: if_splits)
  moreover have "fs_rename a b g = (Inl e, h) \<Longrightarrow> \<exists>m. e = OSError m" for a b g h
    by (auto simp: fs_rename_def key_rename_def split: if_splits option.splits node.splits)
  ultimately show ?thesis
    using assms by (auto simp: load_onboarding_resolved_root_def migrate_onboarding_file_def and_then_eq_Inl split: if_splits)
qed

lemma parse_accounts_result:
  assumes "parse_accounts loads I inh ss e f = (r, f')" and "[] \<notin> set e"
  shows "case r of Inl x \<Rightarrow> \<exists>m. x = OSError m | Inr (as, e') \<Rightarrow> [] \<notin> set e'"
  using assms
proof (induction ss arbitrary: e f r f')
  case (Cons s ss)
  show ?case
  proof (cases "prefix ''account.'' s")
    case True
    obtain a e1 where a: "run_state (parse_account (section_of I s) (drop 8 s) inh) e = (a, e1)" by fastforce
    then have e1: "[] \<notin> set e1"
      using speaks_account [of "section_of I s" "drop 8 s" inh] Cons.prems(2) unfolding speaks_def by (metis snd_conv)
    obtain q g where q: "load_onboarding_resolved_root loads (acc_token_cache a) f = (q, g)" by fastforce
    show ?thesis
    proof (cases q)
      case (Inl x)
      with Cons.prems True a q load_root_error [of loads _ f x g] show ?thesis by auto
    next
      case (Inr root)
      obtain t h where t: "parse_accounts loads I inh ss e1 g = (t, h)" by fastforce
      with Cons.IH [OF t e1] Cons.prems True a q Inr show ?thesis by (cases t) auto
    qed
  qed (use Cons in auto)
qed auto

lemma load_config_error:
  assumes "load_config rf loads p f = (Inl (ConfigError m), f')" shows "m \<noteq> []"
proof (cases "read_config_file p f")
  case (Inl e)
  with assms read_config_file_error [of p f e] show ?thesis by (auto simp: load_config_def)
next
  case (Inr I)
  obtain c l w i e where g: "run_state (parse_globals rf I) [] = ((c, l, w, i), e)"
    by (cases "run_state (parse_globals rf I) []"; cases "fst (run_state (parse_globals rf I) [])") auto
  then have "[] \<notin> set e" using speaks_globals [of rf I] unfolding speaks_def by (metis empty_iff empty_set snd_conv)
  obtain q h where q: "parse_accounts loads I (max_downloads_per_poll c) (section_names I) e f = (q, h)" by fastforce
  note r = parse_accounts_result [OF this \<open>[] \<notin> set e\<close>]
  with assms Inr g q obtain as e1 where "q = Inr (as, e1)" by (cases q) (auto simp: load_config_def)
  with r have e1: "[] \<notin> set e1" by simp
  let ?e2 = "snd (run_state (validate_all (fs_cwd h) I as c i) e1)"
  have "[] \<notin> set ?e2" using speaks_validate_all e1 unfolding speaks_def by blast
  moreover have "?e2 \<noteq> []" "m = join_with [CHR 0x0A] ?e2"
    using assms Inr g q \<open>q = Inr (as, e1)\<close> by (auto simp: load_config_def Let_def split: if_splits)
  ultimately show ?thesis by (cases ?e2 rule: list.exhaust; cases "tl ?e2") auto
qed

text \<open>
  \<open>validate_config_file\<close> reports nothing exactly when \<open>load_config\<close> succeeds, and both leave
  the same file store; what they raise beyond that is the same exception.
\<close>

theorem validation_agrees_with_loading:
  "(fst (validate_config_file rf loads p f) = Inr [] \<longleftrightarrow> (\<exists>cfg. fst (load_config rf loads p f) = Inr cfg)) \<and>
   snd (validate_config_file rf loads p f) = snd (load_config rf loads p f) \<and>
   (\<forall>e. fst (validate_config_file rf loads p f) = Inl e \<longleftrightarrow>
      fst (load_config rf loads p f) = Inl e \<and> (\<forall>m. e \<noteq> ConfigError m))"
proof -
  obtain r f' where r: "load_config rf loads p f = (r, f')" by fastforce
  have sl: "splitlines m \<noteq> []" if "m \<noteq> []" for m using that by (simp add: splitlines.simps)
  show ?thesis
  proof (cases r)
    case (Inl e)
    with r show ?thesis using load_config_error [of rf loads p f _ f'] sl
      by (cases e) (auto simp: validate_config_file_def)
  qed (use r in \<open>auto simp: validate_config_file_def\<close>)
qed

end
