(* ===== verification/Auth.thy ===== *)
theory Auth
  imports Config World
begin

section \<open>Authentication (\<open>adapters/onedrive/auth.py\<close>)\<close>

text \<open>
  \<open>OneDriveAuthClient\<close>: the token cache of an account, the identity file that binds it to one
  Microsoft account, and the onboarding file.  The MSAL library is the argument \<open>msal\<close>, with the
  cache object as its type parameter and the number of clock readings so far as the point in time of a
  call; \<open>json.loads\<close>, the time stamp of a quarantined cache and \<open>str\<close> of a value are in it too.  Permission
  bits are a map beside the file store, which \<open>chmod\<close> changes and a rename moves.  The advisory
  lock around each operation only waits and is left out, printing too.
\<close>

record 'c msal =
  ms_empty :: 'c
  ms_deserialize :: "string \<Rightarrow> 'c option"
  ms_serialize :: "'c \<Rightarrow> string"
  ms_changed :: "'c \<Rightarrow> bool"
  ms_accounts :: "AccountConfig \<Rightarrow> 'c \<Rightarrow> gobject list"
  ms_silent :: "nat \<Rightarrow> AccountConfig \<Rightarrow> string list \<Rightarrow> gobject \<Rightarrow> 'c \<Rightarrow> gobject option \<times> 'c"
  ms_initiate :: "nat \<Rightarrow> AccountConfig \<Rightarrow> string list \<Rightarrow> gobject"
  ms_device :: "nat \<Rightarrow> AccountConfig \<Rightarrow> gobject \<Rightarrow> 'c \<Rightarrow> gobject option \<times> 'c"
  ms_loads :: "string \<Rightarrow> gval option"
  ms_stamp :: "int \<Rightarrow> string"
  ms_conv :: py_conv

record auth_state =
  au_world :: world
  au_mode :: "string list \<Rightarrow> nat"

definition DEFAULT_SCOPES :: "string list" where
  "DEFAULT_SCOPES = [''Files.Read'']"

definition RESERVED_SCOPES :: "string list" where
  "RESERVED_SCOPES = [''openid'', ''profile'', ''offline_access'']"

fun normalize_loop :: "string list \<Rightarrow> string list \<Rightarrow> string list" where
  "normalize_loop seen [] = []"
| "normalize_loop seen (raw # raws) =
     (let scope = py_strip raw in
      if scope = [] \<or> py_lower scope \<in> set RESERVED_SCOPES \<or> py_lower scope \<in> set seen then normalize_loop seen raws
      else scope # normalize_loop (py_lower scope # seen) raws)"

definition normalize_scopes :: "string list \<Rightarrow> string list res" where
  "normalize_scopes scopes =
     (let n = normalize_loop [] scopes in
      if n = [] then Inl (AuthError ''No valid non-reserved scopes configured for token acquisition.'') else Inr n)"

subsection \<open>Files and permissions\<close>

definition au_fs :: "auth_state \<Rightarrow> fs" where
  "au_fs s = fsys (au_world s)"

definition au_call :: "(fs \<Rightarrow> 'a res \<times> fs) \<Rightarrow> auth_state \<Rightarrow> 'a res \<times> auth_state" where
  "au_call m s = (case fs_call m (au_world s) of (r, w) \<Rightarrow> (r, s\<lparr>au_world := w\<rparr>))"

definition au_time :: "env \<Rightarrow> auth_state \<Rightarrow> int \<times> auth_state" where
  "au_time E s = (case draw_time E (au_world s) of (t, w) \<Rightarrow> (t, s\<lparr>au_world := w\<rparr>))"

definition chmod :: "path \<Rightarrow> nat \<Rightarrow> auth_state \<Rightarrow> unit res \<times> auth_state" where
  "chmod p m s =
     (if fs_exists (au_fs s) p then (Inr (), s\<lparr>au_mode := (au_mode s)(fs_key (au_fs s) p := m)\<rparr>)
      else (Inl (OSError ''ENOENT''), s))"

definition au_rename :: "path \<Rightarrow> path \<Rightarrow> auth_state \<Rightarrow> unit res \<times> auth_state" where
  "au_rename a b s =
     and_then (au_call (fs_rename a b) s) (\<lambda>_ s'.
       (Inr (), s'\<lparr>au_mode := (au_mode s')(fs_key (au_fs s) b := au_mode s (fs_key (au_fs s) a))\<rparr>))"

definition write_private :: "env \<Rightarrow> path \<Rightarrow> string \<Rightarrow> auth_state \<Rightarrow> unit res \<times> auth_state" where
  "write_private E p body s =
     and_then (au_call (fs_write p body (clock E (ticks (au_world s)))) s) (\<lambda>_ s. chmod p 384 s)"

definition ensure_cache_parent :: "path \<Rightarrow> auth_state \<Rightarrow> unit res \<times> auth_state" where
  "ensure_cache_parent p s =
     and_then (au_call (fs_mkdirs (path_parent p)) s) (\<lambda>_ s. chmod (path_parent p) 448 s)"

definition validate_secure_parent_dir :: "path \<Rightarrow> auth_state \<Rightarrow> unit res \<times> auth_state" where
  "validate_secure_parent_dir p s =
     (if \<not> fs_exists (au_fs s) p \<or> au_mode s (fs_key (au_fs s) p) = 448 then (Inr (), s)
      else (Inl (AuthError (''Insecure permissions on '' @ py_quote (path_str p) @ ''. Expected 0700.'')), s))"

definition validate_secure_file :: "path \<Rightarrow> auth_state \<Rightarrow> unit res \<times> auth_state" where
  "validate_secure_file p s =
     (if \<not> fs_exists (au_fs s) p then (Inl (OSError ''ENOENT''), s)
      else if au_mode s (fs_key (au_fs s) p) = 384 then (Inr (), s)
      else (Inl (AuthError (''Insecure permissions on '' @ py_quote (path_str p) @ ''. Expected 0o600.'')), s))"

definition quarantine_corrupt_cache :: "env \<Rightarrow> 'c msal \<Rightarrow> path \<Rightarrow> auth_state \<Rightarrow> path res \<times> auth_state" where
  "quarantine_corrupt_cache E M p s =
     (case au_time E s of (t, s) \<Rightarrow>
      let q = with_suffix p (path_suffix p @ ''.corrupt.'' @ ms_stamp M t) in
      and_then (au_rename p q s) (\<lambda>_ s. (Inr q, s)))"

definition corrupt_cache :: "env \<Rightarrow> 'c msal \<Rightarrow> AccountConfig \<Rightarrow> auth_state \<Rightarrow> 'c res \<times> auth_state" where
  "corrupt_cache E M A s =
     and_then (quarantine_corrupt_cache E M (acc_token_cache A) s) (\<lambda>q s.
       (Inl (AuthError (''Token cache is corrupted for '' @ py_quote (acc_name A) @
          ''. Run auth-setup again. Corrupt cache moved to '' @ py_quote (path_name q) @ ''.'')), s))"

text \<open>The cache object the application is built on.\<close>

definition build_app :: "env \<Rightarrow> 'c msal \<Rightarrow> AccountConfig \<Rightarrow> auth_state \<Rightarrow> 'c res \<times> auth_state" where
  "build_app E M A s =
     (let p = acc_token_cache A in
      and_then (ensure_cache_parent p s) (\<lambda>_ s.
      and_then (validate_secure_parent_dir (path_parent p) s) (\<lambda>_ s.
      and_then (if fs_exists (au_fs s) p then validate_secure_file p s else (Inr (), s)) (\<lambda>_ s.
      and_then (if fs_exists (au_fs s) p
                then (case fst (fs_read p (au_fs s)) of
                        Inl e \<Rightarrow> corrupt_cache E M A s
                      | Inr body \<Rightarrow>
                          (case ms_deserialize M body of
                             None \<Rightarrow> corrupt_cache E M A s
                           | Some c \<Rightarrow> (Inr c, s)))
                else (Inr (ms_empty M), s)) (\<lambda>c s.
      and_then (ensure_cache_parent p s) (\<lambda>_ s. (Inr c, s)))))))"

definition save_cache :: "env \<Rightarrow> 'c msal \<Rightarrow> path \<Rightarrow> 'c \<Rightarrow> auth_state \<Rightarrow> unit res \<times> auth_state" where
  "save_cache E M p c s =
     (if \<not> ms_changed M c then (if fs_exists (au_fs s) p then chmod p 384 s else (Inr (), s))
      else and_then (ensure_cache_parent p s) (\<lambda>_ s. write_private E p (ms_serialize M c) s))"

subsection \<open>The bound identity\<close>

definition identity_path :: "path \<Rightarrow> path" where
  "identity_path p = child (path_parent p) (path_stem p @ ''.identity.json'')"

definition legacy_identity_path :: "path \<Rightarrow> path" where
  "legacy_identity_path p =
     (if path_suffix p \<noteq> [] then with_suffix p (path_suffix p @ ''.identity.json'')
      else path_of (path_str p @ ''.identity.json''))"

definition str_field :: "gobject \<Rightarrow> string \<Rightarrow> string option" where
  "str_field ob k = (case gget ob k of GStr v \<Rightarrow> if v = [] then None else Some v | _ \<Rightarrow> None)"

definition identity_fields :: "gobject \<Rightarrow> string list \<Rightarrow> (string \<times> string) list" where
  "identity_fields ob ks = concat (map (\<lambda>k. case str_field ob k of None \<Rightarrow> [] | Some v \<Rightarrow> [(k, v)]) ks)"

definition field_or_empty :: "(string \<times> string) list \<Rightarrow> string \<Rightarrow> string" where
  "field_or_empty kvs k = (case map_of kvs k of None \<Rightarrow> [] | Some v \<Rightarrow> v)"

definition identity_integrity_hash :: "env \<Rightarrow> (string \<times> string) list \<Rightarrow> AccountConfig \<Rightarrow> string" where
  "identity_integrity_hash E payload A =
     sha256 E (json_dumps '','' '':''
       [(''account'', JText (acc_name A)), (''client_id'', JText (acc_client_id A)),
        (''home_account_id'', JText (field_or_empty payload ''home_account_id'')),
        (''local_account_id'', JText (field_or_empty payload ''local_account_id'')),
        (''username'', JText (field_or_empty payload ''username''))])"

definition validate_identity_integrity :: "env \<Rightarrow> gobject \<Rightarrow> AccountConfig \<Rightarrow> unit res" where
  "validate_identity_integrity E payload A =
     (case str_field payload ''integrity_sha256'' of
        None \<Rightarrow> Inl (AuthError (''Identity metadata integrity missing for '' @ py_quote (acc_name A) @
                  ''. Run auth-setup to rebind token identity.''))
      | Some expected \<Rightarrow>
          if identity_integrity_hash E
               (identity_fields payload [''home_account_id'', ''username'', ''local_account_id'']) A = expected
          then Inr ()
          else Inl (AuthError (''Identity metadata integrity mismatch for '' @ py_quote (acc_name A) @
                  ''. Run auth-setup to rebind token identity.'')))"

definition migrate_identity_file :: "path \<Rightarrow> auth_state \<Rightarrow> unit res \<times> auth_state" where
  "migrate_identity_file p s =
     (if \<not> fs_exists (au_fs s) (identity_path p) \<and> fs_exists (au_fs s) (legacy_identity_path p)
      then and_then (ensure_cache_parent (identity_path p) s) (\<lambda>_ s.
           and_then (au_rename (legacy_identity_path p) (identity_path p) s) (\<lambda>_ s.
           chmod (identity_path p) 384 s))
      else (Inr (), s))"

definition read_identity :: "env \<Rightarrow> 'c msal \<Rightarrow> AccountConfig \<Rightarrow> fs \<Rightarrow> (string \<times> string) list res" where
  "read_identity E M A f =
     (let unreadable = AuthError (''Identity metadata is unreadable for '' @ py_quote (acc_name A) @
            ''. Run auth-setup to refresh token binding.'') in
      case fst (fs_read (identity_path (acc_token_cache A)) f) of
        Inl e \<Rightarrow> Inl unreadable
      | Inr body \<Rightarrow>
          (case ms_loads M body of
             None \<Rightarrow> Inl unreadable
           | Some (GObj payload) \<Rightarrow>
               (case validate_identity_integrity E payload A of
                  Inl e \<Rightarrow> Inl e
                | Inr _ \<Rightarrow> Inr (identity_fields payload [''home_account_id'', ''username'']))
           | Some _ \<Rightarrow> Inl (AuthError (''Identity metadata format invalid for '' @ py_quote (acc_name A) @
               ''. Run auth-setup to refresh token binding.''))))"

text \<open>No fields stand for no identity.\<close>

definition load_expected_identity ::
  "env \<Rightarrow> 'c msal \<Rightarrow> AccountConfig \<Rightarrow> auth_state \<Rightarrow> (string \<times> string) list res \<times> auth_state" where
  "load_expected_identity E M A s =
     (let p = identity_path (acc_token_cache A) in
      and_then (migrate_identity_file (acc_token_cache A) s) (\<lambda>_ s.
      if \<not> fs_exists (au_fs s) p then (Inr [], s)
      else
        and_then (validate_secure_parent_dir (path_parent p) s) (\<lambda>_ s.
        and_then (validate_secure_file p s) (\<lambda>_ s. (read_identity E M A (au_fs s), s)))))"

definition identity_matches :: "(string \<times> string) list \<Rightarrow> gobject \<Rightarrow> bool" where
  "identity_matches expected cand \<longleftrightarrow>
     list_ex (\<lambda>k. case map_of expected k of None \<Rightarrow> False | Some v \<Rightarrow> gget cand k = GStr v)
       [''home_account_id'', ''username'']"

definition select_account :: "gobject list \<Rightarrow> (string \<times> string) list \<Rightarrow> AccountConfig \<Rightarrow> gobject res" where
  "select_account available expected A =
     (if expected \<noteq> []
      then (case find (identity_matches expected) available of
              Some c \<Rightarrow> Inr c
            | None \<Rightarrow> Inl (AuthError (''Cached token identity mismatch for '' @ py_quote (acc_name A) @
                ''. Run auth-setup to rebind the account cache.'')))
      else if length available = 1 then Inr (hd available)
      else Inl (AuthError (''Multiple cached identities found for '' @ py_quote (acc_name A) @
                '' without binding metadata. Run auth-setup to pin account identity.'')))"

text \<open>\<open>json.dumps(payload, sort_keys=True)\<close>.\<close>

definition identity_text :: "env \<Rightarrow> AccountConfig \<Rightarrow> gobject \<Rightarrow> string \<Rightarrow> string" where
  "identity_text E A selected now =
     (let fields = identity_fields selected [''home_account_id'', ''username'', ''local_account_id''] in
      json_dumps '', '' '': '' (map (\<lambda>(k, v). (k, JText v)) (sort_key fst
        ((''updated_at'', now) # fields @ [(''integrity_sha256'', identity_integrity_hash E fields A)]))))"

definition persist_account_identity ::
  "env \<Rightarrow> AccountConfig \<Rightarrow> gobject list \<Rightarrow> auth_state \<Rightarrow> unit res \<times> auth_state" where
  "persist_account_identity E A accounts s =
     (case accounts of
        [] \<Rightarrow> (Inr (), s)
      | selected # _ \<Rightarrow>
          (case au_time E s of (t, s) \<Rightarrow>
           let p = identity_path (acc_token_cache A) in
           and_then (au_call (fs_mkdirs (path_parent p)) s) (\<lambda>_ s.
           write_private E p (identity_text E A selected (iso E t)) s)))"

subsection \<open>Tokens\<close>

definition extract_token :: "'c msal \<Rightarrow> gobject option \<Rightarrow> string res" where
  "extract_token M result =
     (case result of
        None \<Rightarrow> Inl (AuthError ''Token acquisition failed - run auth-setup to re-authenticate'')
      | Some ob \<Rightarrow>
          if \<not> ghas ob ''access_token''
          then Inl (AuthError ''Token acquisition failed - run auth-setup to re-authenticate'')
          else Inr (case as_str (ms_conv M) (gget ob ''access_token'') of None \<Rightarrow> ''None'' | Some t \<Rightarrow> t))"

definition acquire_access_token ::
  "env \<Rightarrow> 'c msal \<Rightarrow> string list \<Rightarrow> AccountConfig \<Rightarrow> auth_state \<Rightarrow> string res \<times> auth_state" where
  "acquire_access_token E M scopes A s =
     and_then (build_app E M A s) (\<lambda>c s.
     let accounts = ms_accounts M A c in
     if accounts = []
     then (Inl (AuthError (''No cached account found for '' @ py_quote (acc_name A) @ ''. Run auth-setup first.'')), s)
     else
       and_then (load_expected_identity E M A s) (\<lambda>expected s.
       and_then (select_account accounts expected A, s) (\<lambda>selected s.
       (case ms_silent M (ticks (au_world s)) A scopes selected c of (result, c) \<Rightarrow>
        and_then (extract_token M result, s) (\<lambda>token s.
        and_then (save_cache E M (acc_token_cache A) c s) (\<lambda>_ s.
        and_then (persist_account_identity E A accounts s) (\<lambda>_ s. (Inr token, s))))))))"

definition auth_setup ::
  "env \<Rightarrow> 'c msal \<Rightarrow> string list \<Rightarrow> AccountConfig \<Rightarrow> auth_state \<Rightarrow> string res \<times> auth_state" where
  "auth_setup E M scopes A s =
     and_then (build_app E M A s) (\<lambda>c s.
     let flow = ms_initiate M (ticks (au_world s)) A scopes in
     if \<not> ghas flow ''user_code'' \<or> \<not> ghas flow ''verification_uri''
     then (Inl (AuthError ''Device-code flow did not return verification details''), s)
     else
       (case ms_device M (ticks (au_world s)) A flow c of (result, c) \<Rightarrow>
        and_then (extract_token M result, s) (\<lambda>token s.
        and_then (save_cache E M (acc_token_cache A) c s) (\<lambda>_ s.
        and_then (build_app E M A s) (\<lambda>c s.
        and_then (persist_account_identity E A (ms_accounts M A c) s) (\<lambda>_ s. (Inr token, s)))))))"

definition persist_onboarding_root :: "env \<Rightarrow> AccountConfig \<Rightarrow> string \<Rightarrow> auth_state \<Rightarrow> unit res \<times> auth_state" where
  "persist_onboarding_root E A found s =
     (let n = py_strip found; n = (if prefix ''/'' n then n else ''/'' @ n);
          p = onboarding_metadata_path (acc_token_cache A) in
      if py_strip found = [] then (Inr (), s)
      else
        and_then (au_call (fs_mkdirs (path_parent p)) s) (\<lambda>_ s.
        (case au_time E s of (t, s) \<Rightarrow>
         write_private E p (json_dumps '', '' '': ''
           [(''account'', JText (acc_name A)), (''resolved_onedrive_root'', JText n),
            (''updated_at'', JText (iso E t))]) s)))"

subsection \<open>Reading back what was written\<close>

fun gval_of :: "jval \<Rightarrow> gval" where
  "gval_of JNull = GNull"
| "gval_of (JBool b) = GBool b"
| "gval_of (JInt i) = GInt i"
| "gval_of (JText t) = GStr t"

text \<open>What the client relies on of \<open>json.loads\<close>: a flat object that was printed is read back.\<close>

definition reads_back :: "(string \<Rightarrow> gval option) \<Rightarrow> bool" where
  "reads_back loads \<longleftrightarrow> (\<forall>kvs. loads (json_dumps '', '' '': '' kvs) = Some (GObj (map (map_prod id gval_of) kvs)))"

definition flat_loads :: "string \<Rightarrow> gval option" where
  "flat_loads t = map_option (\<lambda>kvs. GObj (map (map_prod id gval_of) kvs)) (json_loads t)"

lemma flat_loads_reads_back: "reads_back flat_loads"
  by (simp add: reads_back_def flat_loads_def json_round_trip good_seps_default)

lemma write_private_ok:
  assumes "write_private E p body s = (Inr u, s')"
  shows "\<exists>t. fs_node (au_fs s') p = Some (Reg body t) \<and> fs_cwd (au_fs s') = fs_cwd (au_fs s)"
proof -
  from assms obtain s1 where w: "au_call (fs_write p body (clock E (ticks (au_world s)))) s = (Inr (), s1)"
    and c: "chmod p 384 s1 = (Inr u, s')"
    by (auto simp: write_private_def and_then_eq_Inr)
  from w have f: "fs_write p body (clock E (ticks (au_world s))) (au_fs s) = (Inr (), au_fs s1)"
    by (auto simp: au_call_def fs_call_def au_fs_def split: prod.splits)
  then have nd: "node_at (au_fs s) (butlast (fs_key (au_fs s) p)) = Some Dir" "fs_node (au_fs s) p \<noteq> Some Dir"
    and s1: "au_fs s1 = key_put (fs_key (au_fs s) p) (Reg body (clock E (ticks (au_world s)))) (au_fs s)"
    by (auto simp: fs_write_def split: if_splits)
  from nd(2) have "fs_key (au_fs s) p \<noteq> []" by (auto simp: fs_node_def)
  moreover have "au_fs s' = au_fs s1" using c by (auto simp: chmod_def au_fs_def split: if_splits)
  ultimately show ?thesis using s1 by (simp add: fs_node_def fs_key_def)
qed

lemma fs_read_node: "fs_node f p = Some (Reg body t) \<Longrightarrow> fst (fs_read p f) = Inr body"
  by (simp add: fs_read_def)

lemma identity_fields_keys: "map fst (identity_fields ob ks) = filter (\<lambda>k. str_field ob k \<noteq> None) ks"
  by (induction ks) (auto simp: identity_fields_def split: option.splits)

lemma map_of_identity_fields: "map_of (identity_fields ob ks) k = (if k \<in> set ks then str_field ob k else None)"
  by (induction ks) (auto simp: identity_fields_def split: option.splits)

text \<open>The fields of a payload are what \<open>map_of\<close> finds, whatever their order.\<close>

lemma str_field_texts:
  assumes "distinct (map fst kvs)" and "\<forall>v \<in> snd ` set kvs. v \<noteq> []"
  shows "str_field (map (map_prod id gval_of) (map (\<lambda>(k, v). (k, JText v)) kvs)) k = map_of kvs k"
proof -
  have m: "map (map_prod id gval_of) (map (\<lambda>(k, v). (k, JText v)) kvs) = map (\<lambda>(k, v). (k, GStr v)) kvs" by auto
  have "distinct (map fst (map (\<lambda>(k, v). (k, GStr v)) kvs))" using assms(1) by (simp add: comp_def case_prod_unfold)
  then have "map_of (rev (map (\<lambda>(k, v). (k, GStr v)) kvs)) = map_of (map (\<lambda>(k, v). (k, GStr v)) kvs)"
    by (subst map_of_inject_set) (simp_all add: rev_map [symmetric] del: map_map)
  then have "gget (map (\<lambda>(k, v). (k, GStr v)) kvs) k = (case map_of kvs k of None \<Rightarrow> GNull | Some v \<Rightarrow> GStr v)"
    by (simp add: gget_def map_of_map split: option.split)
  moreover have "map_of kvs k = Some v \<Longrightarrow> v \<noteq> []" for v using assms(2) by (force dest: map_of_SomeD)
  ultimately show ?thesis unfolding m by (simp add: str_field_def split: option.split)
qed

abbreviation bound_keys :: "string list" where
  "bound_keys \<equiv> [''home_account_id'', ''username'']"

lemma identity_fields_cong:
  "(\<And>k. k \<in> set ks \<Longrightarrow> str_field ob k = str_field ob' k) \<Longrightarrow> identity_fields ob ks = identity_fields ob' ks"
  by (induction ks) (auto simp: identity_fields_def)

lemma map_of_between: "k \<noteq> u \<Longrightarrow> k \<noteq> i \<Longrightarrow> map_of ((u, x) # fs @ [(i, h)]) k = map_of fs k"
  by (simp add: map_add_def split: option.split)

lemma map_of_at_end: "i \<noteq> u \<Longrightarrow> map_of fs i = None \<Longrightarrow> map_of ((u, x) # fs @ [(i, h)]) i = Some h"
  by (simp add: map_add_def)

text \<open>An identity file that was just written is accepted and names the account it was written for.\<close>

lemma read_identity_of_text:
  assumes "reads_back (ms_loads M)" and "fst (fs_read (identity_path (acc_token_cache A)) f) = Inr (identity_text E A a now)"
    and "now \<noteq> []" and "\<And>x. sha256 E x \<noteq> []"
  shows "read_identity E M A f = Inr (identity_fields a bound_keys)"
proof -
  let ?ks = "[''home_account_id'', ''username'', ''local_account_id'']"
  let ?fs = "identity_fields a ?ks"
  let ?all = "(''updated_at'', now) # ?fs @ [(''integrity_sha256'', identity_integrity_hash E ?fs A)]"
  let ?ob = "map (map_prod id gval_of) (map (\<lambda>(k, v). (k, JText v)) (sort_key fst ?all))"
  have keys: "fst ` set ?fs \<subseteq> set ?ks" using arg_cong [OF identity_fields_keys [of a ?ks], of set] by auto
  have dist: "distinct (map fst ?all)"
    using keys by (auto simp: identity_fields_keys)
  then have dist': "distinct (map fst (sort_key fst ?all))"
    unfolding distinct_map distinct_sort set_sort .
  have ne: "\<forall>v \<in> snd ` set (sort_key fst ?all). v \<noteq> []"
  proof -
    have "(k, v) \<in> set ?fs \<Longrightarrow> v \<noteq> []" for k v
      by (auto simp: identity_fields_def str_field_def split: option.splits gval.splits if_splits)
    moreover have "identity_integrity_hash E ?fs A \<noteq> []" using assms(4) by (simp add: identity_integrity_hash_def)
    ultimately show ?thesis using assms(3) unfolding set_sort by auto
  qed
  have mo: "map_of (sort_key fst ?all) = map_of ?all"
    using map_of_inject_set [OF dist' dist] unfolding set_sort by blast
  have look: "str_field ?ob k = map_of ?all k" for k
    using str_field_texts [OF dist' ne, of k] unfolding mo .
  have same: "str_field ?ob k = str_field a k" if "k \<in> set ?ks" for k
  proof -
    have ne: "k \<noteq> ''updated_at''" "k \<noteq> ''integrity_sha256''" using that by auto
    show ?thesis unfolding look map_of_between [OF ne] map_of_identity_fields using that by (rule if_P)
  qed
  have hash: "str_field ?ob ''integrity_sha256'' = Some (identity_integrity_hash E ?fs A)"
    unfolding look by (rule map_of_at_end) (simp_all add: map_of_identity_fields)
  have all: "identity_fields ?ob ?ks = ?fs" by (rule identity_fields_cong) (rule same)
  have "set bound_keys \<subseteq> set ?ks" by simp
  then have two: "identity_fields ?ob bound_keys = identity_fields a bound_keys"
    by (intro identity_fields_cong same) (rule subsetD)
  have "ms_loads M (identity_text E A a now) = Some (GObj ?ob)"
    using assms(1) by (simp add: reads_back_def identity_text_def Let_def)
  moreover have "validate_identity_integrity E ?ob A = Inr ()"
    unfolding validate_identity_integrity_def hash option.case all by (simp only: simp_thms if_True)
  ultimately show ?thesis
    unfolding read_identity_def Let_def assms(2) sum.case by (simp only: option.case gval.case sum.case two)
qed

subsection \<open>Which account a token is taken from\<close>

lemma select_account_sound:
  assumes "select_account accounts expected A = Inr a"
  shows "a \<in> set accounts \<and> (if expected = [] then accounts = [a] else identity_matches expected a)"
proof (cases "expected = []")
  case True
  with assms show ?thesis by (cases accounts) (auto simp: select_account_def split: if_splits)
next
  case False
  with assms show ?thesis
    by (auto simp: select_account_def find_Some_iff split: option.splits)
qed

lemma bound_to_itself:
  assumes "identity_fields a bound_keys \<noteq> []"
  shows "select_account (a # as) (identity_fields a bound_keys) A = Inr a"
proof -
  have "str_field a k = Some v \<Longrightarrow> gget a k = GStr v" for k v
    by (auto simp: str_field_def split: gval.splits if_splits)
  moreover have "\<exists>k \<in> set bound_keys. str_field a k \<noteq> None"
    using assms by (auto simp: identity_fields_def split: option.splits)
  ultimately have "identity_matches (identity_fields a bound_keys) a"
    by (auto simp: identity_matches_def map_of_identity_fields list_ex_iff split: option.splits)
  with assms show ?thesis by (simp add: select_account_def)
qed

lemma acquire_steps:
  assumes "acquire_access_token E M scopes A s = (Inr token, s')"
  shows "\<exists>c s1 expected s2 a c' s3. build_app E M A s = (Inr c, s1) \<and>
    load_expected_identity E M A s1 = (Inr expected, s2) \<and> select_account (ms_accounts M A c) expected A = Inr a \<and>
    extract_token M (fst (ms_silent M (ticks (au_world s2)) A scopes a c)) = Inr token \<and>
    save_cache E M (acc_token_cache A) c' s2 = (Inr (), s3) \<and>
    persist_account_identity E A (ms_accounts M A c) s3 = (Inr (), s')"
proof -
  from assms obtain c s1 where b: "build_app E M A s = (Inr c, s1)"
    by (auto simp: acquire_access_token_def and_then_eq_Inr)
  with assms obtain expected s2 a where l: "load_expected_identity E M A s1 = (Inr expected, s2)"
    and a: "select_account (ms_accounts M A c) expected A = Inr a"
    by (auto simp: acquire_access_token_def Let_def and_then_eq_Inr split: if_splits)
  obtain r c' where m: "ms_silent M (ticks (au_world s2)) A scopes a c = (r, c')" by fastforce
  with assms b l a show ?thesis
    by (auto simp: acquire_access_token_def Let_def and_then_eq_Inr split: if_splits)
qed

lemma persist_account_identity_ok:
  assumes "persist_account_identity E A (a # as) s = (Inr (), s')"
  shows "\<exists>t. fst (fs_read (identity_path (acc_token_cache A)) (au_fs s')) = Inr (identity_text E A a (iso E t))"
proof -
  from assms obtain t s1 s2 where "write_private E (identity_path (acc_token_cache A)) (identity_text E A a (iso E t)) s2 = (Inr (), s')"
    by (auto simp: persist_account_identity_def Let_def and_then_eq_Inr split: prod.splits)
  from write_private_ok [OF this] fs_read_node show ?thesis by blast
qed

text \<open>
  C36: a token is only taken from a cached account that the identity file names, or from the only
  cached account when there is no identity file; with several cached accounts and no identity
  the request fails.  But the identity file is then rewritten for the first cached account,
  whichever account the token came from: the next request selects that first account.
\<close>

theorem token_request_rebinds_to_first_account:
  assumes "reads_back (ms_loads M)" and "\<And>x. sha256 E x \<noteq> []" and "\<And>t. iso E t \<noteq> []"
    and "acquire_access_token E M scopes A s = (Inr token, s')"
  shows "\<exists>c s1 expected s2 a0 as a. build_app E M A s = (Inr c, s1) \<and>
    load_expected_identity E M A s1 = (Inr expected, s2) \<and> ms_accounts M A c = a0 # as \<and>
    a \<in> set (a0 # as) \<and> (if expected = [] then a0 # as = [a] else identity_matches expected a) \<and>
    extract_token M (fst (ms_silent M (ticks (au_world s2)) A scopes a c)) = Inr token \<and>
    read_identity E M A (au_fs s') = Inr (identity_fields a0 bound_keys) \<and>
    (identity_fields a0 bound_keys \<noteq> [] \<longrightarrow>
       select_account (a0 # as) (identity_fields a0 bound_keys) A = Inr a0)"
proof -
  from acquire_steps [OF assms(4)] obtain c s1 expected s2 a c' s3 where b: "build_app E M A s = (Inr c, s1)"
    and l: "load_expected_identity E M A s1 = (Inr expected, s2)"
    and a: "select_account (ms_accounts M A c) expected A = Inr a"
    and x: "extract_token M (fst (ms_silent M (ticks (au_world s2)) A scopes a c)) = Inr token"
    and p: "persist_account_identity E A (ms_accounts M A c) s3 = (Inr (), s')"
    by blast
  note sel = select_account_sound [OF a]
  then obtain a0 as where as: "ms_accounts M A c = a0 # as" by (cases "ms_accounts M A c") auto
  from persist_account_identity_ok [OF p [unfolded as]] obtain t
    where "fst (fs_read (identity_path (acc_token_cache A)) (au_fs s')) = Inr (identity_text E A a0 (iso E t))" by blast
  from read_identity_of_text [OF assms(1) this assms(3,2)]
  have "read_identity E M A (au_fs s') = Inr (identity_fields a0 bound_keys)" .
  with b l sel x as bound_to_itself show ?thesis by metis
qed

subsection \<open>The discovered root\<close>

lemma root_text_stripped:
  assumes "n = (if prefix ''/'' (py_strip r) then py_strip r else ''/'' @ py_strip r)" and "py_strip r \<noteq> []"
  shows "py_strip n = n \<and> prefix ''/'' n \<and> n \<noteq> []"
proof -
  have l: "\<not> py_space (last (py_strip r))" "\<not> py_space (hd (py_strip r))"
    using assms(2) strip_by_last [of py_space r] strip_by_hd [of py_space r] by (auto simp: py_strip_def)
  have "\<not> py_space (CHR ''/'')" by (simp add: py_space_def)
  then have "\<not> py_space (hd n) \<and> \<not> py_space (last n)" using assms l by auto
  then have "py_strip n = n" unfolding py_strip_def by (intro strip_by_id) blast
  then show ?thesis using assms by auto
qed

text \<open>
  A root that the discovery stored is what the next load of the configuration uses for the
  account, normalised to a leading slash, whatever \<open>onedrive_root\<close> the configuration file gives.
\<close>

theorem stored_root_overrides_configured:
  assumes "reads_back loads" and "py_strip found \<noteq> []" and "persist_onboarding_root E A found s = (Inr (), s')"
    and "n = (if prefix ''/'' (py_strip found) then py_strip found else ''/'' @ py_strip found)"
  shows "load_onboarding_resolved_root loads (acc_token_cache A) (au_fs s') = (Inr (Some n), au_fs s') \<and>
    effective_onedrive_root (B\<lparr>acc_onedrive_root := configured, acc_resolved_onedrive_root := Some n\<rparr>) = n"
proof -
  let ?p = "onboarding_metadata_path (acc_token_cache A)"
  note n = root_text_stripped [OF assms(4,2)]
  from assms(2-4) obtain t s1 where "write_private E ?p (json_dumps '', '' '': ''
           [(''account'', JText (acc_name A)), (''resolved_onedrive_root'', JText n),
            (''updated_at'', JText (iso E t))]) s1 = (Inr (), s')"
  proof -
    from assms(2,3) obtain sa where k: "(case au_time E sa of (t, s) \<Rightarrow> write_private E ?p (json_dumps '', '' '': ''
           [(''account'', JText (acc_name A)), (''resolved_onedrive_root'', JText n),
            (''updated_at'', JText (iso E t))]) s) = (Inr (), s')"
      by (auto simp: persist_onboarding_root_def Let_def and_then_eq_Inr assms(4) [symmetric])
    obtain t s1 where "au_time E sa = (t, s1)" by fastforce
    with k that show thesis by simp
  qed
  from write_private_ok [OF this] obtain u where node: "fs_node (au_fs s') ?p = Some (Reg (json_dumps '', '' '': ''
           [(''account'', JText (acc_name A)), (''resolved_onedrive_root'', JText n),
            (''updated_at'', JText (iso E t))]) u)" by blast
  then have "fs_exists (au_fs s') ?p" by (simp add: fs_exists_def)
  then have "migrate_onboarding_file (acc_token_cache A) (au_fs s') = (Inr (), au_fs s')"
    by (simp add: migrate_onboarding_file_def)
  moreover have "resolved_root_in loads (acc_token_cache A) (au_fs s') = Some n"
    using assms(1) n unfolding resolved_root_in_def fs_read_node [OF node] sum.case
    by (simp add: reads_back_def gget_def Let_def)
  ultimately show ?thesis
    using n by (cases n) (simp_all add: load_onboarding_resolved_root_def effective_onedrive_root_def)
qed

subsection \<open>Examples\<close>

definition auth_env :: env where
  "auth_env = plain_env\<lparr>sha256 := (\<lambda>t. CHR ''h'' # t)\<rparr>"

definition cached_a :: gobject where "cached_a = [(''home_account_id'', GStr ''A'')]"
definition cached_b :: gobject where "cached_b = [(''home_account_id'', GStr ''B'')]"

text \<open>A cache that holds two accounts; the token of an account is its identifier.\<close>

definition two_accounts :: "string msal" where
  "two_accounts = \<lparr>ms_empty = [], ms_deserialize = Some, ms_serialize = (\<lambda>c. c), ms_changed = (\<lambda>_. False),
     ms_accounts = (\<lambda>_ _. [cached_a, cached_b]),
     ms_silent = (\<lambda>_ _ _ a c. (Some [(''access_token'', gget a ''home_account_id'')], c)),
     ms_initiate = (\<lambda>_ _ _. []), ms_device = (\<lambda>_ _ _ c. (None, c)),
     ms_loads = flat_loads, ms_stamp = int_str, ms_conv = \<lparr>py_repr = (\<lambda>_. []), py_int = (\<lambda>_. None)\<rparr>\<rparr>"

definition anna :: AccountConfig where
  "anna = \<lparr>acc_name = ''anna'', acc_enabled = True, acc_display_name = ''anna'', acc_provider = ''onedrive'',
     acc_authority = ''x'', acc_client_id = ''c1'', acc_onedrive_root = ''/Pictures'',
     acc_token_cache = path_of ''/var/anna.json'', acc_delta_cursor = path_of ''/var/anna.cursor'',
     acc_max_downloads = None, acc_resolved_onedrive_root = None\<rparr>"

definition bound_to_b :: auth_state where
  "bound_to_b = \<lparr>au_world = \<lparr>db = empty_db, fsys = \<lparr>nodes = [([''var''], Dir), ([''var'', ''anna.json''], Reg ''t'' 0),
       ([''var'', ''anna.identity.json''], Reg (identity_text auth_env anna cached_b ''0'') 0)],
       fs_cwd = [], fs_dev = (\<lambda>_. 0)\<rparr>, jfiles = \<lparr>j_active = None, j_rotated = None\<rparr>, ticks = 0\<rparr>,
     au_mode = (\<lambda>k. if length k = 1 then 448 else 384)\<rparr>"

definition token_of :: "auth_state \<Rightarrow> string res" where
  "token_of s = fst (acquire_access_token auth_env two_accounts DEFAULT_SCOPES anna s)"

definition after_token :: "auth_state \<Rightarrow> auth_state" where
  "after_token s = snd (acquire_access_token auth_env two_accounts DEFAULT_SCOPES anna s)"

lemma bound_token: "token_of bound_to_b = Inr ''B''"
  by code_simp

lemma rebound_token: "token_of (after_token bound_to_b) = Inr ''A''"
  by code_simp

theorem token_request_rebinds_to_first_account_witness:
  "token_of bound_to_b = Inr ''B'' \<and>
   read_identity auth_env two_accounts anna (au_fs (after_token bound_to_b)) = Inr [(''home_account_id'', ''A'')] \<and>
   token_of (after_token bound_to_b) = Inr ''A''"
proof (intro conjI bound_token rebound_token)
  have "acquire_access_token auth_env two_accounts DEFAULT_SCOPES anna bound_to_b = (Inr ''B'', after_token bound_to_b)"
    using bound_token by (simp add: token_of_def after_token_def prod_eq_iff)
  moreover have "reads_back (ms_loads two_accounts)" by (simp add: two_accounts_def flat_loads_reads_back)
  moreover have "sha256 auth_env x \<noteq> []" "iso auth_env t \<noteq> []" for x t
    by (simp_all add: auth_env_def plain_env_def int_str_def)
  moreover have "ms_accounts two_accounts anna c = [cached_a, cached_b]" for c by (simp add: two_accounts_def)
  moreover have "identity_fields cached_a bound_keys = [(''home_account_id'', ''A'')]" by code_simp
  ultimately show "read_identity auth_env two_accounts anna (au_fs (after_token bound_to_b)) = Inr [(''home_account_id'', ''A'')]"
    using token_request_rebinds_to_first_account [of two_accounts auth_env DEFAULT_SCOPES anna bound_to_b "''B''" "after_token bound_to_b"]
    by auto
qed

theorem stored_root_overrides_configured_witness:
  "\<exists>s'. persist_onboarding_root auth_env anna '' Bilder '' bound_to_b = (Inr (), s') \<and>
     load_onboarding_resolved_root flat_loads (acc_token_cache anna) (au_fs s') = (Inr (Some ''/Bilder''), au_fs s') \<and>
     effective_onedrive_root (anna\<lparr>acc_onedrive_root := ''/Pictures'', acc_resolved_onedrive_root := Some ''/Bilder''\<rparr>) = ''/Bilder''"
proof -
  let ?r = "persist_onboarding_root auth_env anna '' Bilder '' bound_to_b"
  have "fst ?r = Inr ()" by code_simp
  then have r: "?r = (Inr (), snd ?r)" by (simp add: prod_eq_iff)
  have n: "''/Bilder'' = (if prefix ''/'' (py_strip '' Bilder '') then py_strip '' Bilder '' else ''/'' @ py_strip '' Bilder '')"
    and "py_strip '' Bilder '' \<noteq> []" by code_simp+
  from stored_root_overrides_configured [OF flat_loads_reads_back this(2) r n, where B = anna and configured = "''/Pictures''"] r
  show ?thesis by blast
qed

end
