(* ===== verification/Accounts.thy ===== *)
theory Accounts
  imports Poll Auth
begin

section \<open>Polling the accounts (\<open>poll_accounts\<close> of \<open>client.py\<close>, \<open>cache_lock.py\<close>, \<open>process_lock.py\<close>)\<close>

subsection \<open>Polling one account touches the registry only through the handoff\<close>

definition pl_db :: "poller \<Rightarrow> registry_db" where
  "pl_db p = db (pl_world p)"

definition same_db :: "poller \<Rightarrow> poller \<Rightarrow> bool" where
  "same_db p p' \<longleftrightarrow> pl_db p' = pl_db p"

interpretation sd: step_frame same_db
  by unfold_locales (simp_all add: same_db_def)

named_theorems same_db_intros \<open>steps of a poll that leave the registry alone\<close>

lemma same_db_world: "pl_world q = pl_world p \<Longrightarrow> same_db p q"
  by (simp add: same_db_def pl_db_def)

lemma same_db_pl_fs [same_db_intros]: "same_db p (snd (pl_fs m p))"
  by (simp add: same_db_def pl_db_def pl_fs_def fs_call_def split: prod.split)

lemma same_db_draw: "draw_time E (pl_world p) = (t, w) \<Longrightarrow> same_db p (p\<lparr>pl_world := w\<rparr>)"
  by (auto simp: same_db_def pl_db_def draw_time_def)

lemma same_db_append_line [same_db_intros]: "same_db p (snd (append_line N file payload p))"
  unfolding append_line_def
proof (rule sd.frame_and_then, rule same_db_pl_fs)
  fix x and q :: poller
  obtain t w where d: "draw_time (outside N) (pl_world q) = (t, w)" by fastforce
  from sd.frame_trans [OF same_db_draw [OF d] same_db_pl_fs]
  show "same_db q (snd (case draw_time (outside N) (pl_world q) of (now, w) \<Rightarrow>
      pl_fs (fs_append file (json_dumps '', '' '': '' (payload (iso (outside N) now)) @ [CHR 0x0A]) now) (q\<lparr>pl_world := w\<rparr>)))"
    unfolding d prod.case .
qed

lemma same_db_lifecycle [same_db_intros]: "same_db p (snd (append_lifecycle_event N journal event account item file p))"
  unfolding append_lifecycle_event_def
  by (rule sd.frame_and_then, rule same_db_append_line) (simp add: same_db_world)

lemma same_db_handoff_entry [same_db_intros]: "same_db p (snd (append_boundary_handoff_entry N manifest c file p))"
  unfolding append_boundary_handoff_entry_def by (rule same_db_append_line)

lemma graph_world:
  "graph_attempts N pol url attempt left token refreshed p = (r, p') \<Longrightarrow> pl_world p' = pl_world p"
proof (induction left arbitrary: attempt token refreshed p)
  case (Suc left)
  from Suc.prems show ?case
    by (cases rule: graph_attempt_cases) (auto simp: sent_def dest: Suc.IH)
qed simp

lemma same_db_graph [same_db_intros]: "same_db p (snd (graph_get_json N pol url token p))"
  using graph_world [of N pol url 1 "max_attempts pol" token False p]
  by (cases "graph_get_json N pol url token p") (auto simp: graph_get_json_def intro: same_db_world)

lemma same_db_cleanup: "same_db p (cleanup_partial dest p)"
  by (simp add: cleanup_partial_def same_db_pl_fs)

lemma same_db_write_now: "same_db p (snd (write_at_now N dest body p))"
proof -
  obtain t w where d: "draw_time (outside N) (pl_world p) = (t, w)" by fastforce
  from sd.frame_trans [OF same_db_draw [OF d] same_db_pl_fs] show ?thesis by (simp add: write_at_now_def d)
qed

lemma pl_db_simps [simp]:
  "pl_db (increment_counter k p) = pl_db p" "pl_db (count_if b k p) = pl_db p"
  "pl_db (sleep_before_retry N pol a hint p) = pl_db p" "pl_db (cleanup_partial dest p) = pl_db p"
  "pl_db (snd (write_at_now N dest body p)) = pl_db p" "pl_db (snd (send N url t p)) = pl_db p"
  using same_db_cleanup [of p dest] same_db_write_now [of p N dest body]
  by (simp_all add: pl_db_def same_db_def send_def)

lemma download_attempts_db: "pl_db (snd (download_attempts N pol url dest expected attempt left p)) = pl_db p"
proof (induction left arbitrary: attempt p)
  case (Suc left)
  obtain reply q where s: "send N url None (increment_counter ''download_request_total'' p) = (reply, q)" by fastforce
  then have q: "pl_db q = pl_db p" using pl_db_simps(6) [of N url None "increment_counter ''download_request_total'' p"] by simp
  show ?case
  proof (cases reply)
    case Transport
    with s q Suc.IH show ?thesis by (simp add: download_attempts.simps Let_def)
  next
    case (Response st hs body)
    obtain r u where w: "write_at_now N dest body q = (r, u)" by fastforce
    then have "pl_db u = pl_db q" using pl_db_simps(5) [of N dest body q] by simp
    with s q Suc.IH Response w show ?thesis by (cases r; cases expected) (simp_all add: download_attempts.simps Let_def)
  qed
qed (simp add: download_attempts.simps)

lemma same_db_download [same_db_intros]: "same_db p (snd (download_with_retry N pol url dest expected p))"
  unfolding download_with_retry_def
  by (rule sd.frame_and_then, rule same_db_pl_fs) (simp add: same_db_def download_attempts_db)

text \<open>A result that is inspected, with a step after each case.\<close>

lemma same_db_resolve [same_db_intros]: "same_db p (snd (resolve_download_url_once N pol token item p))"
proof -
  obtain r q where g: "graph_get_json N pol (GRAPH_BASE @ ''/me/drive/items/'' @ url_quote item) token p = (r, q)" by fastforce
  then have "same_db p q" using same_db_graph [of p N pol "GRAPH_BASE @ ''/me/drive/items/'' @ url_quote item" token] by simp
  then show ?thesis
    unfolding resolve_download_url_once_def g by (cases r) (auto split: exn.split option.split)
qed

lemma same_db_initial_url [same_db_intros]: "same_db p (snd (initial_download_url N pol token c b p))"
  by (auto simp: initial_download_url_def Let_def sd.frame_refl case_prod_unfold intro!: sd.frame_and_then same_db_intros)

lemma same_db_refetch [same_db_intros]: "same_db p (snd (refetch_candidate N pol c url tmp b p))"
proof -
  obtain r q where d: "download_with_retry N pol url tmp (rc_size_bytes c) p = (r, q)" by fastforce
  then have q: "same_db p q" using same_db_download [of p N pol url tmp "rc_size_bytes c"] by simp
  have k: "same_db q (snd (and_then (pl_fs (fs_unlink tmp) q) (\<lambda>_ p. if u then (Inr x, p) else (Inl y, p))))"
    for u y and x :: "bool \<times> download_batch"
    by (auto intro!: sd.frame_and_then same_db_intros sd.frame_refl)
  show ?thesis unfolding refetch_candidate_def d
    by (cases r) (auto split: exn.split intro!: sd.frame_trans [OF q] k intro: sd.frame_refl)
qed

lemma same_db_fetch [same_db_intros]: "same_db p (snd (fetch_candidate N pol token c url tmp b p))"
proof -
  obtain r q where d: "download_with_retry N pol url tmp (rc_size_bytes c) p = (r, q)" by fastforce
  then have q: "same_db p q" using same_db_download [of p N pol url tmp "rc_size_bytes c"] by simp
  have k: "same_db q (snd (and_then (pl_fs (fs_unlink tmp) q) (\<lambda>_ p.
          if u then (Inl x, p)
          else and_then (resolve_download_url_once N pol token (rc_item_id c) p) (\<lambda>(u, reason) p.
            case u of
              None \<Rightarrow> (Inr (False, ghost reason b), p)
            | Some url' \<Rightarrow> refetch_candidate N pol c url' tmp b p))))" for u x
    by (auto intro!: sd.frame_and_then same_db_intros sd.frame_refl split: option.split)
  show ?thesis unfolding fetch_candidate_def d
    by (cases r) (auto split: exn.split intro!: sd.frame_trans [OF q] k intro: sd.frame_refl)
qed

lemma same_db_counted: "same_db (increment_counter k p) q \<Longrightarrow> same_db p q" "same_db (count_if b k p) q \<Longrightarrow> same_db p q"
  by (simp_all add: same_db_def)

lemma same_db_if:
  "same_db p (snd x) \<Longrightarrow> same_db p (snd y) \<Longrightarrow> same_db p (snd (if b then x else y))"
  by simp

lemma same_db_return: "same_db p (snd (r, p))"
  by (simp add: same_db_def)

lemmas same_db_steps = sd.frame_and_then same_db_if same_db_return same_db_intros

lemma same_db_finish [same_db_intros]: "same_db p (snd (finish_candidate N mode target manifest account c tmp name b p))"
  unfolding finish_candidate_def Let_def
  apply (rule sd.frame_and_then, rule same_db_lifecycle)
  apply (rule same_db_if)
   apply (rule sd.frame_and_then, rule same_db_pl_fs)
   apply (rule sd.frame_and_then, rule same_db_counted(1), rule same_db_lifecycle)
   apply (rule same_db_return)
  apply (rule sd.frame_and_then, rule same_db_pl_fs)
  apply (rule sd.frame_and_then, rule same_db_lifecycle)
  apply (rule sd.frame_and_then, rule same_db_handoff_entry)
  apply (rule same_db_return)
  done

lemma same_db_stage [same_db_intros]: "same_db p (snd (stage_candidate N pol token mode target manifest account c b p))"
proof -
  obtain base used where u: "unique_staging_basename (outside N) (rc_item_id c) (db_used b) = (base, used)" by fastforce
  have k: "same_db q (snd (and_then (append_lifecycle_event N (child target ''_lifecycle.journal.jsonl'') ''download_started'' account
               (rc_item_id c) tmp q) (\<lambda>_ p.
           and_then (initial_download_url N pol token c x p) (\<lambda>(u, b) p.
           case u of
             None \<Rightarrow> (Inr b, p)
           | Some url \<Rightarrow>
               and_then (fetch_candidate N pol token c url tmp b p) (\<lambda>(got, b) p.
               if got then finish_candidate N mode target manifest account c tmp name b p
               else (Inr b, p))))))" for q x tmp name
  proof (intro sd.frame_and_then same_db_lifecycle same_db_initial_url)
    fix ub :: "string option \<times> download_batch" and p
    obtain url b where ub: "ub = (url, b)" by fastforce
    show "same_db p (snd ((case ub of (u, b) \<Rightarrow> \<lambda>p. case u of None \<Rightarrow> (Inr b, p)
        | Some url \<Rightarrow> and_then (fetch_candidate N pol token c url tmp b p) (\<lambda>(got, b) p.
            if got then finish_candidate N mode target manifest account c tmp name b p else (Inr b, p))) p))"
      unfolding ub prod.case
      by (cases url) (auto intro!: sd.frame_and_then same_db_fetch same_db_finish intro: sd.frame_refl)
  qed
  show ?thesis
    unfolding stage_candidate_def u prod.case Let_def
    by (rule same_db_counted(2) [where b = "rc_size_bytes c = None" and k = "''integrity_uncertain_total''"], rule same_db_if)
      (simp add: same_db_def, rule k)
qed

lemma same_db_download_loop [same_db_intros]:
  "same_db p (snd (download_loop N pol token mode target manifest account limit index cs b p))"
  by (induction cs arbitrary: index b p) (auto intro!: sd.frame_and_then same_db_intros intro: sd.frame_refl)

lemma same_db_candidates [same_db_intros]:
  "same_db p (snd (download_candidates N pol token mode staging_root account max_downloads reset cs p))"
  unfolding download_candidates_def Let_def
  by (auto intro!: sd.frame_and_then same_db_intros sd.frame_refl)

lemma same_db_recover_loop [same_db_intros]: "same_db p (snd (recover_loop now ttl quarantine ks p))"
  by (induction ks arbitrary: p)
    (auto simp: Let_def intro!: sd.frame_and_then same_db_intros intro: sd.frame_refl same_db_counted(1))

lemma same_db_recover [same_db_intros]: "same_db p (snd (recover_staging_tmp_files N dir ttl p))"
proof -
  obtain t w where d: "draw_time (outside N) (pl_world p) = (t, w)" by fastforce
  from sd.frame_trans [OF same_db_draw [OF d] same_db_recover_loop] show ?thesis
    by (auto simp: recover_staging_tmp_files_def d Let_def intro: sd.frame_refl)
qed

text \<open>
  The contract between the poll and the processor it hands downloads to: a frame on the registry
  that the processor respects is respected by the whole poll, however it ends.
\<close>

abbreviation poll_world :: "poll_state \<Rightarrow> world" where
  "poll_world s \<equiv> pl_world (ps_net s)"

locale handoff_frame = world_frame +
  fixes proc :: handoff_processor
  assumes proc_frame: "R w (snd (proc account rows w))"
begin

lemma poll_and_then:
  assumes "R (poll_world s0) (poll_world (snd r))" and "\<And>x s. r = (Inr x, s) \<Longrightarrow> R (poll_world s) (poll_world (snd (k x s)))"
  shows "R (poll_world s0) (poll_world (snd (and_then r k)))"
  using assms frame_trans by (cases r; cases "fst r") (auto simp: and_then_def)

lemma frame_if:
  "(b \<Longrightarrow> R w (poll_world (snd x))) \<Longrightarrow> (\<not> b \<Longrightarrow> R w (poll_world (snd y))) \<Longrightarrow> R w (poll_world (snd (if b then x else y)))"
  by simp

lemma frame_lift_net:
  assumes "\<And>p. same_db p (snd (m p))" shows "R (poll_world s) (poll_world (snd (lift_net m s)))"
proof -
  obtain r p where "m (ps_net s) = (r, p)" by fastforce
  with assms [of "ps_net s"] show ?thesis by (auto simp: lift_net_def same_db_def pl_db_def intro: frame_same_db)
qed

lemma frame_handoff: "R (poll_world s) (poll_world (snd (run_handoff (Some proc) account rows s)))"
  using proc_frame [of "poll_world s" account rows] frame_refl by (auto simp: run_handoff_def split: prod.split)

lemma frame_download_page:
  "R (poll_world s) (poll_world (snd (download_page N pol L A root_dir token (Some proc) cs wk s)))"
  unfolding download_page_def
  by (auto intro!: poll_and_then frame_lift_net same_db_candidates frame_handoff frame_refl)

lemma frame_process_page:
  "R (poll_world s) (poll_world (snd (process_page N pol L A root_dir token (Some proc) payload wk s)))"
proof -
  obtain t w where d: "draw_time (outside N) (poll_world s) = (t, w)" by fastforce
  then have w: "R (poll_world s) w" by (intro frame_same_db) (auto simp: draw_time_def)
  show ?thesis
    unfolding process_page_def d prod.case Let_def
    by (rule poll_and_then, rule frame_trans [OF w])
      (auto intro: frame_download_page [of "s\<lparr>ps_net := (ps_net s)\<lparr>pl_world := w\<rparr>\<rparr>", simplified] frame_refl
        simp: clear_resync_marker_def save_cursor_def split: option.split)
qed

lemma frame_walk:
  "R (poll_world s) (poll_world (snd (walk_pages N pol L A root_dir token (Some proc) start pages wk s)))"
proof (induction pages arbitrary: wk s)
  case 0
  show ?case by (subst walk_pages.simps) (auto intro: frame_refl split: option.split list.split)
next
  case (Suc left)
  have loop: "R (poll_world s) (poll_world (reset_loop_incidents (mark_resync_required a b (snd (increment_loop_incident s)))))"
    "R (poll_world s) (poll_world (snd (increment_loop_incident s)))" for a b
    by (simp_all add: reset_loop_incidents_def mark_resync_required_def increment_loop_incident_def Let_def frame_refl)
  have fetch: "R (poll_world s) (poll_world (snd (case lift_net (graph_get_json N pol url token) s of
       (Inl (GraphResyncRequired resync_url), s) \<Rightarrow> (x resync_url, mark_resync_required ''delta_resync_required_410'' resync_url s)
     | (Inl e, s) \<Rightarrow> (Inl e, s)
     | (Inr payload, s) \<Rightarrow> and_then (process_page N pol L A root_dir token (Some proc) payload wk' s) (\<lambda>wk s.
         walk_pages N pol L A root_dir token (Some proc) start left wk s))))" for url x wk'
  proof -
    obtain r s1 where l: "lift_net (graph_get_json N pol url token) s = (r, s1)" by fastforce
    have s1: "R (poll_world s) (poll_world s1)" using frame_lift_net [of "graph_get_json N pol url token" s] same_db_graph l by simp
    show ?thesis
    proof (cases r)
      case (Inl e)
      with l s1 show ?thesis by (auto simp: mark_resync_required_def split: exn.split)
    next
      case (Inr payload)
      have "R (poll_world s1) (poll_world (snd (and_then (process_page N pol L A root_dir token (Some proc) payload wk' s1) (\<lambda>wk s.
         walk_pages N pol L A root_dir token (Some proc) start left wk s))))"
        by (rule poll_and_then, rule frame_process_page, rule Suc.IH)
      with Inr l frame_trans [OF s1] show ?thesis by simp
    qed
  qed
  obtain n s1 where i: "increment_loop_incident s = (n, s1)" by fastforce
  note loop' = loop [unfolded i snd_conv]
  show ?case
  proof (cases "wk_next wk")
    case None
    then show ?thesis by (subst walk_pages.simps) (simp add: frame_refl)
  next
    case (Some url)
    show ?thesis
    proof (cases url)
      case Nil
      with Some show ?thesis by (subst walk_pages.simps) (simp add: frame_refl)
    next
      case (Cons c u)
      show ?thesis
        unfolding walk_pages.simps [of N pol L A root_dir token "Some proc" start "Suc left" wk s] Some Cons option.case
          list.case nat.case i prod.case
        by (intro frame_if fetch) (simp_all add: frame_refl loop')
    qed
  qed
qed

lemma frame_finish: "R (poll_world s) (poll_world (snd (finish_poll N L wk halted s)))"
  by (rule frame_same_db)
    (auto simp: finish_poll_def Let_def arm_breaker_cooldown_def draw_time_def clear_resync_marker_def save_cursor_def
      split: option.split prod.split)

lemma frame_poll:
  "R (poll_world s) (poll_world (snd (poll_account_once N pol L A root_dir token (Some proc) s)))"
proof -
  have rest: "R (poll_world s) (poll_world (snd (and_then (lift_net (recover_staging_tmp_files N dir ttl) s) (\<lambda>_ s.
      and_then (walk_pages N pol L A root_dir token (Some proc) start pages wk s) (\<lambda>r s.
        case r of Inl result \<Rightarrow> (Inr result, s) | Inr (wk, halted) \<Rightarrow> finish_poll N L wk halted s)))))" for s dir ttl start pages wk
    by (intro poll_and_then frame_lift_net same_db_recover frame_walk) (auto split: sum.split intro: frame_refl frame_finish)
  have body: "R (poll_world s1) (poll_world (snd (case draw_time (outside N) (poll_world s1) of (now, w) \<Rightarrow> k now (s1\<lparr>ps_net := (ps_net s1)\<lparr>pl_world := w\<rparr>\<rparr>))))"
    if "\<And>now s. R (poll_world s) (poll_world (snd (k now s)))" for s1 and k :: "int \<Rightarrow> poll_state \<Rightarrow> poll_result res \<times> poll_state"
  proof -
    obtain t w where d: "draw_time (outside N) (poll_world s1) = (t, w)" by fastforce
    then have "R (poll_world s1) w" by (intro frame_same_db) (auto simp: draw_time_def)
    with d that [of "s1\<lparr>ps_net := (ps_net s1)\<lparr>pl_world := w\<rparr>\<rparr>" t] show ?thesis by (auto intro: frame_trans)
  qed
  have net: "R (poll_world s) (poll_world (snd (lift_net m (s\<lparr>ps_net := (ps_net s)\<lparr>pl_diag := []\<rparr>\<rparr>))))"
    if "\<And>p. same_db p (snd (m p))" for m :: "poller \<Rightarrow> unit res \<times> poller"
    using frame_lift_net [of m "s\<lparr>ps_net := (ps_net s)\<lparr>pl_diag := []\<rparr>\<rparr>"] that by simp
  show ?thesis
    unfolding poll_account_once_def Let_def
    by (rule poll_and_then, rule net, rule same_db_pl_fs, rule body) (auto intro: rest frame_refl)
qed

end


subsection \<open>Locks\<close>

text \<open>
  Taking a lock creates its file.  The blocking lock of a poll run only waits; the lock of an account
  does not, and \<open>busy\<close> says at each reading of the clock whether another holder has the lock file.
\<close>

definition file_lock :: "net \<Rightarrow> path \<Rightarrow> poller \<Rightarrow> unit res \<times> poller" where
  "file_lock N lock_path p =
     and_then (pl_fs (fs_mkdirs (path_parent lock_path)) p) (\<lambda>_ p. write_at_now N lock_path [] p)"

definition global_process_lock :: "net \<Rightarrow> path \<Rightarrow> poller \<Rightarrow> unit res \<times> poller" where
  "global_process_lock N lock_path p = file_lock N lock_path p"

definition account_lock_path :: "path \<Rightarrow> path" where
  "account_lock_path cache = child (path_parent cache) ''.runtime.lock''"

definition account_singleton_lock :: "net \<Rightarrow> (nat \<Rightarrow> path \<Rightarrow> bool) \<Rightarrow> path \<Rightarrow> poller \<Rightarrow> bool res \<times> poller" where
  "account_singleton_lock N busy cache p =
     and_then (file_lock N (account_lock_path cache) p) (\<lambda>_ p.
       (Inr (\<not> busy (ticks (pl_world p)) (account_lock_path cache)), p))"

subsection \<open>Results\<close>

record account_poll_result =
  ar_account_name :: string
  ar_downloaded_paths :: "path list"
  ar_handoff_manifest_path :: "path option"
  ar_candidate_count :: nat
  ar_ghost_item_count :: int
  ar_ghost_reason_counts :: counts
  ar_delta_anomaly_count :: int
  ar_delta_anomaly_reason_counts :: counts
  ar_counters :: counts
  ar_state :: string
  ar_drift_ratio :: rat
  ar_drift_events :: int

definition runtime_budget_exhausted_result :: "string \<Rightarrow> account_poll_result" where
  "runtime_budget_exhausted_result name =
     \<lparr>ar_account_name = name, ar_downloaded_paths = [], ar_handoff_manifest_path = None, ar_candidate_count = 0,
      ar_ghost_item_count = 0, ar_ghost_reason_counts = [],
      ar_delta_anomaly_count = 1, ar_delta_anomaly_reason_counts = [(''scheduler_runtime_budget_exhausted'', 1)],
      ar_counters = [], ar_state = ''skipped_runtime_budget'', ar_drift_ratio = 0, ar_drift_events = 0\<rparr>"

text \<open>The anomalies the drift is judged on: those of the poll and the unresolved download URLs.\<close>

definition with_unresolved_urls :: "counts \<Rightarrow> counts \<Rightarrow> counts" where
  "with_unresolved_urls ghosts anomalies =
     (let n = count_of ghosts ''ghost_missing_download_url_after_refresh'' in
      if n > 0 then record_ghost_reason ''ghost_missing_download_url_after_refresh'' n anomalies else anomalies)"

definition account_result :: "CoreConfig \<Rightarrow> string \<Rightarrow> poll_result \<Rightarrow> counts \<Rightarrow> string \<times> rat \<times> int \<Rightarrow> account_poll_result" where
  "account_result core name p m drift =
     (case split_anomaly_and_diagnostics m of (anomalies, diagnostics) \<Rightarrow>
      \<lparr>ar_account_name = name, ar_downloaded_paths = pr_downloaded p,
       ar_handoff_manifest_path = Some (boundary_manifest_path_for_account (staging_path core) name),
       ar_candidate_count = pr_candidate_count p,
       ar_ghost_item_count = count_total (pr_ghosts p), ar_ghost_reason_counts = sort_key fst (pr_ghosts p),
       ar_delta_anomaly_count = count_total anomalies, ar_delta_anomaly_reason_counts = sort_key fst anomalies,
       ar_counters = sort_key fst diagnostics,
       ar_state = fst drift, ar_drift_ratio = fst (snd drift), ar_drift_events = snd (snd drift)\<rparr>)"

subsection \<open>State and one account\<close>

text \<open>The poller, the permission bits the authentication keeps, and the files beside every cursor path.\<close>

record fleet =
  fl_net :: poller
  fl_mode :: "string list \<Rightarrow> nat"
  fl_files :: "path \<Rightarrow> account_files"

definition on_poller :: "(poller \<Rightarrow> 'a \<times> poller) \<Rightarrow> fleet \<Rightarrow> 'a \<times> fleet" where
  "on_poller m s = (case m (fl_net s) of (r, p) \<Rightarrow> (r, s\<lparr>fl_net := p\<rparr>))"

definition on_auth :: "(auth_state \<Rightarrow> 'a \<times> auth_state) \<Rightarrow> fleet \<Rightarrow> 'a \<times> fleet" where
  "on_auth m s =
     (case m \<lparr>au_world = pl_world (fl_net s), au_mode = fl_mode s\<rparr> of (r, a) \<Rightarrow>
        (r, s\<lparr>fl_net := (fl_net s)\<lparr>pl_world := au_world a\<rparr>, fl_mode := au_mode a\<rparr>))"

definition on_account :: "path \<Rightarrow> (poll_state \<Rightarrow> 'a \<times> poll_state) \<Rightarrow> fleet \<Rightarrow> 'a \<times> fleet" where
  "on_account c m s =
     (case m \<lparr>ps_net = fl_net s, ps_files = fl_files s c\<rparr> of (r, t) \<Rightarrow>
        (r, s\<lparr>fl_net := ps_net t, fl_files := (fl_files s)(c := ps_files t)\<rparr>))"

definition DEFAULT_MAX_DELTA_PAGES :: nat where
  "DEFAULT_MAX_DELTA_PAGES = 1000"

definition limits_of :: "CoreConfig \<Rightarrow> int \<Rightarrow> poll_limits" where
  "limits_of core remaining =
     \<lparr>lm_max_delta_pages = DEFAULT_MAX_DELTA_PAGES,
      lm_max_runtime_seconds = of_int (min (max_poll_runtime_seconds core) (max 1 remaining)),
      lm_tmp_ttl_minutes = tmp_ttl_minutes core, lm_integrity_mode = integrity_mode core,
      lm_loop_resync_threshold = delta_loop_resync_threshold core,
      lm_ghost_threshold = delta_breaker_ghost_threshold core,
      lm_stale_page_threshold = delta_breaker_stale_page_threshold core,
      lm_cooldown_seconds = delta_breaker_cooldown_seconds core\<rparr>"

definition apply_adaptive_backpressure ::
  "net \<Rightarrow> CoreConfig \<Rightarrow> AccountConfig \<Rightarrow> account_poll_result \<Rightarrow> fleet \<Rightarrow> fleet" where
  "apply_adaptive_backpressure N core A r s =
     (if adaptive_backpressure_enabled core \<and>
         (count_of (ar_counters r) ''retry_attempt_total'' \<ge> backpressure_retry_threshold core \<or>
          count_of (ar_counters r) ''retry_transport_error_total'' \<ge> backpressure_transport_error_threshold core)
      then snd (on_account (acc_delta_cursor A)
             (\<lambda>t. ((), arm_breaker_cooldown N (backpressure_cooldown_seconds core) t)) s)
      else s)"

text \<open>
  What is done with a finished poll.  \<open>int()\<close> drops the fraction of the time left towards zero; a
  limit of downloads is always set by \<open>load_config\<close>, and comparing \<open>None\<close> with a number raises.
\<close>

definition judge_poll ::
  "net \<Rightarrow> CoreConfig \<Rightarrow> AccountConfig \<Rightarrow> poll_result \<Rightarrow> fleet \<Rightarrow> account_poll_result res \<times> fleet" where
  "judge_poll N core A p s =
     (let m = with_unresolved_urls (pr_ghosts p) (pr_anomalies p);
          drift = evaluate_drift_state m (drift_warning_threshold_ratio core) (drift_critical_threshold_ratio core)
                    (drift_min_events_for_evaluation core);
          r = account_result core (acc_name A) p m drift
      in if drift_fail_fast_enabled core \<and> fst drift = ''critical''
         then (Inl (GraphError (''Schema drift threshold exceeded for account '' @ py_quote (acc_name A))
                ''drift_threshold_critical'' None), s)
         else (Inr r, apply_adaptive_backpressure N core A r s))"

definition whole_seconds :: "rat \<Rightarrow> int" where
  "whole_seconds q = (if q \<ge> 0 then floor q else ceiling q)"

definition poll_single_account ::
  "net \<Rightarrow> 'c msal \<Rightarrow> string list \<Rightarrow> (nat \<Rightarrow> path \<Rightarrow> bool) \<Rightarrow> retry_policy \<Rightarrow> CoreConfig \<Rightarrow> handoff_processor option
     \<Rightarrow> rat \<Rightarrow> rat \<Rightarrow> AccountConfig \<Rightarrow> fleet \<Rightarrow> account_poll_result res \<times> fleet" where
  "poll_single_account N M scopes busy pol core proc deadline now A s =
     (let remaining = whole_seconds (deadline - now) in
      if remaining \<le> 0 then (Inr (runtime_budget_exhausted_result (acc_name A)), s)
      else
        and_then (on_poller (account_singleton_lock N busy (acc_token_cache A)) s) (\<lambda>got s.
        if \<not> got
        then (Inl (GraphError (''Account '' @ py_quote (acc_name A) @ '' is already being polled by another process.'')
               ''account_singleton_lock_busy'' None), s)
        else
          and_then (on_auth (acquire_access_token (outside N) M scopes A) s) (\<lambda>token s.
          case acc_max_downloads A of
            None \<Rightarrow> (Inl (TypeError ''not supported between instances of NoneType and int''), s)
          | Some limit \<Rightarrow>
              and_then (on_account (acc_delta_cursor A)
                  (poll_account_once N pol (limits_of core remaining)
                     \<lparr>ac_name = acc_name A, ac_root = effective_onedrive_root A, ac_max_downloads = limit\<rparr>
                     (staging_path core) token proc) s) (\<lambda>p s.
              judge_poll N core A p s))))"

subsection \<open>All accounts\<close>

text \<open>
  One worker polls the accounts in turn; \<open>clk\<close> is the monotonic clock, read once at the start and
  once as each account's turn comes.  The first exception ends the run.
\<close>

fun poll_each ::
  "net \<Rightarrow> 'c msal \<Rightarrow> string list \<Rightarrow> (nat \<Rightarrow> path \<Rightarrow> bool) \<Rightarrow> retry_policy \<Rightarrow> CoreConfig \<Rightarrow> handoff_processor option
     \<Rightarrow> rat \<Rightarrow> (nat \<Rightarrow> rat) \<Rightarrow> nat \<Rightarrow> AccountConfig list \<Rightarrow> fleet \<Rightarrow> account_poll_result list res \<times> fleet" where
  "poll_each N M scopes busy pol core proc deadline clk i [] s = (Inr [], s)"
| "poll_each N M scopes busy pol core proc deadline clk i (A # as) s =
     and_then (poll_single_account N M scopes busy pol core proc deadline (clk i) A s) (\<lambda>r s.
     and_then (poll_each N M scopes busy pol core proc deadline clk (Suc i) as s) (\<lambda>rs s.
     (Inr (r # rs), s)))"

definition selected_accounts :: "AppConfig \<Rightarrow> string option \<Rightarrow> AccountConfig list res" where
  "selected_accounts cfg wanted =
     (case wanted of
        None \<Rightarrow> Inr (ordered_enabled_accounts cfg)
      | Some name \<Rightarrow>
          (let found = filter (\<lambda>a. acc_name a = name) (ordered_enabled_accounts cfg) in
           if found = [] then Inl (GraphError (''Enabled account not found: '' @ name) ''account_not_found'' None)
           else Inr found))"

definition poll_accounts ::
  "net \<Rightarrow> 'c msal \<Rightarrow> string list \<Rightarrow> (nat \<Rightarrow> path \<Rightarrow> bool) \<Rightarrow> retry_policy \<Rightarrow> (nat \<Rightarrow> rat) \<Rightarrow> AppConfig \<Rightarrow> string option
     \<Rightarrow> handoff_processor option \<Rightarrow> fleet \<Rightarrow> account_poll_result list res \<times> fleet" where
  "poll_accounts N M scopes busy pol clk cfg wanted proc s =
     (let core = app_core cfg in
      and_then (selected_accounts cfg wanted, s) (\<lambda>selected s.
      and_then (on_poller (global_process_lock N (with_suffix (registry_path core) ''.poll.lock'')) s) (\<lambda>_ s.
      poll_each N M scopes busy pol core proc (clk 0 + of_int (max_poll_runtime_seconds core)) clk 1 selected s)))"


subsection \<open>One account at a time\<close>

lemma judge_name: "judge_poll N core A p s = (Inr r, s') \<Longrightarrow> ar_account_name r = acc_name A"
  by (auto simp: judge_poll_def Let_def account_result_def split: if_splits prod.splits)

lemma single_name:
  assumes "poll_single_account N M scopes busy pol core proc deadline now A s = (Inr r, s')"
  shows "ar_account_name r = acc_name A"
  using assms
  by (auto simp: poll_single_account_def Let_def and_then_eq_Inr runtime_budget_exhausted_result_def
      split: if_splits option.splits dest: judge_name)

lemma each_names:
  "poll_each N M scopes busy pol core proc deadline clk i as s = (Inr rs, s') \<Longrightarrow> map ar_account_name rs = map acc_name as"
proof (induction as arbitrary: i s rs)
  case (Cons A as)
  from Cons.prems obtain r s1 rs' where
    p: "poll_single_account N M scopes busy pol core proc deadline (clk i) A s = (Inr r, s1)"
    and e: "poll_each N M scopes busy pol core proc deadline clk (Suc i) as s1 = (Inr rs', s')" and rs: "rs = r # rs'"
    by (auto simp: and_then_eq_Inr)
  from single_name [OF p] Cons.IH [OF e] rs show ?case by simp
qed simp

definition kept_cursors :: "path set \<Rightarrow> fleet \<Rightarrow> fleet \<Rightarrow> bool" where
  "kept_cursors C s s' \<longleftrightarrow> (\<forall>c. c \<notin> C \<longrightarrow> fl_files s' c = fl_files s c)"

interpretation kc: step_frame "kept_cursors C" for C
  by unfold_locales (auto simp: kept_cursors_def)

lemma kept_on_poller: "kept_cursors C s (snd (on_poller m s))"
  by (simp add: kept_cursors_def on_poller_def split: prod.split)

lemma kept_on_auth: "kept_cursors C s (snd (on_auth m s))"
  by (simp add: kept_cursors_def on_auth_def split: prod.split)

lemma kept_on_account: "c \<in> C \<Longrightarrow> kept_cursors C s (snd (on_account c m s))"
  by (auto simp: kept_cursors_def on_account_def split: prod.split)

lemma kept_judge: "acc_delta_cursor A \<in> C \<Longrightarrow> kept_cursors C s (snd (judge_poll N core A p s))"
  by (simp add: judge_poll_def apply_adaptive_backpressure_def Let_def kc.frame_refl kept_on_account)

lemma kept_single:
  assumes "acc_delta_cursor A \<in> C"
  shows "kept_cursors C s (snd (poll_single_account N M scopes busy pol core proc deadline now A s))"
  unfolding poll_single_account_def Let_def
  using assms
  by (auto intro!: kc.frame_and_then kept_on_poller kept_on_auth kept_on_account kept_judge kc.frame_refl split: option.split)

lemma kept_each:
  "acc_delta_cursor ` set as \<subseteq> C \<Longrightarrow>
    kept_cursors C s (snd (poll_each N M scopes busy pol core proc deadline clk i as s))"
  by (induction as arbitrary: i s) (auto intro!: kc.frame_and_then kept_single kc.frame_refl)

lemma selected_subset:
  assumes "selected_accounts cfg wanted = Inr sel"
  shows "set sel \<subseteq> set (ordered_enabled_accounts cfg)" and "\<And>name. wanted = Some name \<Longrightarrow> acc_name ` set sel = {name}"
  using assms by (auto simp: selected_accounts_def Let_def filter_empty_conv split: option.splits if_splits)

lemma selected_names:
  assumes "selected_accounts cfg wanted = Inr sel"
  shows "map acc_name sel =
    filter (\<lambda>n. case wanted of None \<Rightarrow> True | Some name \<Rightarrow> n = name) (map acc_name (ordered_enabled_accounts cfg))"
  using assms by (auto simp: selected_accounts_def Let_def filter_map comp_def split: option.splits if_splits)

text \<open>
  Polling reports one result for every enabled account asked for, in the order of the
  configuration.
\<close>

theorem one_result_per_account:
  assumes "poll_accounts N M scopes busy pol clk cfg wanted proc s = (Inr rs, s')"
  shows "map ar_account_name rs =
    filter (\<lambda>n. case wanted of None \<Rightarrow> True | Some name \<Rightarrow> n = name) (map acc_name (ordered_enabled_accounts cfg))"
proof -
  from assms obtain sel s1 where "selected_accounts cfg wanted = Inr sel"
    and "poll_each N M scopes busy pol (app_core cfg) proc (clk 0 + of_int (max_poll_runtime_seconds (app_core cfg))) clk 1 sel s1
           = (Inr rs, s')"
    by (auto simp: poll_accounts_def Let_def and_then_eq_Inr)
  then show ?thesis by (simp add: each_names selected_names)
qed


text \<open>
  C25: Once less than a second of the runtime budget is left, the accounts that remain are
  skipped, each with a result that says so, and nothing is touched.
\<close>

theorem exhausted_budget_skips_the_rest:
  assumes "\<And>j. clk j \<le> clk (Suc j)" and "deadline - clk i < 1"
  shows "poll_each N M scopes busy pol core proc deadline clk i as s =
    (Inr (map (\<lambda>a. runtime_budget_exhausted_result (acc_name a)) as), s)"
  using assms(2)
proof (induction as arbitrary: i)
  case (Cons A as)
  have "whole_seconds (deadline - clk i) \<le> 0" using Cons.prems by (simp add: whole_seconds_def floor_le_iff ceiling_le_iff)
  moreover have "deadline - clk (Suc i) < 1" using Cons.prems assms(1) [of i] by simp
  ultimately show ?case using Cons.IH [of "Suc i"] by (simp add: poll_single_account_def and_then_def)
qed simp


subsection \<open>Backpressure\<close>

lemma armed_until:
  "af_cooldown_until (fl_files (snd (on_account c (\<lambda>t. ((), arm_breaker_cooldown N secs t)) s)) c) =
     Some (clock (outside N) (ticks (pl_world (fl_net s))) + secs * 1000000)"
  by (simp add: on_account_def arm_breaker_cooldown_def draw_time_def)

lemma cooling_poll_sends_nothing:
  assumes "af_cooldown_until a = Some t" and "clock (outside N) (ticks (pl_world p)) < t"
  shows "pl_requests (ps_net (snd (poll_account_once N pol L A dir token proc \<lparr>ps_net = p, ps_files = a\<rparr>))) = pl_requests p"
proof -
  let ?f = "boundary_manifest_path_for_account dir (ac_name A)"
  obtain r w where u: "fs_call (fs_unlink ?f) (pl_world p) = (r, w)" by fastforce
  then have "ticks w = ticks (pl_world p)" by (auto simp: fs_call_def split: prod.splits)
  with u assms show ?thesis
    by (cases r) (simp_all add: poll_account_once_def Let_def lift_net_def pl_fs_def and_then_def draw_time_def
        is_breaker_cooldown_active_def)
qed


subsection \<open>The registry during a run\<close>

definition au_same :: "auth_state \<Rightarrow> auth_state \<Rightarrow> bool" where
  "au_same a a' \<longleftrightarrow> db (au_world a') = db (au_world a)"

interpretation aus: step_frame au_same
  by unfold_locales (simp_all add: au_same_def)

named_theorems au_intros \<open>steps of the authentication that leave the registry alone\<close>

lemma au_same_call [au_intros]: "au_same a (snd (au_call m a))"
  by (simp add: au_same_def au_call_def fs_call_def split: prod.split)

lemma au_same_time: "au_time E a = (t, a') \<Longrightarrow> au_same a a'"
  by (auto simp: au_same_def au_time_def draw_time_def)

lemma au_same_chmod [au_intros]: "au_same a (snd (chmod p m a))"
  by (simp add: au_same_def chmod_def)

lemma au_same_mode: "au_same s s' \<Longrightarrow> au_same s (s'\<lparr>au_mode := f\<rparr>)"
  by (simp add: au_same_def)

lemma au_same_rename [au_intros]: "au_same a (snd (au_rename p q a))"
  unfolding au_rename_def by (rule aus.frame_and_then, rule au_intros) (simp add: au_same_def)

lemma au_same_private [au_intros]: "au_same a (snd (write_private E p body a))"
  unfolding write_private_def by (intro aus.frame_and_then au_intros)

lemma au_same_parent [au_intros]: "au_same a (snd (ensure_cache_parent p a))"
  unfolding ensure_cache_parent_def by (intro aus.frame_and_then au_intros)

lemma au_same_checks [au_intros]:
  "au_same a (snd (validate_secure_parent_dir p a))" "au_same a (snd (validate_secure_file p a))"
  by (simp_all add: validate_secure_parent_dir_def validate_secure_file_def aus.frame_refl)

lemma au_same_corrupt [au_intros]: "au_same a (snd (corrupt_cache E M A a))"
proof -
  obtain t b where t: "au_time E a = (t, b)" by fastforce
  have "au_same b (snd (and_then (au_rename p q b) (\<lambda>_ s. (Inr q, s))))" for p q
    by (rule aus.frame_and_then, rule au_intros) (simp add: aus.frame_refl)
  with aus.frame_trans [OF au_same_time [OF t]] have "au_same a (snd (quarantine_corrupt_cache E M p a))" for p
    by (simp add: quarantine_corrupt_cache_def t Let_def)
  then show ?thesis unfolding corrupt_cache_def by (rule aus.frame_and_then) (simp add: aus.frame_refl)
qed

lemma au_same_build [au_intros]: "au_same a (snd (build_app E M A a))"
  unfolding build_app_def Let_def
  by (intro aus.frame_and_then au_intros)
    (auto split: sum.split option.split intro: aus.frame_refl au_intros)

lemma au_same_save [au_intros]: "au_same a (snd (save_cache E M p c a))"
  by (auto simp: save_cache_def intro!: aus.frame_and_then au_intros intro: aus.frame_refl)

lemma au_same_expected [au_intros]: "au_same a (snd (load_expected_identity E M A a))"
proof -
  have "au_same a (snd (migrate_identity_file p a))" for p
    by (auto simp: migrate_identity_file_def intro!: aus.frame_and_then au_intros intro: aus.frame_refl)
  then show ?thesis unfolding load_expected_identity_def Let_def
    by (rule aus.frame_and_then) (auto intro!: aus.frame_and_then au_intros intro: aus.frame_refl)
qed

lemma au_same_persist [au_intros]: "au_same a (snd (persist_account_identity E A accounts a))"
proof (cases accounts)
  case (Cons x xs)
  obtain t b where t: "au_time E a = (t, b)" by fastforce
  have "au_same a (snd (and_then (au_call m b) (\<lambda>_ s. write_private E p body s)))" for m p body
    by (rule aus.frame_trans [OF au_same_time [OF t]]) (intro aus.frame_and_then au_intros)
  with Cons show ?thesis by (simp add: persist_account_identity_def t Let_def)
qed (simp add: persist_account_identity_def aus.frame_refl)

lemma au_same_token: "au_same a (snd (acquire_access_token E M scopes A a))"
proof -
  have "au_same b (snd (case ms_silent M (ticks (au_world b)) A scopes selected c of (result, c) \<Rightarrow>
        and_then (extract_token M result, b) (\<lambda>token s.
        and_then (save_cache E M (acc_token_cache A) c s) (\<lambda>_ s.
        and_then (persist_account_identity E A accounts s) (\<lambda>_ s. (Inr token, s))))))" for b selected c accounts
    by (cases "ms_silent M (ticks (au_world b)) A scopes selected c")
      (auto intro!: aus.frame_and_then au_intros intro: aus.frame_refl)
  then show ?thesis
    unfolding acquire_access_token_def Let_def
    by (intro aus.frame_and_then au_intros)
      (auto intro!: aus.frame_and_then au_intros intro: aus.frame_refl)
qed

lemma same_db_lock: "same_db p (snd (file_lock N lock p))" "same_db p (snd (account_singleton_lock N busy cache p))"
proof -
  show l: "same_db p (snd (file_lock N lock p))" for lock p
    unfolding file_lock_def by (intro sd.frame_and_then same_db_pl_fs same_db_write_now)
  show "same_db p (snd (account_singleton_lock N busy cache p))"
    unfolding account_singleton_lock_def by (rule sd.frame_and_then, rule l) (rule same_db_return)
qed

abbreviation fleet_world :: "fleet \<Rightarrow> world" where
  "fleet_world s \<equiv> pl_world (fl_net s)"

text \<open>The frame a handoff processor respects is respected by the whole run over all accounts.\<close>

context handoff_frame
begin

lemma fleet_and_then:
  assumes "R (fleet_world s0) (fleet_world (snd r))"
    and "\<And>x s. r = (Inr x, s) \<Longrightarrow> R (fleet_world s) (fleet_world (snd (k x s)))"
  shows "R (fleet_world s0) (fleet_world (snd (and_then r k)))"
  using assms frame_trans by (cases r; cases "fst r") (auto simp: and_then_def)

lemma frame_on_poller:
  assumes "\<And>p. same_db p (snd (m p))" shows "R (fleet_world s) (fleet_world (snd (on_poller m s)))"
proof -
  obtain r p where "m (fl_net s) = (r, p)" by fastforce
  with assms [of "fl_net s"] show ?thesis by (auto simp: on_poller_def same_db_def pl_db_def intro: frame_same_db)
qed

lemma frame_on_auth:
  assumes "\<And>a. au_same a (snd (m a))" shows "R (fleet_world s) (fleet_world (snd (on_auth m s)))"
  using assms [of "\<lparr>au_world = fleet_world s, au_mode = fl_mode s\<rparr>"]
  by (auto simp: on_auth_def au_same_def intro!: frame_same_db split: prod.split)

lemma frame_on_account:
  assumes "\<And>t. R (poll_world t) (poll_world (snd (m t)))" shows "R (fleet_world s) (fleet_world (snd (on_account c m s)))"
  using assms [of "\<lparr>ps_net = fl_net s, ps_files = fl_files s c\<rparr>"]
  by (auto simp: on_account_def split: prod.split)

lemma frame_judge: "R (fleet_world s) (fleet_world (snd (judge_poll N core A p s)))"
proof -
  have arm: "R (poll_world t) (poll_world (snd ((), arm_breaker_cooldown N secs t)))" for t secs
    by (rule frame_same_db) (simp add: arm_breaker_cooldown_def draw_time_def)
  then show ?thesis
    by (simp add: judge_poll_def apply_adaptive_backpressure_def Let_def frame_refl frame_on_account)
qed

lemma frame_single:
  "R (fleet_world s) (fleet_world (snd (poll_single_account N M scopes busy pol core (Some proc) deadline now A s)))"
  unfolding poll_single_account_def Let_def
  by (auto simp: frame_refl intro!: fleet_and_then frame_on_poller same_db_lock frame_on_auth au_same_token
      frame_on_account frame_poll frame_judge split: option.split)

lemma frame_each:
  "R (fleet_world s) (fleet_world (snd (poll_each N M scopes busy pol core (Some proc) deadline clk i as s)))"
  by (induction as arbitrary: i s) (auto simp: frame_refl intro!: fleet_and_then frame_single)

lemma frame_poll_accounts:
  "R (fleet_world s) (fleet_world (snd (poll_accounts N M scopes busy pol clk cfg wanted (Some proc) s)))"
  unfolding poll_accounts_def Let_def global_process_lock_def
  by (auto simp: frame_refl intro!: fleet_and_then frame_on_poller same_db_lock frame_each)

end


subsection \<open>Examples\<close>

text \<open>Two accounts, a service that is busy once and then has nothing new, one retry allowed.\<close>

definition ann :: AccountConfig where
  "ann = anna\<lparr>acc_max_downloads := Some 5\<rparr>"

definition ben :: AccountConfig where
  "ben = ann\<lparr>acc_name := ''ben'', acc_token_cache := path_of ''/var/ben.json'', acc_delta_cursor := path_of ''/var/ben.cursor''\<rparr>"

definition one_account :: "string msal" where
  "one_account = two_accounts\<lparr>ms_accounts := (\<lambda>_ _. [cached_a])\<rparr>"

definition busy_net :: net where
  "busy_net = flaky_net\<lparr>http_get := (\<lambda>n url tok. if n = 0 then Response 503 [] [] else Response 200 [] []),
     loads := (\<lambda>_. Some (GObj [(''value'', GList []), (''@odata.deltaLink'', GStr ''later'')])),
     outside := auth_env\<rparr>"

definition two_account_config :: AppConfig where
  "two_account_config = \<lparr>app_source_path = path_of ''/etc/x.conf'', app_core = default_core\<lparr>backpressure_retry_threshold := 1\<rparr>,
     app_logging = \<lparr>log_level = ''INFO'', console_format = ''json''\<rparr>,
     app_web = \<lparr>api_token = [], bind_host = [], bind_port = 1, cors_allowed_origins = []\<rparr>,
     app_accounts = [ann, ben], app_import = \<lparr>chunk_size = 1\<rparr>\<rparr>"

definition home :: fleet where
  "home = \<lparr>fl_net = fresh_poller \<lparr>nodes = [([''tmp''], Dir), ([''var''], Dir), ([''var'', ''anna.json''], Reg ''t'' 0)],
       fs_cwd = [], fs_dev = (\<lambda>_. 0)\<rparr>,
     fl_mode = (\<lambda>k. if length k = 1 then 448 else 384),
     fl_files = (\<lambda>_. \<lparr>af_cursor = None, af_cooldown_until = None, af_loop_incidents = 0, af_marker = None\<rparr>)\<rparr>"

abbreviation home_poll :: "account_poll_result res \<times> fleet" where
  "home_poll \<equiv> poll_single_account busy_net one_account DEFAULT_SCOPES (\<lambda>_ _. False) DEFAULT_POLICY
     (app_core two_account_config) None 300 0 ann home"

abbreviation home_run :: "account_poll_result list res \<times> fleet" where
  "home_run \<equiv> poll_accounts busy_net one_account DEFAULT_SCOPES (\<lambda>_ _. False) DEFAULT_POLICY (\<lambda>n. of_nat n * 300)
     two_account_config None None home"

lemma home_poll_counts: "map_sum id (\<lambda>r. count_of (ar_counters r) ''retry_attempt_total'') (fst home_poll) = Inr 1"
  by code_simp

lemma home_run_states: "map_sum id (map ar_state) (fst home_run) = Inr [''skipped_runtime_budget'', ''skipped_runtime_budget'']"
  by code_simp

lemma two_account_names: "map acc_name (ordered_enabled_accounts two_account_config) = [''anna'', ''ben'']"
  by code_simp

theorem one_result_per_account_witness:
  "\<exists>rs s'. home_run = (Inr rs, s') \<and> map ar_account_name rs = [''anna'', ''ben'']"
proof -
  obtain x s' where run: "home_run = (x, s')" by fastforce
  with home_run_states obtain rs where x: "x = Inr rs" by (cases x) auto
  from one_result_per_account [OF run [unfolded x]] run x show ?thesis by (simp add: two_account_names)
qed


theorem exhausted_budget_skips_the_rest_witness:
  "poll_each busy_net one_account DEFAULT_SCOPES (\<lambda>_ _. False) DEFAULT_POLICY default_core None 300 (\<lambda>n. of_nat n * 300) 1 [ann, ben] home =
    (Inr [runtime_budget_exhausted_result ''anna'', runtime_budget_exhausted_result ''ben''], home)"
  using exhausted_budget_skips_the_rest [of "\<lambda>n. of_nat n * 300" 300 1 busy_net one_account DEFAULT_SCOPES "\<lambda>_ _. False"
      DEFAULT_POLICY default_core None "[ann, ben]" home]
  by (simp add: ann_def ben_def anna_def)


end
