(* ===== verification/Workers.thy ===== *)
theory Workers
  imports Accounts "HOL-Library.AList"
begin

section \<open>The worker threads of a poll (\<open>poll_accounts\<close> of \<open>client.py\<close>, \<open>cache_lock.py\<close>)\<close>

text \<open>
  With more than one worker the accounts are submitted to a thread pool in their order.  What is
  kept of a worker is its account's job and the lock file it holds while it polls: \<open>flock\<close> on a file
  opened anew excludes the other threads of the process as well as other processes.  A job whose
  account is skipped for lack of time is done at once; a poll that raises releases its lock too.
\<close>

datatype job = Queued | Polling | Finished | Refused

definition worker_count :: "CoreConfig \<Rightarrow> 'a list \<Rightarrow> nat" where
  "worker_count core accounts = nat (max 1 (min (account_worker_count core) (int (length accounts))))"

definition running :: "job list \<Rightarrow> nat" where
  "running jobs = length (filter (\<lambda>j. j = Polling) jobs)"

definition lock_held :: "path list \<Rightarrow> job list \<Rightarrow> path \<Rightarrow> bool" where
  "lock_held locks jobs l = list_ex (\<lambda>i. jobs ! i = Polling \<and> locks ! i = l) [0..<length jobs]"

definition next_job :: "nat \<Rightarrow> job list \<Rightarrow> nat \<Rightarrow> bool" where
  "next_job workers jobs i \<longleftrightarrow> i < length jobs \<and> jobs ! i = Queued \<and> Queued \<notin> set (take i jobs) \<and> running jobs < workers"

inductive pool_step :: "nat \<Rightarrow> path list \<Rightarrow> job list \<Rightarrow> job list \<Rightarrow> bool" for workers locks where
  skip: "next_job workers jobs i \<Longrightarrow> pool_step workers locks jobs (jobs[i := Finished])"
| lock: "next_job workers jobs i \<Longrightarrow> \<not> lock_held locks jobs (locks ! i) \<Longrightarrow> pool_step workers locks jobs (jobs[i := Polling])"
| refuse: "next_job workers jobs i \<Longrightarrow> lock_held locks jobs (locks ! i) \<Longrightarrow> pool_step workers locks jobs (jobs[i := Refused])"
| release: "i < length jobs \<Longrightarrow> jobs ! i = Polling \<Longrightarrow> pool_step workers locks jobs (jobs[i := Finished])"

inductive_cases pool_stepE: "pool_step workers locks jobs jobs'"

definition account_locks :: "AccountConfig list \<Rightarrow> path list" where
  "account_locks accounts = map (\<lambda>a. account_lock_path (acc_token_cache a)) accounts"

abbreviation pool_run :: "nat \<Rightarrow> AccountConfig list \<Rightarrow> job list \<Rightarrow> bool" where
  "pool_run workers accounts jobs \<equiv>
     (pool_step workers (account_locks accounts))\<^sup>*\<^sup>* (replicate (length accounts) Queued) jobs"

subsection \<open>Mutual exclusion\<close>

text \<open>Jobs that poll hold different locks, no more of them than workers.\<close>

definition pool_inv :: "nat \<Rightarrow> path list \<Rightarrow> job list \<Rightarrow> bool" where
  "pool_inv workers locks jobs \<longleftrightarrow> running jobs \<le> workers \<and>
     (\<forall>i j. i < length jobs \<longrightarrow> j < length jobs \<longrightarrow> i \<noteq> j \<longrightarrow> jobs ! i = Polling \<longrightarrow> jobs ! j = Polling \<longrightarrow> locks ! i \<noteq> locks ! j)"

lemma running_pos: "k < length jobs \<Longrightarrow> jobs ! k = Polling \<Longrightarrow> 0 < running jobs"
  using nth_mem [of k jobs] by (auto simp: running_def filter_empty_conv)

lemma running_update:
  "i < length jobs \<Longrightarrow> running (jobs[i := j]) = running jobs - (if jobs ! i = Polling then 1 else 0) + (if j = Polling then 1 else 0)"
proof (induction jobs arbitrary: i)
  case (Cons a jobs)
  show ?case
  proof (cases i)
    case (Suc k)
    with Cons.prems have k: "k < length jobs" by simp
    with running_pos [OF k] Cons.IH [OF k] Suc show ?thesis by (auto simp: running_def)
  qed (auto simp: running_def)
qed simp

lemma lock_held_iff: "lock_held locks jobs l \<longleftrightarrow> (\<exists>i < length jobs. jobs ! i = Polling \<and> locks ! i = l)"
  by (auto simp: lock_held_def list_ex_iff)

lemma pool_step_inv:
  assumes "pool_step workers locks jobs jobs'" and "pool_inv workers locks jobs"
  shows "pool_inv workers locks jobs'"
  using assms
proof (induction rule: pool_step.induct)
  case (skip jobs i)
  then show ?case by (auto simp: pool_inv_def next_job_def running_update nth_list_update)
next
  case (lock jobs i)
  then show ?case by (auto simp: pool_inv_def next_job_def running_update nth_list_update lock_held_iff)
next
  case (refuse jobs i)
  then show ?case by (auto simp: pool_inv_def next_job_def running_update nth_list_update)
next
  case (release i jobs)
  then show ?case by (auto simp: pool_inv_def running_update nth_list_update)
qed

lemma pool_run_inv:
  assumes "(pool_step workers locks)\<^sup>*\<^sup>* (replicate n Queued) jobs"
  shows "pool_inv workers locks jobs \<and> length jobs = n"
  using assms
proof (induction rule: rtranclp_induct)
  case base
  show ?case by (simp add: pool_inv_def running_def)
next
  case (step jobs jobs')
  from step.hyps(2) have "length jobs' = length jobs" by (auto elim: pool_stepE)
  with pool_step_inv [OF step.hyps(2)] step.IH show ?case by simp
qed


lemma refused_needs_shared_lock:
  assumes "pool_step workers locks jobs jobs'" and "Refused \<notin> set jobs" and "Refused \<in> set jobs'"
  shows "1 < workers \<and> (\<exists>i j. i < length jobs \<and> j < length jobs \<and> i \<noteq> j \<and> locks ! i = locks ! j)"
proof -
  from assms obtain i where i: "next_job workers jobs i" and h: "lock_held locks jobs (locks ! i)"
    by (auto elim!: pool_stepE dest!: subsetD [OF set_update_subset_insert])
  then obtain k where k: "k < length jobs" "jobs ! k = Polling" "locks ! k = locks ! i" by (auto simp: lock_held_iff)
  then have "0 < running jobs" by (intro running_pos)
  moreover have "i < length jobs" "jobs ! i = Queued" "running jobs < workers" using i by (simp_all add: next_job_def)
  moreover from this(2) k(2) have "i \<noteq> k" by auto
  ultimately show ?thesis using k(1,3) by fastforce
qed

lemma refused_run:
  assumes "(pool_step workers locks)\<^sup>*\<^sup>* (replicate n Queued) jobs" and "Refused \<in> set jobs"
  shows "1 < workers \<and> (\<exists>i j. i < n \<and> j < n \<and> i \<noteq> j \<and> locks ! i = locks ! j)"
  using assms
proof (induction rule: rtranclp_induct)
  case (step jobs jobs')
  show ?case
  proof (cases "Refused \<in> set jobs")
    case False
    from refused_needs_shared_lock [OF step.hyps(2) this step.prems] pool_run_inv [OF step.hyps(1)] show ?thesis by auto
  qed (rule step.IH)
qed simp

text \<open>
  An account is refused as already being polled only where two workers run and two of the
  accounts keep their token caches in one directory: alone, a poll never stands in its own way.
\<close>

theorem refusal_needs_a_shared_directory:
  assumes "pool_run (worker_count core accounts) accounts jobs" and "Refused \<in> set jobs"
  shows "1 < account_worker_count core \<and>
    (\<exists>i j. i < length accounts \<and> j < length accounts \<and> i \<noteq> j \<and>
       account_lock_path (acc_token_cache (accounts ! i)) = account_lock_path (acc_token_cache (accounts ! j)))"
proof -
  from refused_run [OF assms] obtain i j where w: "1 < worker_count core accounts"
    and "i < length accounts" "j < length accounts" "i \<noteq> j" "account_locks accounts ! i = account_locks accounts ! j" by blast
  moreover from w have "1 < account_worker_count core" by (simp add: worker_count_def split: if_splits)
  ultimately show ?thesis by (auto simp: account_locks_def)
qed


subsection \<open>The order of the results\<close>

text \<open>\<open>results_by_index\<close>, filled as the polls end, and the results by ascending index.\<close>

definition collect_results :: "(nat \<times> 'r) list \<Rightarrow> 'r list" where
  "collect_results ended =
     (let d = fold (\<lambda>(i, r). AList.update i r) ended [] in map (\<lambda>i. the (map_of d i)) (sort (map fst d)))"

lemma fold_update_map:
  "map_of (fold (\<lambda>(i, r). AList.update i r) xs d) = map_of d ++ map_of (rev xs)"
  by (induction xs arbitrary: d) (auto simp: update_conv' map_add_def fun_eq_iff split: option.split)

lemma fold_update_keys:
  "distinct (map fst d) \<Longrightarrow> distinct (map fst (fold (\<lambda>(i, r). AList.update i r) xs d)) \<and>
     fst ` set (fold (\<lambda>(i, r). AList.update i r) xs d) = fst ` set d \<union> fst ` set xs"
proof (induction xs arbitrary: d)
  case (Cons x xs)
  obtain i r where x: "x = (i, r)" by fastforce
  have "fst ` set (AList.update i r d) = insert i (fst ` set d)"
    using arg_cong [OF update_keys [of i r d], of set] by (auto split: if_splits)
  with Cons.IH [of "AList.update i r d"] Cons.prems x distinct_update [of d i r] show ?case by auto
qed simp

text \<open>
  C22: The results come back in the order of the accounts, whatever the order in which the
  workers finish.
\<close>

theorem results_do_not_depend_on_completion_order:
  assumes "mset ended = mset (enumerate 0 results)"
  shows "collect_results ended = results"
proof -
  let ?d = "fold (\<lambda>(i, r). AList.update i r) ended []"
  have set: "set ended = set (enumerate 0 results)" using assms by (metis set_mset_mset)
  have "mset (map fst ended) = mset (map fst (enumerate 0 results))" unfolding mset_map assms ..
  then have "mset (map fst ended) = mset [0..<length results]" unfolding map_fst_enumerate by simp
  then have dist: "distinct (map fst ended)" by (metis distinct_upt mset_eq_imp_distinct_iff)
  have lookup: "map_of ?d i = Some (results ! i)" if "i < length results" for i
  proof -
    have "(i, results ! i) \<in> set (rev ended)" using that by (simp add: set in_set_enumerate_eq)
    then have "map_of (rev ended) i = Some (results ! i)" using dist by (intro map_of_is_SomeI) (simp_all add: rev_map [symmetric])
    then show ?thesis by (simp add: fold_update_map)
  qed
  have "fst ` set ended = {0..<length results}"
    using arg_cong [OF map_fst_enumerate [of 0 results], of set] unfolding set set_map set_upt by simp
  then have "distinct (map fst ?d)" "fst ` set ?d = {0..<length results}"
    using fold_update_keys [of "[]" ended] by simp_all
  then have "sort (map fst ?d) = [0..<length results]"
    by (intro sorted_distinct_set_unique) simp_all
  then have "collect_results ended = map (\<lambda>i. the (map_of ?d i)) [0..<length results]"
    by (simp only: collect_results_def Let_def)
  also have "\<dots> = map (\<lambda>i. results ! i) [0..<length results]" by (rule map_cong [OF refl]) (simp add: lookup)
  finally show ?thesis by (simp add: map_nth)
qed


subsection \<open>Examples\<close>

text \<open>Two workers, and token caches in one directory or in two.\<close>

definition two_workers :: CoreConfig where
  "two_workers = default_core\<lparr>account_worker_count := 2\<rparr>"

definition cleo :: AccountConfig where
  "cleo = ben\<lparr>acc_token_cache := path_of ''/srv/ben.json''\<rparr>"

lemma same_directory: "path_parent (acc_token_cache ann) = path_parent (acc_token_cache ben)"
  by code_simp



lemma two_workers_collide: "pool_run (worker_count two_workers [ann, ben]) [ann, ben] [Polling, Refused]"
proof -
  have "account_locks [ann, ben] ! 0 = account_locks [ann, ben] ! 1" by code_simp
  then have "pool_step 2 (account_locks [ann, ben]) [Queued, Queued] ([Queued, Queued][0 := Polling])"
    "pool_step 2 (account_locks [ann, ben]) [Polling, Queued] ([Polling, Queued][1 := Refused])"
    by (intro pool_step.lock pool_step.refuse; auto simp: next_job_def running_def lock_held_iff nth_Cons')+
  then show ?thesis
    by (simp add: numeral_2_eq_2 two_workers_def worker_count_def converse_rtranclp_into_rtranclp)
qed

theorem refusal_needs_a_shared_directory_witness:
  "\<exists>i j. i < 2 \<and> j < 2 \<and> i \<noteq> j \<and>
     account_lock_path (acc_token_cache ([ann, ben] ! i)) = account_lock_path (acc_token_cache ([ann, ben] ! j))"
  using refusal_needs_a_shared_directory [OF two_workers_collide] by (simp add: numeral_2_eq_2)

theorem results_do_not_depend_on_completion_order_witness:
  "collect_results [(1, ''ben''), (0, ''anna'')] = [''anna'', ''ben'']"
  by (rule results_do_not_depend_on_completion_order) (simp add: enumerate_eq_zip add_mset_commute)

end
