(* ===== verification/Discovery.thy ===== *)
theory Discovery
  imports Poll
begin

section \<open>Finding the camera roll (\<open>adapters/onedrive/client.py\<close>)\<close>

text \<open>
  What the onboarding asks the Graph service: the language of the account, and which folder holds
  the camera roll.  Requests go through \<open>graph_get_json\<close> without a token refresh; the number of
  children counted is that of one response, as in the code.  \<open>casefold\<close> of the model's characters is
  compared with plain texts only, where it agrees with \<open>py_lower\<close>.
\<close>

definition GERMAN_FOLDER_NAMES :: "string list" where
  "GERMAN_FOLDER_NAMES = [''bilder'', ''eigene aufnahmen'']"

definition ENGLISH_FOLDER_NAMES :: "string list" where
  "ENGLISH_FOLDER_NAMES = [''camera roll'', ''pictures'', ''photos'']"

definition DISCOVERY_CANDIDATE_PATHS :: "string list" where
  "DISCOVERY_CANDIDATE_PATHS = [''/Camera Roll'', ''/Pictures'', ''/Photos'', ''/Bilder/Eigene Aufnahmen'', ''/Bilder'']"

definition SPECIAL_CAMERA_ROLL_ALIAS :: string where
  "SPECIAL_CAMERA_ROLL_ALIAS = ''cameraroll''"

definition MEDIA_EXTENSIONS :: "string list" where
  "MEDIA_EXTENSIONS = [''.jpg'', ''.jpeg'', ''.png'', ''.heic'', ''.heif'', ''.dng'', ''.arw'', ''.cr2'', ''.cr3'',
     ''.nef'', ''.mov'', ''.mp4'']"

record path_resolution =
  rs_configured_path :: string
  rs_configured_exists :: bool
  rs_configured_media_count :: nat
  rs_suggested_path :: "string option"
  rs_suggested_media_count :: nat
  rs_suggested_candidates :: "(string \<times> nat) list"
  rs_reason :: "string option"

text \<open>A suggestion is never the empty text.\<close>

definition effective_path :: "path_resolution \<Rightarrow> string" where
  "effective_path r = (case rs_suggested_path r of Some (c # q) \<Rightarrow> c # q | _ \<Rightarrow> rs_configured_path r)"

subsection \<open>Requests\<close>

definition encoded_root :: "string \<Rightarrow> string" where
  "encoded_root r = ''/'' @ join_with ''/'' (map url_quote (filter (\<lambda>s. s \<noteq> []) (split_on (CHR ''/'') r)))"

definition build_children_url :: "string \<Rightarrow> string" where
  "build_children_url r = GRAPH_BASE @ ''/me/drive/root:'' @ encoded_root r @ '':/children?$select=name,file,folder''"

definition build_item_url :: "string \<Rightarrow> string" where
  "build_item_url r = GRAPH_BASE @ ''/me/drive/root:'' @ encoded_root r @ ''?$select=name,parentReference,specialFolder''"

text \<open>What a loop over \<open>payload.get("value", [])\<close> meets: the texts of a string or of an object's keys
  are no objects and passed over; other values can not be iterated.\<close>

definition children :: "gobject \<Rightarrow> gval list res" where
  "children payload =
     (if \<not> ghas payload ''value'' then Inr []
      else (case gget payload ''value'' of
              GList xs \<Rightarrow> Inr xs
            | GStr t \<Rightarrow> Inr []
            | GObj ob \<Rightarrow> Inr []
            | _ \<Rightarrow> Inl (TypeError ''object is not iterable'')))"

fun facet :: "gval \<Rightarrow> string \<Rightarrow> gobject option" where
  "facet (GObj raw) k = (case gget raw k of GObj ob \<Rightarrow> Some ob | _ \<Rightarrow> None)"
| "facet _ k = None"

fun item_name :: "py_conv \<Rightarrow> gval \<Rightarrow> string option" where
  "item_name V (GObj raw) = nonempty_str V (gget raw ''name'')"
| "item_name V _ = None"

definition is_media :: "py_conv \<Rightarrow> gval \<Rightarrow> bool" where
  "is_media V raw \<longleftrightarrow> facet raw ''file'' \<noteq> None \<and>
     (case item_name V raw of None \<Rightarrow> False | Some n \<Rightarrow> py_lower (path_suffix (path_of n)) \<in> set MEDIA_EXTENSIONS)"

definition count_media_in_children :: "py_conv \<Rightarrow> gobject \<Rightarrow> nat res" where
  "count_media_in_children V payload =
     (case children payload of Inl e \<Rightarrow> Inl e | Inr xs \<Rightarrow> Inr (length (filter (is_media V) xs)))"

definition detect_account_locale :: "net \<Rightarrow> retry_policy \<Rightarrow> string \<Rightarrow> poller \<Rightarrow> string option res \<times> poller" where
  "detect_account_locale N pol token p =
     and_then (graph_get_json N pol (GRAPH_BASE @ ''/me/drive/root/children?$select=name,folder'') token p) (\<lambda>payload p.
     and_then (children payload, p) (\<lambda>xs p.
     let names = concat (map (\<lambda>raw. if facet raw ''folder'' = None then []
                   else (case item_name (conv N) raw of None \<Rightarrow> [] | Some n \<Rightarrow> [py_lower n])) xs)
     in (Inr (if list_ex (\<lambda>n. n \<in> set GERMAN_FOLDER_NAMES) names then Some ''de''
              else if list_ex (\<lambda>n. n \<in> set ENGLISH_FOLDER_NAMES) names then Some ''en'' else None), p)))"

text \<open>A request whose answer may be one of the given statuses for \<open>not there\<close>.\<close>

definition lookup_item :: "net \<Rightarrow> retry_policy \<Rightarrow> int list \<Rightarrow> string \<Rightarrow> string \<Rightarrow> poller \<Rightarrow> gobject option res \<times> poller" where
  "lookup_item N pol absent url token p =
     (case graph_get_json N pol url token p of
        (Inl (GraphError m c (Some st)), p) \<Rightarrow>
          (if st \<in> set absent then Inr None else Inl (GraphError m c (Some st)), p)
      | (Inl e, p) \<Rightarrow> (Inl e, p)
      | (Inr payload, p) \<Rightarrow> (Inr (Some payload), p))"

definition evaluate_media_path :: "net \<Rightarrow> retry_policy \<Rightarrow> string \<Rightarrow> string \<Rightarrow> poller \<Rightarrow> (bool \<times> nat) res \<times> poller" where
  "evaluate_media_path N pol token q p =
     and_then (lookup_item N pol [404] (build_children_url (normalize_root_path q)) token p) (\<lambda>r p.
     case r of
       None \<Rightarrow> (Inr (False, 0), p)
     | Some payload \<Rightarrow>
         (case count_media_in_children (conv N) payload of Inl e \<Rightarrow> (Inl e, p) | Inr n \<Rightarrow> (Inr (True, n), p)))"

definition extract_special_folder_name :: "py_conv \<Rightarrow> gobject \<Rightarrow> string option" where
  "extract_special_folder_name V payload =
     (case gget payload ''specialFolder'' of
        GObj ob \<Rightarrow> map_option py_lower (nonempty_str V (gget ob ''name''))
      | _ \<Rightarrow> None)"

definition drive_item_path :: "py_conv \<Rightarrow> gobject \<Rightarrow> string option" where
  "drive_item_path V payload =
     (case (nonempty_str V (gget payload ''name''), gget payload ''parentReference'') of
        (Some name, GObj parent) \<Rightarrow>
          (let base = (case nonempty_str V (gget parent ''path'') of None \<Rightarrow> ''/drive/root:'' | Some b \<Rightarrow> b) in
           if base = ''/drive/root:'' then Some (normalize_root_path (''/'' @ name))
           else if prefix ''/drive/root:'' base then Some (normalize_root_path (drop 12 base @ ''/'' @ name))
           else None)
      | _ \<Rightarrow> None)"

definition resolve_special_folder_path :: "net \<Rightarrow> retry_policy \<Rightarrow> string \<Rightarrow> string \<Rightarrow> poller \<Rightarrow> string option res \<times> poller" where
  "resolve_special_folder_path N pol token alias p =
     and_then (lookup_item N pol [403, 404]
         (GRAPH_BASE @ ''/me/drive/special/'' @ url_quote alias @ ''?$select=name,parentReference,specialFolder'') token p) (\<lambda>r p.
     (Inr (case r of
             None \<Rightarrow> None
           | Some payload \<Rightarrow>
               if extract_special_folder_name (conv N) payload = Some (py_lower alias)
               then drive_item_path (conv N) payload else None), p))"

definition path_has_special_folder_name ::
  "net \<Rightarrow> retry_policy \<Rightarrow> string \<Rightarrow> string \<Rightarrow> string \<Rightarrow> poller \<Rightarrow> bool res \<times> poller" where
  "path_has_special_folder_name N pol token expected q p =
     and_then (lookup_item N pol [404] (build_item_url (normalize_root_path q)) token p) (\<lambda>r p.
     (Inr (case r of
             None \<Rightarrow> False
           | Some payload \<Rightarrow> extract_special_folder_name (conv N) payload = Some (py_lower expected)), p))"

subsection \<open>The search\<close>

text \<open>The candidates that hold media, and those of them the service calls the camera roll.\<close>

fun try_candidates ::
  "net \<Rightarrow> retry_policy \<Rightarrow> string \<Rightarrow> string list \<Rightarrow> string list \<Rightarrow> poller
     \<Rightarrow> ((string \<times> nat) list \<times> (string \<times> nat) list) res \<times> poller" where
  "try_candidates N pol token seen [] p = (Inr ([], []), p)"
| "try_candidates N pol token seen (raw # raws) p =
     (let q = normalize_root_path raw in
      if q \<in> set seen then try_candidates N pol token seen raws p
      else
        and_then (evaluate_media_path N pol token q p) (\<lambda>(exists, n) p.
        if exists \<and> n > 0 then
          and_then (path_has_special_folder_name N pol token SPECIAL_CAMERA_ROLL_ALIAS q p) (\<lambda>special p.
          and_then (try_candidates N pol token (q # seen) raws p) (\<lambda>(cs, preferred) p.
          (Inr ((q, n) # cs, if special then (q, n) # preferred else preferred), p)))
        else try_candidates N pol token (q # seen) raws p))"

definition by_media_count :: "(string \<times> nat) list \<Rightarrow> (string \<times> nat) list" where
  "by_media_count cs = sort_key (\<lambda>(q, n). - int n) cs"

definition first_of :: "(string \<times> nat) list \<Rightarrow> (string \<times> nat) list \<Rightarrow> (string \<times> nat) option" where
  "first_of preferred cs = (case preferred of c # _ \<Rightarrow> Some c | [] \<Rightarrow> (case cs of c # _ \<Rightarrow> Some c | [] \<Rightarrow> None))"

definition nothing_to_suggest :: "string \<Rightarrow> bool \<Rightarrow> nat \<Rightarrow> path_resolution" where
  "nothing_to_suggest configured exists n =
     \<lparr>rs_configured_path = configured, rs_configured_exists = exists, rs_configured_media_count = n,
      rs_suggested_path = None, rs_suggested_media_count = 0, rs_suggested_candidates = [], rs_reason = None\<rparr>"

definition suggest_special :: "string \<Rightarrow> bool \<Rightarrow> nat \<Rightarrow> string \<Rightarrow> nat \<Rightarrow> path_resolution" where
  "suggest_special configured exists n q m =
     \<lparr>rs_configured_path = configured, rs_configured_exists = exists, rs_configured_media_count = n,
      rs_suggested_path = Some q, rs_suggested_media_count = m, rs_suggested_candidates = [(q, m)],
      rs_reason = Some (if exists \<and> n > 0 then ''configured_path_not_camera_roll''
                        else if exists then ''configured_path_has_no_media'' else ''configured_path_not_found'')\<rparr>"

definition search_candidates ::
  "net \<Rightarrow> retry_policy \<Rightarrow> string \<Rightarrow> string \<Rightarrow> bool \<Rightarrow> nat \<Rightarrow> poller \<Rightarrow> path_resolution res \<times> poller" where
  "search_candidates N pol token configured exists n p =
     (if exists \<and> n > 0 then (Inr (nothing_to_suggest configured exists n), p)
      else
        and_then (try_candidates N pol token [configured] DISCOVERY_CANDIDATE_PATHS p) (\<lambda>(cs, preferred) p.
        let cs = by_media_count cs; best = first_of (by_media_count preferred) cs in
        (Inr \<lparr>rs_configured_path = configured, rs_configured_exists = exists, rs_configured_media_count = n,
           rs_suggested_path = map_option fst best,
           rs_suggested_media_count = (case best of None \<Rightarrow> 0 | Some c \<Rightarrow> snd c),
           rs_suggested_candidates = cs,
           rs_reason = Some (if exists then ''configured_path_has_no_media'' else ''configured_path_not_found'')\<rparr>, p)))"

definition resolve_camera_roll_path_for_onboarding ::
  "net \<Rightarrow> retry_policy \<Rightarrow> string \<Rightarrow> string \<Rightarrow> poller \<Rightarrow> path_resolution res \<times> poller" where
  "resolve_camera_roll_path_for_onboarding N pol token onedrive_root p =
     (let configured = normalize_root_path onedrive_root in
      and_then (evaluate_media_path N pol token configured p) (\<lambda>(exists, n) p.
      and_then (resolve_special_folder_path N pol token SPECIAL_CAMERA_ROLL_ALIAS p) (\<lambda>special p.
      case special of
        None \<Rightarrow> search_candidates N pol token configured exists n p
      | Some q \<Rightarrow>
          and_then (evaluate_media_path N pol token q p) (\<lambda>(there, m) p.
          if \<not> there then search_candidates N pol token configured exists n p
          else if q = configured then (Inr (nothing_to_suggest configured exists n), p)
          else (Inr (suggest_special configured exists n q m), p)))))"


subsection \<open>What the search costs\<close>

text \<open>At most \<open>n\<close> logical requests, each within its attempts, and nothing but requests.\<close>

definition asked :: "retry_policy \<Rightarrow> nat \<Rightarrow> poller \<Rightarrow> poller \<Rightarrow> bool" where
  "asked pol n p p' \<longleftrightarrow> pl_world p' = pl_world p \<and> pl_requests p' \<le> pl_requests p + n * max_attempts pol"

lemma asked_nothing: "asked pol n p p"
  by (simp add: asked_def)

lemma asked_then:
  assumes "asked pol a p (snd r)" and "\<And>x q. r = (Inr x, q) \<Longrightarrow> asked pol b q (snd (k x q))"
  shows "asked pol (a + b) p (snd (and_then r k))"
  using assms by (cases r; cases "fst r") (fastforce simp: and_then_def asked_def add_mult_distrib)+

lemma asked_more: "asked pol a p p' \<Longrightarrow> a \<le> b \<Longrightarrow> asked pol b p p'"
  unfolding asked_def using mult_le_mono1 [of a b "max_attempts pol"] by (meson add_le_cancel_left le_trans)

lemma asked_return:
  assumes "asked pol a p (snd r)" and "\<And>x q. r = (Inr x, q) \<Longrightarrow> asked pol 0 q (snd (k x q))"
  shows "asked pol a p (snd (and_then r k))"
  using asked_then [of pol a p r 0 k] assms by simp

lemma graph_requests:
  "graph_attempts N pol url attempt left token refreshed p = (r, p') \<Longrightarrow>
     pl_world p' = pl_world p \<and> pl_requests p' \<le> pl_requests p + left"
proof (induction left arbitrary: attempt token refreshed p)
  case (Suc left)
  from Suc.prems show ?case
    by (cases rule: graph_attempt_cases) (auto simp: sent_def dest!: Suc.IH)
qed simp

lemma asked_graph: "asked pol 1 p (snd (graph_get_json N pol url token p))"
  using graph_requests [of N pol url 1 "max_attempts pol" token False p]
  by (cases "graph_get_json N pol url token p") (auto simp: graph_get_json_def asked_def)

lemma asked_lookup: "asked pol 1 p (snd (lookup_item N pol absent url token p))"
proof -
  obtain r q where g: "graph_get_json N pol url token p = (r, q)" by fastforce
  then show ?thesis using asked_graph [of pol p N url token]
    by (cases r) (auto simp: lookup_item_def split: exn.split option.split)
qed

lemma asked_evaluate: "asked pol 1 p (snd (evaluate_media_path N pol token q p))"
  unfolding evaluate_media_path_def
  by (rule asked_return, rule asked_lookup)
    (auto simp: asked_nothing split: option.split sum.split)

lemma asked_special: "asked pol 1 p (snd (resolve_special_folder_path N pol token alias p))"
  unfolding resolve_special_folder_path_def by (rule asked_return, rule asked_lookup) (simp add: asked_nothing)

lemma asked_facet: "asked pol 1 p (snd (path_has_special_folder_name N pol token expected q p))"
  unfolding path_has_special_folder_name_def by (rule asked_return, rule asked_lookup) (simp add: asked_nothing)

lemma asked_candidates: "asked pol (2 * length raws) p (snd (try_candidates N pol token seen raws p))"
proof (induction raws arbitrary: seen p)
  case (Cons raw raws)
  let ?q = "normalize_root_path raw"
  have rest: "asked pol (1 + 2 * length raws) q (snd (
      if exists \<and> n > (0::nat) then
        and_then (path_has_special_folder_name N pol token SPECIAL_CAMERA_ROLL_ALIAS ?q q) (\<lambda>special p.
        and_then (try_candidates N pol token (?q # seen) raws p) (\<lambda>(cs, preferred) p.
        (Inr ((?q, n) # cs, if special then (?q, n) # preferred else preferred), p)))
      else try_candidates N pol token (?q # seen) raws q))" for exists n q
  proof (cases "exists \<and> n > 0")
    case True
    have "asked pol (2 * length raws) p' (snd (and_then (try_candidates N pol token (?q # seen) raws p') (\<lambda>(cs, preferred) p.
        (Inr ((?q, n) # cs, if special then (?q, n) # preferred else preferred), p))))" for special p'
      by (rule asked_return, rule Cons.IH) (auto simp: asked_nothing)
    with True show ?thesis by (simp del: One_nat_def) (rule asked_then, rule asked_facet)
  next
    case False
    with asked_more [OF Cons.IH] show ?thesis by auto
  qed
  have "asked pol (1 + (1 + 2 * length raws)) p (snd (and_then (evaluate_media_path N pol token ?q p) (\<lambda>(exists, n) p.
      if exists \<and> n > 0 then
        and_then (path_has_special_folder_name N pol token SPECIAL_CAMERA_ROLL_ALIAS ?q p) (\<lambda>special p.
        and_then (try_candidates N pol token (?q # seen) raws p) (\<lambda>(cs, preferred) p.
        (Inr ((?q, n) # cs, if special then (?q, n) # preferred else preferred), p)))
      else try_candidates N pol token (?q # seen) raws p)))"
    by (rule asked_then, rule asked_evaluate) (simp only: rest split: prod.split, simp)
  moreover have "asked pol (1 + (1 + 2 * length raws)) p (snd (try_candidates N pol token seen raws p))"
    by (rule asked_more, rule Cons.IH) simp
  ultimately show ?case by (simp add: Let_def)
qed (simp add: asked_nothing)

lemma asked_search: "asked pol 10 p (snd (search_candidates N pol token configured exists n p))"
proof (cases "exists \<and> n > 0")
  case False
  have "2 * length DISCOVERY_CANDIDATE_PATHS = 10" by (simp add: DISCOVERY_CANDIDATE_PATHS_def)
  then have c: "asked pol 10 p (snd (try_candidates N pol token [configured] DISCOVERY_CANDIDATE_PATHS p))"
    using asked_candidates by metis
  show ?thesis
    unfolding search_candidates_def if_not_P [OF False]
    by (rule asked_return, rule c) (simp add: Let_def asked_nothing split: prod.split)
qed (simp add: search_candidates_def asked_nothing)

text \<open>
  The search for the camera roll asks the service at most thirteen times, each within the
  attempts of the retry policy, and changes nothing but the number of requests: no file and no record.
\<close>

theorem discovery_only_asks:
  assumes "resolve_camera_roll_path_for_onboarding N pol token onedrive_root p = (r, p')"
  shows "pl_world p' = pl_world p \<and> pl_requests p' \<le> pl_requests p + 13 * max_attempts pol"
proof -
  have tail: "asked pol 11 q (snd (case special of
        None \<Rightarrow> search_candidates N pol token configured exists n q
      | Some sp \<Rightarrow>
          and_then (evaluate_media_path N pol token sp q) (\<lambda>(there, m) p.
          if \<not> there then search_candidates N pol token configured exists n p
          else if sp = configured then (Inr (nothing_to_suggest configured exists n), p)
          else (Inr (suggest_special configured exists n sp m), p))))" for special configured exists n q
  proof (cases special)
    case None
    with asked_more [OF asked_search] show ?thesis by simp
  next
    case (Some sp)
    have "asked pol (1 + 10) q (snd (and_then (evaluate_media_path N pol token sp q) (\<lambda>(there, m) p.
          if \<not> there then search_candidates N pol token configured exists n p
          else if sp = configured then (Inr (nothing_to_suggest configured exists n), p)
          else (Inr (suggest_special configured exists n sp m), p))))"
      by (rule asked_then, rule asked_evaluate) (auto simp: asked_nothing asked_search)
    with Some show ?thesis by simp
  qed
  have "asked pol (1 + (1 + 11)) p (snd (resolve_camera_roll_path_for_onboarding N pol token onedrive_root p))"
    unfolding resolve_camera_roll_path_for_onboarding_def Let_def
    by (rule asked_then, rule asked_evaluate, simp only: split: prod.split, intro allI impI,
        rule asked_then, rule asked_special, rule tail)
  with assms show ?thesis by (simp add: asked_def)
qed


subsection \<open>What the search finds\<close>

lemma normalize_nonempty: "normalize_root_path r \<noteq> []"
  by (auto simp: normalize_root_path_def Let_def)

lemma drive_item_path_nonempty: "drive_item_path V payload = Some q \<Longrightarrow> q \<noteq> []"
  by (auto simp: drive_item_path_def Let_def normalize_nonempty split: option.splits gval.splits if_splits)

lemma special_path_nonempty:
  "resolve_special_folder_path N pol token alias p = (Inr (Some q), p') \<Longrightarrow> q \<noteq> []"
  by (auto simp: resolve_special_folder_path_def and_then_eq_Inr dest: drive_item_path_nonempty split: option.splits if_splits)

lemma candidates_found:
  "try_candidates N pol token seen raws p = (Inr (cs, preferred), p') \<Longrightarrow>
     set preferred \<subseteq> set cs \<and>
     (\<forall>(q, n) \<in> set cs. 0 < n \<and> q \<notin> set seen \<and> q \<in> normalize_root_path ` set raws)"
proof (induction raws arbitrary: seen p cs preferred)
  case (Cons raw raws)
  let ?q = "normalize_root_path raw"
  show ?case
  proof (cases "?q \<in> set seen")
    case True
    with Cons.prems Cons.IH [of seen p cs preferred] show ?thesis by (auto simp: Let_def)
  next
    case False
    with Cons.prems obtain ex n p1 where e: "evaluate_media_path N pol token ?q p = (Inr (ex, n), p1)"
      and k: "(if ex \<and> n > 0 then
          and_then (path_has_special_folder_name N pol token SPECIAL_CAMERA_ROLL_ALIAS ?q p1) (\<lambda>special p.
          and_then (try_candidates N pol token (?q # seen) raws p) (\<lambda>(cs, preferred) p.
          (Inr ((?q, n) # cs, if special then (?q, n) # preferred else preferred), p)))
        else try_candidates N pol token (?q # seen) raws p1) = (Inr (cs, preferred), p')"
      by (auto simp: Let_def and_then_eq_Inr)
    show ?thesis
    proof (cases "ex \<and> n > 0")
      case True
      with k obtain special p2 cs' pf where t: "try_candidates N pol token (?q # seen) raws p2 = (Inr (cs', pf), p')"
        and cs: "cs = (?q, n) # cs'" and pf: "preferred = (if special then (?q, n) # pf else pf)"
        by (auto simp: and_then_eq_Inr)
      from Cons.IH [OF t] cs pf True False show ?thesis by (auto split: if_splits)
    next
      case no: False
      from k have "try_candidates N pol token (?q # seen) raws p1 = (Inr (cs, preferred), p')" unfolding if_not_P [OF no] .
      from Cons.IH [OF this] show ?thesis by auto
    qed
  qed
qed auto

lemma set_by_media_count [simp]: "set (by_media_count cs) = set cs"
  by (simp add: by_media_count_def)

lemma first_of_Some: "first_of xs ys = Some c \<Longrightarrow> c \<in> set xs \<or> c \<in> set ys"
  by (auto simp: first_of_def split: list.splits)

lemma first_of_best: "first_of [] (by_media_count cs) = Some c \<Longrightarrow> c' \<in> set cs \<Longrightarrow> snd c' \<le> snd c"
proof -
  assume f: "first_of [] (by_media_count cs) = Some c" and c': "c' \<in> set cs"
  then obtain xs where x: "by_media_count cs = c # xs" by (auto simp: first_of_def split: list.splits)
  have "sorted (map (\<lambda>(q, n). - int n) (by_media_count cs))" unfolding by_media_count_def by (rule sorted_sort_key)
  moreover have "c' \<in> set (c # xs)" using c' x set_by_media_count [of cs] by simp
  ultimately show ?thesis unfolding x by (cases c; cases c') force
qed

lemma search_sound:
  assumes "search_candidates N pol token configured ex n s = (Inr r, s')" and "rs_suggested_path r = Some q"
  shows "effective_path r = q \<and> q \<noteq> configured \<and> (q, rs_suggested_media_count r) \<in> set (rs_suggested_candidates r) \<and>
    0 < rs_suggested_media_count r \<and> q \<in> set DISCOVERY_CANDIDATE_PATHS"
proof -
  from assms obtain cs pf where t: "try_candidates N pol token [configured] DISCOVERY_CANDIDATE_PATHS s = (Inr (cs, pf), s')"
    and b: "first_of (by_media_count pf) (by_media_count cs) = Some (q, rs_suggested_media_count r)"
    and c: "rs_suggested_candidates r = by_media_count cs"
    by (auto simp: search_candidates_def nothing_to_suggest_def and_then_eq_Inr Let_def split: if_splits prod.splits)
  from candidates_found [OF t] first_of_Some [OF b]
  have q: "(q, rs_suggested_media_count r) \<in> set cs" "0 < rs_suggested_media_count r" "q \<noteq> configured"
      "q \<in> normalize_root_path ` set DISCOVERY_CANDIDATE_PATHS" by auto
  have "map normalize_root_path DISCOVERY_CANDIDATE_PATHS = DISCOVERY_CANDIDATE_PATHS" by code_simp
  with q(4) have p: "q \<in> set DISCOVERY_CANDIDATE_PATHS" by (metis set_map)
  from q(4) have "q \<noteq> []" using normalize_nonempty by (metis imageE)
  with assms(2) have "effective_path r = q" by (auto simp: effective_path_def neq_Nil_conv)
  with q(1-3) p c show ?thesis by simp
qed


text \<open>
  A configured folder full of photos is given up for the folder the service calls the camera roll
  even when that folder holds none.
\<close>

theorem empty_camera_roll_replaces_configured_folder:
  assumes "evaluate_media_path N pol token (normalize_root_path onedrive_root) p = (Inr (True, n), p1)" and "0 < n"
    and "resolve_special_folder_path N pol token SPECIAL_CAMERA_ROLL_ALIAS p1 = (Inr (Some q), p2)"
    and "evaluate_media_path N pol token q p2 = (Inr (True, 0), p3)" and "q \<noteq> normalize_root_path onedrive_root"
  shows "\<exists>r. resolve_camera_roll_path_for_onboarding N pol token onedrive_root p = (Inr r, p3) \<and>
    effective_path r = q \<and> rs_configured_media_count r = n \<and> rs_suggested_media_count r = 0"
proof -
  from special_path_nonempty [OF assms(3)] obtain c q' where "q = c # q'" by (cases q) auto
  with assms show ?thesis
    by (simp add: resolve_camera_roll_path_for_onboarding_def Let_def and_then_def suggest_special_def effective_path_def)
qed


subsection \<open>An account with its photos in another folder\<close>

text \<open>A service that answers every request with its URL, read back as: a photo in \<open>/Photos\<close>, an empty
  camera roll.\<close>

definition roll_item :: gobject where
  "roll_item = [(''name'', GStr ''Camera Roll''), (''parentReference'', GObj [(''path'', GStr ''/drive/root:'')]),
     (''specialFolder'', GObj [(''name'', GStr ''cameraRoll'')])]"

definition roll_loads :: "string \<Rightarrow> gval option" where
  "roll_loads url = Some (GObj (
     if url = build_children_url ''/Photos'' then [(''value'', GList [GObj [(''name'', GStr ''a.JPG''), (''file'', GObj [])]])]
     else if prefix (GRAPH_BASE @ ''/me/drive/special/'') url then roll_item
     else [(''value'', GList [])]))"

definition roll_net :: net where
  "roll_net = flaky_net\<lparr>http_get := (\<lambda>n url token. Response 200 [] url), loads := roll_loads\<rparr>"

lemma roll_steps:
  "fst (evaluate_media_path roll_net DEFAULT_POLICY ''t'' ''/Photos'' p) = Inr (True, 1)"
  "fst (resolve_special_folder_path roll_net DEFAULT_POLICY ''t'' SPECIAL_CAMERA_ROLL_ALIAS p) = Inr (Some ''/Camera Roll'')"
  "fst (evaluate_media_path roll_net DEFAULT_POLICY ''t'' ''/Camera Roll'' p) = Inr (True, 0)"
  by code_simp+

abbreviation roll_resolution :: "path_resolution res \<times> poller" where
  "roll_resolution \<equiv> resolve_camera_roll_path_for_onboarding roll_net DEFAULT_POLICY ''t'' ''Photos'' (fresh_poller empty_fs)"

theorem discovery_only_asks_witness:
  "pl_world (snd roll_resolution) = pl_world (fresh_poller empty_fs) \<and> pl_requests (snd roll_resolution) \<le> 13 * max_attempts DEFAULT_POLICY"
proof -
  obtain r p' where run: "roll_resolution = (r, p')" by fastforce
  have "pl_requests (fresh_poller empty_fs) = 0" by (simp add: fresh_poller_def)
  with discovery_only_asks [OF run] show ?thesis by (simp add: run)
qed


theorem empty_camera_roll_replaces_configured_folder_witness:
  "\<exists>r p'. roll_resolution = (Inr r, p') \<and> effective_path r = ''/Camera Roll'' \<and>
     rs_configured_media_count r = 1 \<and> rs_suggested_media_count r = 0"
proof -
  have norm: "normalize_root_path ''Photos'' = ''/Photos''" by code_simp
  obtain p1 where 1: "evaluate_media_path roll_net DEFAULT_POLICY ''t'' ''/Photos'' (fresh_poller empty_fs) = (Inr (True, 1), p1)"
    using roll_steps(1) [of "fresh_poller empty_fs"] by (metis prod.collapse)
  obtain p2 where 2: "resolve_special_folder_path roll_net DEFAULT_POLICY ''t'' SPECIAL_CAMERA_ROLL_ALIAS p1 = (Inr (Some ''/Camera Roll''), p2)"
    using roll_steps(2) [of p1] by (metis prod.collapse)
  obtain p3 where 3: "evaluate_media_path roll_net DEFAULT_POLICY ''t'' ''/Camera Roll'' p2 = (Inr (True, 0), p3)"
    using roll_steps(3) [of p2] by (metis prod.collapse)
  from empty_camera_roll_replaces_configured_folder [OF 1 [folded norm] _ 2 3] show ?thesis unfolding norm by auto
qed

end
