(* ===== verification/Ini_Write.thy ===== *)
theory Ini_Write
  imports Ini
begin

section \<open>Writing a configuration file back (\<open>ConfigParser.write\<close>)\<close>

text \<open>
  What \<open>parser.write\<close> makes of a parsed file: the default section if it has options, the sections in
  their order, every option on a line with \<open> = \<close>, continuation lines indented by a tab, a blank line
  after each section.  Comments are gone.  Read again, it gives the same sections and options, as long
  as no value runs over several lines.
\<close>

definition write_value :: "string \<Rightarrow> string" where
  "write_value v = concat (map (\<lambda>c. if c = CHR 0x0A then [CHR 0x0A, CHR 0x09] else [c]) v)"

definition write_section :: "string \<Rightarrow> (string, string) tbl \<Rightarrow> string" where
  "write_section s ob =
     ''['' @ s @ '']'' @ [CHR 0x0A] @
     concat (map (\<lambda>(k, v). k @ '' = '' @ write_value v @ [CHR 0x0A]) ob) @ [CHR 0x0A]"

definition write_ini :: "ini \<Rightarrow> string" where
  "write_ini I =
     (if ini_defaults I = [] then [] else write_section ''DEFAULT'' (ini_defaults I)) @
     concat (map (\<lambda>(s, ob). write_section s ob) (ini_sections I))"

text \<open>\<open>parser[section][key] = value\<close> for a section that is there.\<close>

definition set_option :: "string \<Rightarrow> string \<Rightarrow> string \<Rightarrow> ini \<Rightarrow> ini" where
  "set_option s k v I = I\<lparr>ini_sections := tbl_update s (AList.update k v) (ini_sections I)\<rparr>"

subsection \<open>Plain files\<close>

abbreviation unbroken :: "string \<Rightarrow> bool" where
  "unbroken t \<equiv> CHR 0x0A \<notin> set t \<and> CHR 0x0D \<notin> set t"

definition plain_value :: "string \<Rightarrow> bool" where
  "plain_value v \<longleftrightarrow> unbroken v \<and> py_strip v = v"

definition plain_key :: "string \<Rightarrow> bool" where
  "plain_key k \<longleftrightarrow> unbroken k \<and> k \<noteq> [] \<and> py_strip k = k \<and> list_all (\<lambda>c. \<not> is_delim c) k \<and>
     hd k \<notin> {CHR ''#'', CHR '';'', CHR ''[''}"

definition plain_options :: "(string, string) tbl \<Rightarrow> bool" where
  "plain_options ob \<longleftrightarrow> distinct (map fst ob) \<and> list_all (\<lambda>(k, v). plain_key k \<and> plain_value v) ob"

definition plain_ini :: "ini \<Rightarrow> bool" where
  "plain_ini I \<longleftrightarrow> plain_options (ini_defaults I) \<and> distinct (section_names I) \<and>
     list_all (\<lambda>(s, ob). unbroken s \<and> s \<noteq> [] \<and> s \<noteq> ''DEFAULT'' \<and> plain_options ob) (ini_sections I)"

subsection \<open>Lines\<close>

definition option_text :: "string \<times> string \<Rightarrow> string" where
  "option_text kv = fst kv @ '' = '' @ snd kv"

definition section_lines :: "string \<Rightarrow> (string, string) tbl \<Rightarrow> string list" where
  "section_lines s ob = (''['' @ s @ '']'') # map option_text ob @ [[]]"

abbreviation lines_text :: "string list \<Rightarrow> string" where
  "lines_text ls \<equiv> concat (map (\<lambda>l. l @ [CHR 0x0A]) ls)"

lemma write_value_plain: "CHR 0x0A \<notin> set v \<Longrightarrow> write_value v = v"
  by (induction v) (auto simp: write_value_def)

lemma write_section_lines:
  assumes "plain_options ob" shows "write_section s ob = lines_text (section_lines s ob)"
proof -
  have "concat (map (\<lambda>(k, v). k @ '' = '' @ write_value v @ [CHR 0x0A]) ob) = lines_text (map option_text ob)"
    using assms
    by (induction ob) (auto simp: plain_options_def plain_value_def write_value_plain option_text_def)
  then show ?thesis by (simp add: write_section_def section_lines_def)
qed

lemma universal_newlines_id: "CHR 0x0D \<notin> set s \<Longrightarrow> universal_newlines s = s"
  by (induction s rule: universal_newlines.induct) auto

lemma split_lines: "list_all (\<lambda>l. CHR 0x0A \<notin> set l) ls \<Longrightarrow> split_on (CHR 0x0A) (lines_text ls) = ls @ [[]]"
  by (induction ls) (auto simp: split_on_append_sep)

lemma text_lines_of_lines: "list_all unbroken ls \<Longrightarrow> text_lines (lines_text ls) = ls"
proof -
  assume u: "list_all unbroken ls"
  then have "CHR 0x0D \<notin> set (lines_text ls)" by (induction ls) auto
  with u split_lines [of ls] show ?thesis
    by (simp add: text_lines_def universal_newlines_id list_all_iff Let_def)
qed

lemma section_lines_unbroken: "unbroken s \<Longrightarrow> plain_options ob \<Longrightarrow> list_all unbroken (section_lines s ob)"
  by (fastforce simp: section_lines_def plain_options_def plain_key_def plain_value_def option_text_def list_all_iff)

subsection \<open>Reading one section\<close>

lemma rstrip_strip: "py_strip s = s \<Longrightarrow> py_rstrip s = s"
proof -
  assume s: "py_strip s = s"
  show ?thesis
  proof (cases "s = []")
    case False
    with s strip_by_last [of py_space s] have "\<not> py_space (last s)" by (simp add: py_strip_def)
    with False show ?thesis by (cases s rule: rev_cases) (simp_all add: py_rstrip_def)
  qed (simp add: py_rstrip_def)
qed

lemma rstrip_snoc: "py_space c \<Longrightarrow> py_rstrip (s @ [c]) = py_rstrip s"
  by (simp add: py_rstrip_def)

lemma strip_hd: "py_strip s = s \<Longrightarrow> s \<noteq> [] \<Longrightarrow> \<not> py_space (hd s)"
  using strip_by_hd [of py_space s] by (simp add: py_strip_def)

lemma strip_between: "t \<noteq> [] \<Longrightarrow> \<not> py_space (hd t) \<Longrightarrow> py_strip t = py_rstrip t"
  by (cases t) (simp_all add: py_strip_def strip_by_def py_rstrip_def)

lemma space_blank [simp]: "py_space (CHR '' '')" "\<not> py_space (CHR ''='')" "\<not> py_space (CHR ''['')" "\<not> py_space (CHR '']'')"
    "py_space (CHR 0x0A)"
  by (simp_all add: py_space_def)

lemma option_text_strip:
  assumes "plain_key k" and "plain_value v"
  shows "py_strip (option_text (k, v)) = (if v = [] then k @ '' ='' else k @ '' = '' @ v)"
proof -
  from assms(1) have k: "k \<noteq> []" "\<not> py_space (hd k)" using strip_hd by (auto simp: plain_key_def)
  then have "py_strip (option_text (k, v)) = py_rstrip (k @ '' = '' @ v)"
    by (subst strip_between) (simp_all add: option_text_def)
  moreover have "py_rstrip (k @ '' = '' @ v) = k @ '' = '' @ v" if "v \<noteq> []"
  proof -
    from assms(2) that strip_by_last [of py_space v] have "\<not> py_space (last v)" by (simp add: plain_value_def py_strip_def)
    with that show ?thesis by (cases v rule: rev_cases) (simp_all add: py_rstrip_def)
  qed
  moreover have "py_rstrip (k @ '' = '') = k @ '' =''" by (simp add: py_rstrip_def)
  ultimately show ?thesis by simp
qed

lemma option_line_text:
  assumes "plain_key k" and "plain_value v"
  shows "option_line (if v = [] then k @ '' ='' else k @ '' = '' @ v) = Some (k, v)"
proof -
  have nd: "list_all (\<lambda>c. \<not> is_delim c) (k @ '' '')" using assms(1) by (simp add: plain_key_def is_delim_def)
  have t: "takeWhile (\<lambda>c. \<not> is_delim c) (k @ '' ='' @ u) = k @ '' ''"
    "dropWhile (\<lambda>c. \<not> is_delim c) (k @ '' ='' @ u) = ''='' @ u" for u
    using nd takeWhile_append2 [of "k @ '' ''" "\<lambda>c. \<not> is_delim c" "''='' @ u"]
      dropWhile_append2 [of "k @ '' ''" "\<lambda>c. \<not> is_delim c" "''='' @ u"]
    by (auto simp: list_all_iff is_delim_def)
  have r: "py_rstrip (k @ '' '') = k" using assms(1) by (simp add: rstrip_snoc rstrip_strip plain_key_def)
  have s: "py_strip ('' '' @ v) = v" "py_strip [] = []"
    using assms(2) by (simp_all add: plain_value_def py_strip_def strip_by_def)
  show ?thesis
  proof (cases "v = []")
    case True
    then show ?thesis using t [of "[]"] r s by (simp add: option_line_def)
  next
    case False
    then show ?thesis using t [of "'' '' @ v"] r s by (simp add: option_line_def)
  qed
qed

definition valid_current :: "ini_reader \<Rightarrow> bool" where
  "valid_current R \<longleftrightarrow> (\<exists>s. ir_section R = Some s \<and> (s = ''DEFAULT'' \<or> s \<in> fst ` set (ir_sections R))) \<and>
     ir_indent R = 0 \<and> \<not> ir_errors R"

lemma frame_in_current:
  "ir_section (in_current g R) = ir_section R" "ir_indent (in_current g R) = ir_indent R"
  "ir_errors (in_current g R) = ir_errors R" "ir_option (in_current g R) = ir_option R"
  "fst ` set (ir_sections (in_current g R)) = fst ` set (ir_sections R)"
  using arg_cong [OF sections_in_current [of g R], of set] by (simp_all add: in_current_def split: option.split)

lemma read_option:
  assumes "valid_current R" and "plain_key k" and "plain_value v" and "k \<notin> set (map fst (current_options R))"
  shows "read_line (option_text (k, v)) R = Inr ((in_current (\<lambda>ob. ob @ [(k, [v])]) R)\<lparr>ir_option := Some k\<rparr>)"
proof -
  let ?l = "option_text (k, v)" and ?v = "if v = [] then k @ '' ='' else k @ '' = '' @ v"
  from assms(2) have k: "k \<noteq> []" "\<not> py_space (hd k)" "hd k \<notin> {CHR ''#'', CHR '';'', CHR ''[''}"
    using strip_hd by (auto simp: plain_key_def)
  have indent: "takeWhile py_space ?l = []" using k by (cases k) (simp_all add: option_text_def)
  have hd: "hd ?v = hd k" "?v \<noteq> []" using k(1) by simp_all
  have "section_header ?v = None"
    using hd k(3) by (cases ?v) (simp_all add: section_header_def Let_def split: if_splits)
  moreover have R: "ir_indent R = 0" "ir_section R \<noteq> None" using assms(1) by (auto simp: valid_current_def)
  moreover have same: "R\<lparr>ir_indent := 0\<rparr> = R" using R(1) by (cases R) simp
  moreover have "(in_current g R)\<lparr>ir_option := o', ir_errors := False\<rparr> = (in_current g R)\<lparr>ir_option := o'\<rparr>" for g o'
    using assms(1) frame_in_current(3) [of g R] by (cases "in_current g R") (simp add: valid_current_def)
  moreover have "\<not> ir_errors R" using assms(1) by (simp add: valid_current_def)
  ultimately show ?thesis
    unfolding read_line_def option_text_strip [OF assms(2,3)] Let_def indent list.size(3) same start_option_def
      option_line_text [OF assms(2,3)]
    using hd k assms(4) by (simp only: option.case prod.case if_False simp_thms) simp
qed

lemma current_in_current:
  assumes "valid_current R"
  shows "current_options (in_current g R) = g (current_options R)" and "valid_current (in_current g R)"
    and "in_current h (in_current g R) = in_current (\<lambda>ob. h (g ob)) R"
proof -
  have d: "\<exists>ob. map_of t s = Some ob" if "s \<in> fst ` set t" for s and t :: "(string, (string, string list) tbl) tbl"
    using that by (metis dom_map_of_conv_image_fst domD)
  from assms show "current_options (in_current g R) = g (current_options R)"
    by (auto simp: valid_current_def current_options_def in_current_def tbl_update_def update_conv' dest!: d)
  from assms show "valid_current (in_current g R)"
    by (simp add: valid_current_def frame_in_current)
  from assms show "in_current h (in_current g R) = in_current (\<lambda>ob. h (g ob)) R"
    by (auto simp: valid_current_def in_current_def tbl_update_def update_conv' dest!: d)
qed


lemma in_current_id: "valid_current R \<Longrightarrow> in_current (\<lambda>ob. ob) R = R"
proof -
  assume v: "valid_current R"
  have "tbl_update s (\<lambda>ob. ob) t = t" for s and t :: "(string, (string, string list) tbl) tbl"
    by (simp add: tbl_update_def update_triv split: option.split)
  with v show ?thesis by (cases R) (auto simp: in_current_def valid_current_def)
qed

lemma in_current_option: "in_current g (R\<lparr>ir_option := o'\<rparr>) = (in_current g R)\<lparr>ir_option := o'\<rparr>"
  by (simp add: in_current_def split: option.split)

lemma current_option: "current_options (R\<lparr>ir_option := o'\<rparr>) = current_options R" "valid_current (R\<lparr>ir_option := o'\<rparr>) = valid_current R"
  by (simp_all add: current_options_def valid_current_def split: option.split)

lemma in_current_at:
  assumes "valid_current R" shows "in_current g R = in_current (\<lambda>_. g (current_options R)) R"
  using assms by (auto simp: valid_current_def in_current_def current_options_def tbl_update_def split: option.split)

lemma in_current_const:
  assumes "valid_current R" and "current_options R = []"
  shows "in_current (\<lambda>ob. ob @ []) R = in_current (\<lambda>_. []) R"
  using in_current_at [OF assms(1), of "\<lambda>ob. ob @ []"] assms(2) by simp

definition fresh_values :: "(string, string) tbl \<Rightarrow> (string, string list) tbl" where
  "fresh_values ob = map (\<lambda>(k, v). (k, [v])) ob"

lemma read_options:
  assumes "valid_current R" and "plain_options ob" and "set (map fst (current_options R)) \<inter> set (map fst ob) = {}"
  shows "read_lines (map option_text ob) R =
    Inr ((in_current (\<lambda>o'. o' @ fresh_values ob) R)\<lparr>ir_option := (if ob = [] then ir_option R else Some (fst (last ob)))\<rparr>)"
  using assms
proof (induction ob arbitrary: R)
  case Nil
  then show ?case by (simp add: fresh_values_def in_current_id)
next
  case (Cons kv ob)
  obtain k v where kv: "kv = (k, v)" by fastforce
  let ?R = "(in_current (\<lambda>o'. o' @ [(k, [v])]) R)\<lparr>ir_option := Some k\<rparr>"
  have p: "plain_key k" "plain_value v" "plain_options ob" "k \<notin> set (map fst (current_options R))" "k \<notin> fst ` set ob"
    using Cons.prems kv by (auto simp: plain_options_def)
  have "valid_current ?R" "current_options ?R = current_options R @ [(k, [v])]"
    using current_in_current [OF Cons.prems(1)] by (simp_all add: current_option)
  with Cons.IH [of ?R] p Cons.prems(3) have "read_lines (map option_text ob) ?R =
      Inr ((in_current (\<lambda>o'. o' @ fresh_values ob) ?R)\<lparr>ir_option := (if ob = [] then Some k else Some (fst (last ob)))\<rparr>)"
    by (auto simp: kv)
  moreover have "in_current (\<lambda>o'. o' @ fresh_values ob) ?R =
      (in_current (\<lambda>o'. o' @ fresh_values (kv # ob)) R)\<lparr>ir_option := Some k\<rparr>"
    using current_in_current(3) [OF Cons.prems(1)] by (simp add: in_current_option fresh_values_def kv)
  ultimately show ?case using read_option [OF Cons.prems(1) p(1,2,4)] by (simp add: kv)
qed

definition closed_values :: "(string, string) tbl \<Rightarrow> (string, string list) tbl" where
  "closed_values ob = (if ob = [] then [] else fresh_values (butlast ob) @ [(fst (last ob), [snd (last ob), []])])"

lemma closed_from_fresh:
  assumes "plain_options ob" and "ob \<noteq> []"
  shows "tbl_update (fst (last ob)) (\<lambda>ls. ls @ [[]]) (fresh_values ob) = closed_values ob"
proof -
  from assms(2) obtain pre k v where ob: "ob = pre @ [(k, v)]" by (metis append_butlast_last_id surj_pair)
  from assms(1) have "k \<notin> fst ` set pre" by (auto simp: ob plain_options_def)
  then have k: "k \<notin> fst ` set (fresh_values pre)" by (force simp: fresh_values_def)
  have "map_of (fresh_values pre @ [(k, [v])]) k = Some [v]"
    using k by (simp add: map_of_eq_None_iff [symmetric] map_add_def)
  moreover have "AList.update k x (t @ [(k, y)]) = t @ [(k, x)]" if "k \<notin> fst ` set t" for t :: "(string, string list) tbl" and x y
    using that by (induction t) auto
  ultimately show ?thesis using k by (simp add: ob tbl_update_def closed_values_def fresh_values_def)
qed

lemma join_closed: "plain_options ob \<Longrightarrow> join_values (closed_values ob) = ob"
proof (cases "ob = []")
  case False
  then obtain pre k v where ob: "ob = pre @ [(k, v)]" by (metis append_butlast_last_id surj_pair)
  assume p: "plain_options ob"
  then have "py_rstrip v = v" by (simp add: ob plain_options_def plain_value_def rstrip_strip)
  moreover have "join_values (fresh_values pre) = pre"
    using p unfolding ob by (induction pre) (auto simp: join_values_def fresh_values_def plain_options_def plain_value_def rstrip_strip)
  ultimately show ?thesis by (simp add: ob closed_values_def join_values_def rstrip_snoc)
qed (simp add: closed_values_def join_values_def)

lemma plain_key_nonempty: "plain_options ob \<Longrightarrow> kv \<in> set ob \<Longrightarrow> fst kv \<noteq> []"
  by (auto simp: plain_options_def plain_key_def list_all_iff)

text \<open>After the header of an empty section.\<close>

lemma read_body:
  assumes "valid_current R" and "plain_options ob" and "current_options R = []" and "ir_option R = None"
  shows "\<exists>o'. read_lines (map option_text ob @ [[]]) R = Inr ((in_current (\<lambda>_. closed_values ob) R)\<lparr>ir_option := o'\<rparr>)"
proof -
  have app: "read_lines (ls @ ms) S = (case read_lines ls S of Inl e \<Rightarrow> Inl e | Inr S \<Rightarrow> read_lines ms S)" for ls ms S
    by (induction ls arbitrary: S) (auto split: sum.split)
  let ?o = "if ob = [] then ir_option R else Some (fst (last ob))"
  let ?R = "(in_current (\<lambda>o'. o' @ fresh_values ob) R)\<lparr>ir_option := ?o\<rparr>"
  have "read_lines (map option_text ob @ [[]]) R = read_line [] ?R"
    using read_options [OF assms(1,2)] assms(3) by (simp add: app split: sum.split)
  also have "\<dots> = Inr (add_value_line [] ?R)" by (simp add: read_line_def py_strip_def strip_by_def)
  finally have r: "read_lines (map option_text ob @ [[]]) R = Inr (add_value_line [] ?R)" .
  show ?thesis
  proof (cases "ob = []")
    case True
    then have "add_value_line [] ?R = (in_current (\<lambda>_. closed_values ob) R)\<lparr>ir_option := None\<rparr>"
      using in_current_const [OF assms(1,3)] assms(4)
      by (simp add: add_value_line_def open_option_def closed_values_def fresh_values_def)
    with r show ?thesis by auto
  next
    case False
    have "fst (last ob) \<noteq> []" by (rule plain_key_nonempty [OF assms(2) last_in_set [OF False]])
    moreover have "ir_section R \<noteq> None" using assms(1) by (auto simp: valid_current_def)
    ultimately have "add_value_line [] ?R = in_current (tbl_update (fst (last ob)) (\<lambda>ls. ls @ [[]])) ?R"
      using False by (auto simp: add_value_line_def open_option_def frame_in_current)
    also have "\<dots> = (in_current (\<lambda>o'. tbl_update (fst (last ob)) (\<lambda>ls. ls @ [[]]) (o' @ fresh_values ob)) R)\<lparr>ir_option := ?o\<rparr>"
      using current_in_current(3) [OF assms(1)] by (simp add: in_current_option)
    also have "\<dots> = (in_current (\<lambda>_. closed_values ob) R)\<lparr>ir_option := ?o\<rparr>"
      using in_current_at [OF assms(1), of "\<lambda>o'. tbl_update (fst (last ob)) (\<lambda>ls. ls @ [[]]) (o' @ fresh_values ob)"]
        closed_from_fresh [OF assms(2) False] assms(3) by simp
    finally show ?thesis using r by auto
  qed
qed


subsection \<open>Reading the whole file\<close>

lemma header_line: "s \<noteq> [] \<Longrightarrow> section_header (''['' @ s @ '']'') = Some s" "py_strip (''['' @ s @ '']'') = ''['' @ s @ '']''"
  by (simp_all add: section_header_def Let_def py_strip_def strip_by_def)

definition clean_reader :: "ini_reader \<Rightarrow> bool" where
  "clean_reader R \<longleftrightarrow> ir_indent R = 0 \<and> \<not> ir_errors R"

lemma read_header:
  assumes "clean_reader R" and "s \<noteq> []"
  shows "read_line (''['' @ s @ '']'') R = start_section s R"
proof -
  have same: "R\<lparr>ir_indent := 0\<rparr> = R" using assms(1) by (cases R) (simp add: clean_reader_def)
  show ?thesis
    unfolding read_line_def header_line(2) Let_def header_line(1) [OF assms(2)]
    using assms(1) by (simp add: clean_reader_def same)
qed

lemma read_section:
  assumes "clean_reader R" and "s \<noteq> []" and "s \<noteq> ''DEFAULT''" and "s \<notin> set (map fst (ir_sections R))" and "plain_options ob"
  shows "\<exists>R'. read_lines (section_lines s ob) R = Inr R' \<and> clean_reader R' \<and> ir_defaults R' = ir_defaults R \<and>
    ir_sections R' = ir_sections R @ [(s, closed_values ob)]"
proof -
  let ?R = "R\<lparr>ir_sections := ir_sections R @ [(s, [])], ir_section := Some s, ir_option := None\<rparr>"
  have v: "valid_current ?R" using assms(1) by (simp add: valid_current_def clean_reader_def)
  have "map_of (ir_sections R) s = None" using assms(4) by (simp add: map_of_eq_None_iff)
  then have m: "map_of (ir_sections R @ [(s, [])]) s = Some []" by (simp add: map_add_def)
  have "AList.update s x (t @ [(s, y)]) = t @ [(s, x)]" if "s \<notin> fst ` set t" for t :: "(string, (string, string list) tbl) tbl" and x y
    using that by (induction t) auto
  with assms(3,4) m have upd: "in_current (\<lambda>_. closed_values ob) ?R = ?R\<lparr>ir_sections := ir_sections R @ [(s, closed_values ob)]\<rparr>"
    by (simp add: in_current_def tbl_update_def)
  obtain o' where "read_lines (map option_text ob @ [[]]) ?R = Inr ((in_current (\<lambda>_. closed_values ob) ?R)\<lparr>ir_option := o'\<rparr>)"
    using read_body [OF v assms(5)] assms(3) m by (auto simp: current_options_def)
  moreover have "read_line (''['' @ s @ '']'') R = Inr ?R"
    using read_header [OF assms(1,2)] assms(3,4) by (simp add: start_section_def)
  ultimately show ?thesis unfolding upd section_lines_def using assms(1) by (simp add: clean_reader_def)
qed

lemma read_defaults:
  assumes "plain_options ob"
  shows "\<exists>R'. read_lines (section_lines ''DEFAULT'' ob) new_reader = Inr R' \<and> clean_reader R' \<and>
    ir_defaults R' = closed_values ob \<and> ir_sections R' = []"
proof -
  let ?R = "new_reader\<lparr>ir_section := Some ''DEFAULT'', ir_option := None\<rparr>"
  have v: "valid_current ?R" by (simp add: valid_current_def new_reader_def)
  obtain o' where "read_lines (map option_text ob @ [[]]) ?R = Inr ((in_current (\<lambda>_. closed_values ob) ?R)\<lparr>ir_option := o'\<rparr>)"
    using read_body [OF v assms] by (auto simp: current_options_def new_reader_def)
  moreover have "read_line (''['' @ ''DEFAULT'' @ '']'') new_reader = Inr ?R"
    using read_header [of new_reader "''DEFAULT''"] by (simp add: start_section_def new_reader_def clean_reader_def)
  ultimately show ?thesis
    unfolding section_lines_def by (simp add: clean_reader_def in_current_def new_reader_def)
qed

lemma ini_lines_append:
  "read_lines (ls @ ms) R = (case read_lines ls R of Inl e \<Rightarrow> Inl e | Inr R \<Rightarrow> read_lines ms R)"
  by (induction ls arbitrary: R) (auto split: sum.split)

lemma read_sections:
  assumes "clean_reader R" and "distinct (map fst secs)" and "set (map fst (ir_sections R)) \<inter> set (map fst secs) = {}"
    and "list_all (\<lambda>(s, ob). s \<noteq> [] \<and> s \<noteq> ''DEFAULT'' \<and> plain_options ob) secs"
  shows "\<exists>R'. read_lines (concat (map (\<lambda>(s, ob). section_lines s ob) secs)) R = Inr R' \<and> clean_reader R' \<and>
    ir_defaults R' = ir_defaults R \<and> ir_sections R' = ir_sections R @ map (\<lambda>(s, ob). (s, closed_values ob)) secs"
  using assms
proof (induction secs arbitrary: R)
  case (Cons sec secs)
  obtain s ob where sec: "sec = (s, ob)" by fastforce
  have a: "s \<noteq> []" "s \<noteq> ''DEFAULT''" "plain_options ob" "s \<notin> set (map fst (ir_sections R))" "s \<notin> fst ` set secs"
    using Cons.prems sec by auto
  from read_section [OF Cons.prems(1) a(1,2,4,3)] obtain R1 where
    r: "read_lines (section_lines s ob) R = Inr R1" "clean_reader R1" "ir_defaults R1 = ir_defaults R"
      "ir_sections R1 = ir_sections R @ [(s, closed_values ob)]" by blast
  have "set (map fst (ir_sections R1)) \<inter> set (map fst secs) = {}" using r(4) a(5) Cons.prems(3) sec by auto
  from Cons.IH [OF r(2) _ this] Cons.prems(2,4) r sec show ?case by (auto simp: ini_lines_append)
qed simp

lemma read_ini_write:
  assumes "plain_ini I"
  shows "read_ini (write_ini I) = Inr I"
proof -
  let ?D = "if ini_defaults I = [] then [] else section_lines ''DEFAULT'' (ini_defaults I)"
  let ?S = "concat (map (\<lambda>(s, ob). section_lines s ob) (ini_sections I))"
  have p: "plain_options (ini_defaults I)" "distinct (map fst (ini_sections I))"
    "list_all (\<lambda>(s, ob). unbroken s \<and> s \<noteq> [] \<and> s \<noteq> ''DEFAULT'' \<and> plain_options ob) (ini_sections I)"
    using assms by (simp_all add: plain_ini_def section_names_def)
  have "concat (map (\<lambda>(s, ob). write_section s ob) secs) = lines_text (concat (map (\<lambda>(s, ob). section_lines s ob) secs))"
    if "list_all (\<lambda>(s, ob). plain_options ob) secs" for secs
    using that by (induction secs) (auto simp: write_section_lines)
  moreover have "list_all (\<lambda>(s, ob). plain_options ob) (ini_sections I)" using p(3) by (auto simp: list_all_iff)
  ultimately have w: "write_ini I = lines_text (?D @ ?S)" using p(1) by (simp add: write_ini_def write_section_lines)
  have "list_all unbroken (section_lines ''DEFAULT'' (ini_defaults I))" by (rule section_lines_unbroken [OF _ p(1)]) simp
  moreover have "list_all unbroken (concat (map (\<lambda>(s, ob). section_lines s ob) secs))"
    if "list_all (\<lambda>(s, ob). unbroken s \<and> s \<noteq> [] \<and> s \<noteq> ''DEFAULT'' \<and> plain_options ob) secs" for secs
    using that
  proof (induction secs)
    case (Cons sec secs)
    then show ?case using section_lines_unbroken [of "fst sec" "snd sec"] by (cases sec) simp
  qed simp
  ultimately have t: "text_lines (write_ini I) = ?D @ ?S" unfolding w using p(3) by (intro text_lines_of_lines) simp
  obtain R where R: "read_lines ?D new_reader = Inr R" "clean_reader R" "ir_defaults R = closed_values (ini_defaults I)" "ir_sections R = []"
    using read_defaults [OF p(1)] by (cases "ini_defaults I = []") (auto simp: new_reader_def clean_reader_def closed_values_def)
  have "list_all (\<lambda>(s, ob). s \<noteq> [] \<and> s \<noteq> ''DEFAULT'' \<and> plain_options ob) (ini_sections I)" using p(3) by (auto simp: list_all_iff)
  from read_sections [OF R(2) p(2) _ this] R obtain R' where R': "read_lines ?S R = Inr R'" "clean_reader R'"
    "ir_defaults R' = closed_values (ini_defaults I)" "ir_sections R' = map (\<lambda>(s, ob). (s, closed_values ob)) (ini_sections I)" by auto
  have "map (\<lambda>(s, ob). (s, join_values ob)) (ir_sections R') = ini_sections I"
    using p(3) by (auto simp: R'(4) case_prod_unfold list_all_iff join_closed intro!: map_idI)
  with R' join_closed [OF p(1)] show ?thesis
    by (simp add: read_ini_def t ini_lines_append R(1) clean_reader_def)
qed

text \<open>
  A configuration file written back is read again as it was: the same sections with the same
  options in the same order, as long as every value is a single line without surrounding blanks.
\<close>

theorem write_ini_reads_back:
  assumes "plain_ini I"
  shows "read_ini (write_ini I) = Inr I"
  using assms by (rule read_ini_write)


definition sample_ini :: ini where
  "sample_ini = \<lparr>ini_defaults = [(''mode'', ''a b'')],
     ini_sections = [(''core'', []), (''account.anna'', [(''onedrive_root'', ''/Camera Roll''), (''note'', [])])]\<rparr>"

lemma sample_plain: "plain_ini sample_ini"
  by code_simp

theorem write_ini_reads_back_witness: "plain_ini sample_ini \<and> read_ini (write_ini sample_ini) = Inr sample_ini"
  using write_ini_reads_back [OF sample_plain] sample_plain by simp

subsection \<open>One option changed\<close>

lemma set_update_subset': "set (AList.update k v al) \<subseteq> insert (k, v) (set al)"
  by (induction al) auto

lemma plain_set_option:
  assumes "plain_ini I" and "plain_key k" and "plain_value v"
  shows "plain_ini (set_option s k v I)"
proof -
  have up: "plain_options (AList.update k v ob)" if "plain_options ob" for ob
    using that assms(2,3) distinct_update [of ob k v] set_update_subset' [of k v ob]
    by (auto simp: plain_options_def list_all_iff)
  show ?thesis
  proof (cases "map_of (ini_sections I) s")
    case None
    with assms(1) show ?thesis by (simp add: set_option_def tbl_update_def)
  next
    case (Some ob)
    then have "(s, ob) \<in> set (ini_sections I)" by (rule map_of_SomeD)
    with assms(1) have "unbroken s \<and> s \<noteq> [] \<and> s \<noteq> ''DEFAULT'' \<and> plain_options ob"
      by (auto simp: plain_ini_def list_all_iff)
    with up assms(1) Some set_update_subset' [of s "AList.update k v ob" "ini_sections I"]
      distinct_update [of "ini_sections I" s "AList.update k v ob"]
    show ?thesis by (auto simp: plain_ini_def set_option_def tbl_update_def section_names_def list_all_iff)
  qed
qed

lemma option_value_set_option:
  assumes "s \<in> set (section_names I)"
  shows "option_value (set_option s k v I) s' k' = (if s' = s \<and> k' = k then Some v else option_value I s' k')"
proof -
  from assms obtain ob where "map_of (ini_sections I) s = Some ob"
    by (auto simp: section_names_def dom_map_of_conv_image_fst [symmetric])
  then show ?thesis by (auto simp: set_option_def tbl_update_def option_value_def update_conv' split: option.split)
qed

end
