(* ===== verification/Ingest_Props.thy ===== *)
theory Ingest_Props
  imports Ingest "HOL-Library.Multiset"
begin

section \<open>Properties of the ingest engine\<close>

text \<open>
  What the engine may do to the registry is proved once, for every frame its registry methods
  respect (\<open>candidate_methods\<close> for one candidate, \<open>ingest_methods\<close> for a batch); the interpretations give that it keeps the integrity of the database
  and that it never accepts a file.  Then the decision for one candidate, branch by branch, the
  batch, and the replay of the journal.
\<close>

subsection \<open>Frames of the whole engine\<close>

locale audit_methods = world_frame R D for R and D +
  assumes m_audit: "D d (snd (append_audit_event now sha' action reason actor account' det d))"
begin

lemma frame_ret: "R w (snd (r, w))"
  by (simp add: frame_refl)

lemma frame_replay_one: "R w (snd (replay_one E op r w))"
  unfolding replay_one_def quarantine_destination_def Let_def
  by (auto simp: frame_refl split: option.split
      intro!: frame_and_then frame_guard frame_fs_call frame_ret frame_reg_call m_audit)

lemma frame_replay_loop: "R w (snd (replay_loop E rs ops w))"
  by (induction E rs ops w rule: replay_loop.induct)
    (auto intro!: frame_and_then frame_replay_one frame_ret simp: frame_refl Let_def split: prod.split)

lemma frame_replay: "R w (snd (replay_interrupted_operations E jc w))"
proof -
  have clear: "R w (w\<lparr>jfiles := j\<rparr>)" for j and w :: world by (rule frame_same_db) simp
  show ?thesis
    unfolding replay_interrupted_operations_def
    by (auto split: option.split intro!: frame_and_then frame_lift_res frame_replay_loop frame_ret simp: clear frame_refl)
qed

lemma frame_cleanup_loop: "R w (snd (cleanup_loop now ttl ks w))"
  by (induction now ttl ks w rule: cleanup_loop.induct)
    (auto intro!: frame_and_then frame_fs_call frame_ret simp: frame_refl)

lemma frame_cleanup: "R w (snd (cleanup_staging_tmp_files E dir ttl w))"
proof -
  have tick: "R w (w\<lparr>ticks := Suc (ticks w)\<rparr>)" by (rule frame_same_db) simp
  show ?thesis
    by (simp add: cleanup_staging_tmp_files_def draw_time_def frame_refl frame_trans [OF tick frame_cleanup_loop])
qed

lemma frame_quarantine_drifted: "R w (snd (quarantine_drifted now qd cat p w))"
  unfolding quarantine_drifted_def Let_def by (intro frame_and_then frame_fs_call)

lemma frame_drift_loop: "R w (snd (drift_loop now qd a b c ks w))"
proof (induction ks arbitrary: w)
  case (Cons k ks)
  then show ?case
    by (auto intro!: frame_and_then frame_quarantine_drifted frame_ret split: option.split)
qed (simp add: frame_refl)

lemma frame_reconcile: "R w (snd (reconcile_staging_drift E sd qd a b c t w))"
proof -
  have tick: "R w (w\<lparr>ticks := Suc (ticks w)\<rparr>)" by (rule frame_same_db) simp
  have "R (w\<lparr>ticks := Suc (ticks w)\<rparr>) (snd (and_then (drift_loop n q x y z ks (w\<lparr>ticks := Suc (ticks w)\<rparr>))
      (\<lambda>cats w. (Inr (drift_report cats t), w))))" for n q x y z ks
    by (intro frame_and_then frame_drift_loop frame_ret)
  from frame_trans [OF tick this] show ?thesis
    by (simp add: reconcile_staging_drift_def draw_time_def frame_refl)
qed

end

locale candidate_methods = audit_methods R D for R and D +
  assumes m_create: "D d (snd (create_or_update_file now sha sz ''rejected'' orig cur d))"
    and m_unknown: "D d (snd (finalize_unknown_ingest now sha sz orig' cur' account oid source mt actor k d))"
    and m_known: "D d (snd (finalize_known_ingest now sha ks account oid source mt sz actor d))"
    and m_metadata: "D d (snd (upsert_metadata_index now account oid sz mt sha d))"
    and m_origin: "D d (snd (upsert_file_origin now sha account oid hint d))"
begin

lemmas frame_calls = frame_and_then frame_guard frame_fs_call frame_lift_res frame_reg_call
  m_create m_unknown m_known m_metadata m_origin m_audit

lemma frame_journal: "R w (snd (ingest_journal_append E jc op ph c dest sha w))"
  by (rule frame_same_db) (simp add: ingest_journal_append_def split: option.split)

lemma frame_quarantine: "R w (snd (handle_quarantine_or_delete E p qd cat w))"
proof (cases qd)
  case None
  then show ?thesis by (simp add: handle_quarantine_or_delete_def frame_fs_call)
next
  case (Some q)
  have "R w (snd (fs_call m (w\<lparr>ticks := n\<rparr>)))" for m n and w :: world
    by (rule frame_same_db) simp
  with Some show ?thesis
    by (auto simp: handle_quarantine_or_delete_def Let_def draw_time_def intro!: frame_calls)
qed

lemma frame_blocked: "R w (snd (ingest_blocked E jc op c sz sha rule w))"
  unfolding ingest_blocked_def by (intro frame_calls frame_journal frame_ret)

lemma frame_known: "R w (snd (ingest_known E jc op c sha st w))"
  unfolding ingest_known_def Let_def by (intro frame_calls frame_journal frame_ret)

lemma frame_unknown: "R w (snd (ingest_unknown E jc P op c sha w))"
  unfolding ingest_unknown_def by (intro frame_calls frame_journal frame_ret)

lemma frame_hashed: "R w (snd (ingest_hashed E jc P op c sz w))"
  unfolding ingest_hashed_def
  by (intro frame_calls frame_journal)
    (auto split: option.split intro: frame_blocked frame_known frame_unknown)

lemma frame_process_one: "R w (snd (process_one E jc P c w))"
proof -
  have tick: "R w (w\<lparr>ticks := Suc (ticks w)\<rparr>)" by (rule frame_same_db) simp
  show ?thesis
    unfolding process_one_def Let_def
    by (rule frame_trans [OF tick])
      (auto split: option.split prod.split
        intro!: frame_and_then frame_journal frame_ret frame_quarantine frame_fs_call frame_hashed
          frame_reg_call m_audit)
qed

lemma frame_run_all: "R w (snd (run_all E jc P ics w))"
  by (induction E jc P ics w rule: run_all.induct)
    (auto intro!: frame_and_then frame_process_one frame_ret simp: frame_refl)

end

locale ingest_methods = candidate_methods R D for R and D +
  assumes m_terminal: "D d (snd (append_ingest_terminal_event now run n account oid sha' action reason actor d))"
    and m_pair: "D d (snd (upsert_live_photo_pair now pid account stem ph vi st d))"
begin

lemma frame_pair_step: "R w (snd (pair_step E h shas c q w))"
proof -
  have tick: "R w (w\<lparr>ticks := Suc (ticks w)\<rparr>)" by (rule frame_same_db) simp
  show ?thesis
    unfolding pair_step_def draw_time_def
    by (auto split: option.split prod.split sum.split simp: frame_refl tick
        intro!: frame_trans [OF tick] frame_and_then frame_reg_call m_pair frame_ret)
qed

lemma frame_finish_all: "R w (snd (finish_all E h run n shas q rs w))"
proof (induction E h run n shas q rs w rule: finish_all.induct)
  case (2 E h run n shas q i c oc rs w)
  show ?case
    unfolding finish_all.simps Let_def
    by (intro frame_and_then frame_pair_step frame_reg_call m_terminal 2(1)) auto
qed (simp add: frame_refl)

lemma frame_process_batch: "R w (snd (process_batch E jc P cs v wc sa h w))"
proof -
  have tick: "R w (snd (lift_res r (w\<lparr>ticks := n\<rparr>)))" for r :: "'a res" and n and w :: world
    by (rule frame_same_db) simp
  show ?thesis
    unfolding process_batch_def Let_def
    by (intro frame_and_then frame_guard frame_lift_res tick frame_run_all frame_finish_all frame_ret)
qed

end

interpretation gi: ingest_methods wingest_frame ingest_frame
  by unfold_locales (rule frame_intros; simp)+

interpretation gk: ingest_methods wf_kept "\<lambda>d d'. wf_db d \<longrightarrow> wf_db d'"
  by unfold_locales (intro impI inv_intros; assumption)+

text \<open>
  No batch of staged candidates ever makes a file accepted, adds an acceptance record, drops
  a file record or removes an audit row: whatever the candidates, the configuration and the
  failures on the way, what is accepted afterwards was accepted before.
\<close>

theorem process_batch_never_accepts:
  "no_new_accepted (db w) (db (snd (process_batch E jc P cs version 1 size_aware h w))) \<and>
   audit_extends (db w) (db (snd (process_batch E jc P cs version 1 size_aware h w))) \<and>
   records_kept (db w) (db (snd (process_batch E jc P cs version 1 size_aware h w)))"
  using gi.frame_process_batch [of w E jc P cs version 1 size_aware h]
  by (simp add: wingest_frame_def ingest_frame_def db_frame_def)

subsection \<open>The decision for one candidate\<close>

abbreviation journalled :: "env \<Rightarrow> int option \<Rightarrow> string \<Rightarrow> string \<Rightarrow> staged_candidate \<Rightarrow> path option
    \<Rightarrow> string option \<Rightarrow> world \<Rightarrow> world" where
  "journalled E jc op ph c dest sha w \<equiv> snd (ingest_journal_append E jc op ph c dest sha w)"

lemma journal_step [simp]:
  "and_then (ingest_journal_append E jc op ph c dest sha w) k = k () (journalled E jc op ph c dest sha w)"
  by (simp add: ingest_journal_append_def split: option.split)

lemma journalled_frame [simp]:
  "db (journalled E jc op ph c dest sha w) = db w"
  "fsys (journalled E jc op ph c dest sha w) = fsys w"
  by (simp_all add: ingest_journal_append_def split: option.split)

lemma reg_step:
  assumes "m (now_iso E w) (db w) = (Inr x, d)"
  shows "and_then (reg_call E m w) k = k x (w\<lparr>db := d, ticks := Suc (ticks w)\<rparr>)"
  using assms by (simp add: reg_call_def)

lemma unlink_reg:
  assumes "fs_node f p = Some (Reg c t)"
  shows "fs_unlink p f = (Inr (), key_del (fs_key f p) f)"
  using assms by (simp add: fs_unlink_def key_unlink_def fs_node_def)

lemma unlink_step:
  assumes "fs_node (fsys w) p = Some (Reg c t)"
  shows "and_then (fs_call (fs_unlink p) w) k = k () (w\<lparr>fsys := key_del (fs_key (fsys w) p) (fsys w)\<rparr>)"
  using unlink_reg [OF assms] by (simp add: fs_call_def)

lemma node_after_unlink:
  assumes "fs_node f p = Some (Reg c t)"
  shows "fs_node (key_del (fs_key f p) f) p = None"
  using assms node_at_Some_Reg [of f "fs_key f p" c t] by (simp add: fs_node_def)

text \<open>The operation id and the world in which a candidate reaches the hash.\<close>

definition op_id_of :: "env \<Rightarrow> staged_candidate \<Rightarrow> world \<Rightarrow> string" where
  "op_id_of E c w = sc_account_name c @ '':'' @ sc_onedrive_id c @ '':'' @ take 12 (uuid_hex E (ticks w))"

definition reaches_hash :: "ingest_params \<Rightarrow> staged_candidate \<Rightarrow> world \<Rightarrow> string \<Rightarrow> int \<Rightarrow> bool" where
  "reaches_hash P c w bytes t \<longleftrightarrow>
     fs_node (fsys w) (sc_staging_path c) = Some (Reg bytes t) \<and>
     (sc_size_bytes c = None \<or> sc_size_bytes c = Some (int (length bytes)) \<or> \<not> ip_pre_hash_size_verify P) \<and>
     (bytes \<noteq> [] \<or> ip_zero_byte_policy P = ''allow'') \<and> prefilter_status (db w) c = None"

lemma process_one_reaches:
  assumes "reaches_hash P c w bytes t"
  shows "\<exists>w1. process_one E jc P c w = ingest_hashed E jc P (op_id_of E c w) c (int (length bytes)) w1 \<and>
    db w1 = db w \<and> fsys w1 = fsys w"
  using assms
  by (intro exI [of _ "journalled E jc (op_id_of E c w) ''ingest_started'' c None None (w\<lparr>ticks := Suc (ticks w)\<rparr>)"])
    (auto simp: process_one_def reaches_hash_def op_id_of_def Let_def fs_exists_def fs_size_def)

lemma hashed_branches:
  assumes "fs_node (fsys w) (sc_staging_path c) = Some (Reg bytes t)"
  shows "\<exists>w1. ingest_hashed E jc P op c sz w =
      (case match_block_rule E (db w) (sc_original_filename c) of
         Some rule \<Rightarrow> ingest_blocked E jc op c sz (sha256 E bytes) rule w1
       | None \<Rightarrow>
           (case get_file (db w) (sha256 E bytes) of
              None \<Rightarrow> ingest_unknown E jc P op c (sha256 E bytes) w1
            | Some r \<Rightarrow> ingest_known E jc op c (sha256 E bytes) (f_status r) w1)) \<and>
    db w1 = db w \<and> fsys w1 = fsys w"
proof -
  have "fs_call (sha256_file (sha256 E) (sc_staging_path c)) w = (Inr (sha256 E bytes), w)"
    using assms by (simp add: fs_call_def sha256_file_def fs_read_def)
  then show ?thesis
    by (intro exI [of _ "journalled E jc op ''hash_completed'' c None (Some (sha256 E bytes)) w"])
      (simp add: ingest_hashed_def split: option.split)
qed

lemma known_run:
  assumes "fs_node (fsys w) (sc_staging_path c) = Some (Reg bytes t)"
    and "get_file (db w) sha = Some r" and "validate_status (f_status r)"
  shows "\<exists>w'. ingest_known E jc op c sha (f_status r) w =
      (Inr (mk_outcome c (''discard_'' @ f_status r) (Some sha) None False), w') \<and>
    status_of (db w') = status_of (db w) \<and> get_file (db w') = get_file (db w) \<and>
    fs_node (fsys w') (sc_staging_path c) = None"
proof -
  let ?d = "\<lambda>now. add_audit (Some sha) (Some (sc_account_name c)) (''discard_'' @ f_status r)
      (Some ''known_hash'') None ''ingest_pipeline'' now
      (put_origin (sc_account_name c) (sc_onedrive_id c) sha (Some (sc_relative_path c)) now
        (put_metadata (sc_account_name c) (sc_onedrive_id c) (int (length bytes)) (sc_modified_time c) sha now (db w)))"
  have fin: "finalize_known_ingest now sha (f_status r) (sc_account_name c) (sc_onedrive_id c)
      (sc_relative_path c) (sc_modified_time c) (fs_size (fsys w) (sc_staging_path c)) ''ingest_pipeline'' (db w) =
      (Inr (), ?d now)" for now
    using assms by (simp add: finalize_known_ingest_def validate_status_def file_known_get fs_size_def)
  show ?thesis
    using node_after_unlink [OF assms(1)]
    by (simp add: ingest_known_def Let_def unlink_step [OF assms(1)] reg_call_def fin)
qed


text \<open>A small deployment for the concrete instances: one staged file and a registry.\<close>

definition demo_cand :: staged_candidate where
  "demo_cand = \<lparr>sc_account_name = ''ann'', sc_onedrive_id = ''i1'', sc_original_filename = ''a.jpg'',
     sc_relative_path = ''/a.jpg'', sc_modified_time = ''2024-05-01T00:00:00Z'', sc_size_bytes = Some 3,
     sc_staging_path = path_of ''/s/x''\<rparr>"

definition demo_params :: ingest_params where
  "demo_params = \<lparr>ip_pending_root = path_of ''/p'', ip_storage_template = ''{sha8}-{original}'',
     ip_staging_on_same_pool = True, ip_pre_hash_size_verify = True, ip_zero_byte_policy = ''allow'',
     ip_quarantine_dir = None, ip_collision_max_attempts = 10\<rparr>"

definition demo_world :: "registry_db \<Rightarrow> world" where
  "demo_world d = \<lparr>db = d, fsys = \<lparr>nodes = [([''s''], Dir), ([''s'', ''x''], Reg ''abc'' 0)], fs_cwd = [],
     fs_dev = (\<lambda>_. 0)\<rparr>, jfiles = \<lparr>j_active = None, j_rotated = None\<rparr>, ticks = 0\<rparr>"

text \<open>A registry that knows the content \<open>abc\<close> from another item, as accepted.\<close>

definition known_db :: registry_db where
  "known_db = snd (transition_status ''t1'' ''abc'' ''accepted'' ''r'' ''op''
     (snd (finalize_unknown_ingest ''t0'' ''abc'' 3 ''b.jpg'' ''/p/b.jpg'' ''bob'' ''i9'' ''/b.jpg'' ''m'' ''ingest'' None empty_db)))"

lemma wf_known_db: "wf_db known_db"
  unfolding known_db_def by (intro inv_intros wf_empty_db)

lemma known_db_status: "status_of known_db ''abc'' = Some ''accepted''"
  unfolding known_db_def
  by (simp add: transition_status_def guard_def finalize_unknown_ingest_def Let_def status_of_update_status)

lemma known_db_get: "\<exists>r. get_file known_db ''abc'' = Some r \<and> f_status r = ''accepted''"
  using known_db_status by (auto simp: fr.status_of_def)

lemma demo_reaches:
  assumes "prefilter_status d demo_cand = None"
  shows "reaches_hash demo_params demo_cand (demo_world d) ''abc'' 0"
  using assms
  by (simp add: reaches_hash_def demo_world_def demo_cand_def demo_params_def fs_node_def fs_key_def
      node_at_def path_of_def resolve_def)

lemma known_db_tables:
  "tbl_get (metadata_index known_db) (''ann'', ''i1'') = None" "blocked_rules known_db = []"
  by (simp_all add: known_db_def transition_status_def guard_def finalize_unknown_ingest_def
      Let_def empty_db_def add_audit_def put_file_def put_origin_def put_metadata_def update_file_def
      file_known_def tbl_upsert_def)

lemma demo_prefilter:
  "tbl_get (metadata_index d) (''ann'', ''i1'') = None \<Longrightarrow> prefilter_status d demo_cand = None"
  by (simp add: prefilter_status_def demo_cand_def)


subsection \<open>Block rules\<close>

lemma blocked_run:
  assumes "fs_node (fsys w) (sc_staging_path c) = Some (Reg bytes t)"
  shows "\<exists>w'. ingest_blocked E jc op c sz sha rule w =
      (Inr (mk_outcome c ''discard_rejected'' (Some sha) None False), w') \<and>
    status_of (db w') = (status_of (db w))(sha \<mapsto> ''rejected'') \<and>
    (\<exists>r. get_file (db w') sha = Some r \<and> f_current_path r = None) \<and>
    fsys w' = key_del (fs_key (fsys w) (sc_staging_path c)) (fsys w)"
  using fr.look_create_same [of sha sz "''rejected''" "Some (sc_original_filename c)" None "now_iso E w" "db w"]
  by (simp add: ingest_blocked_def unlink_step [OF assms] reg_call_def create_or_update_file_def
      upsert_metadata_index_def upsert_file_origin_def append_audit_event_def guard_def) 
    (auto simp: now_iso_def)

lemma reaches_blocked:
  assumes "reaches_hash P c w bytes t"
    and "match_block_rule E (db w) (sc_original_filename c) = Some rule"
  shows "\<exists>w2. process_one E jc P c w =
      ingest_blocked E jc (op_id_of E c w) c (int (length bytes)) (sha256 E bytes) rule w2 \<and>
    db w2 = db w \<and> fsys w2 = fsys w \<and> fs_node (fsys w) (sc_staging_path c) = Some (Reg bytes t)"
proof -
  obtain w1 where w1: "process_one E jc P c w = ingest_hashed E jc P (op_id_of E c w) c (int (length bytes)) w1"
    "db w1 = db w" "fsys w1 = fsys w" using process_one_reaches [OF assms(1)] by blast
  have node: "fs_node (fsys w1) (sc_staging_path c) = Some (Reg bytes t)"
    using assms(1) w1 by (simp add: reaches_hash_def)
  with hashed_branches [OF node, of E jc P "op_id_of E c w" "int (length bytes)"] w1 assms(2) show ?thesis by auto
qed


definition blocking_db :: registry_db where
  "blocking_db = known_db\<lparr>blocked_rules := [\<lparr>br_id = 1, br_pattern = ''a.jpg'', br_rule_type = ''filename'',
     br_reason = None, br_enabled = True, br_created_at = ''t'', br_updated_at = ''t''\<rparr>], blocked_seq := 1\<rparr>"


subsection \<open>New content\<close>

definition good_root :: "path \<Rightarrow> bool" where
  "good_root p \<longleftrightarrow> plain p \<and> wf_path p \<and> segs p \<noteq> []"

lemma good_root_join:
  assumes "good_root root" "\<not> is_absolute rel" "''..'' \<notin> set (segs rel)" "wf_path rel"
  shows "good_root (joinpath root rel)"
  using assms by (auto simp: good_root_def plain_def joinpath_def wf_path_def)

lemma good_root_chosen:
  assumes "good_root base" "choose_collision_safe_destination_with_threshold base mx f = Inr dest"
  shows "good_root dest \<and> \<not> fs_exists f dest"
proof -
  have "good_root (collision_candidate base i)" for i
    using assms(1) candidate_name_ok [of base i]
    by (auto simp: good_root_def candidate_path plain_def wf_path_def dest: in_set_butlastD)
  with choose_fresh [OF assms(2)] assms(1) show ?thesis by auto
qed

lemma commit_within:
  assumes "commit_staging_to_accepted hash xf src dst same (Some root) f = (Inr x, f')"
    and "good_root dst" "good_root root"
  shows "prefix (segs root) (segs dst)"
proof -
  have "within_root_text (fs_key f dst) (fs_key f root)"
    using assms(1)
    by (auto simp: commit_staging_to_accepted_def guard_eq_Inr and_then_eq_Inr ensure_within_root_def)
  with assms(2,3) show ?thesis
    using within_root_text_iff [of "segs root" "segs dst"]
    by (simp add: good_root_def wf_path_def fs_key_def)
qed

text \<open>How new content may end: taken over below the pending root, or left exactly where it was.\<close>

definition taken_over ::
  "env \<Rightarrow> ingest_params \<Rightarrow> staged_candidate \<Rightarrow> string \<Rightarrow> int \<Rightarrow> world \<Rightarrow> ingest_outcome res \<times> world \<Rightarrow> bool" where
  "taken_over E P c sha t w rw =
     (case rw of
        (Inl e, w') \<Rightarrow> db w' = db w \<and>
          fs_node (fsys w') (sc_staging_path c) = fs_node (fsys w) (sc_staging_path c)
      | (Inr oc, w') \<Rightarrow>
          (\<exists>dest bytes' r. oc = mk_outcome c ''pending'' (Some sha) (Some dest) False \<and>
             prefix (segs (ip_pending_root P)) (segs dest) \<and>
             \<not> fs_exists (fsys w) dest \<and>
             fs_node (fsys w') dest = Some (Reg bytes' t) \<and> sha256 E bytes' = sha \<and>
             fs_node (fsys w') (sc_staging_path c) = None \<and>
             status_of (db w') = (status_of (db w))(sha \<mapsto> ''pending'') \<and>
             get_file (db w') sha = Some r \<and> f_current_path r = Some (path_str dest)))"

lemma after_commit_run:
  "\<exists>w'. and_then (ingest_journal_append E jc op ''storage_committed'' c (Some dest) (Some sha) w) (\<lambda>_ w.
     and_then (reg_call E (\<lambda>now. finalize_unknown_ingest now sha (fs_size (fsys w) dest)
         (sc_original_filename c) (path_str dest) (sc_account_name c) (sc_onedrive_id c)
         (sc_relative_path c) (sc_modified_time c) ''ingest_pipeline'' None) w) (\<lambda>_ w.
     and_then (ingest_journal_append E jc op ''registry_persisted'' c (Some dest) (Some sha) w) (\<lambda>_ w.
     (Inr (mk_outcome c ''pending'' (Some sha) (Some dest) False), w)))) =
     (Inr (mk_outcome c ''pending'' (Some sha) (Some dest) False), w') \<and> fsys w' = fsys w \<and>
     status_of (db w') = (status_of (db w))(sha \<mapsto> ''pending'') \<and>
     (\<exists>r. get_file (db w') sha = Some r \<and> f_current_path r = Some (path_str dest))"
  by (simp add: reg_call_def finalize_unknown_ingest_def Let_def)
    (use fr.look_create_same in blast)

lemma unknown_run:
  assumes node: "fs_node (fsys w) (sc_staging_path c) = Some (Reg bytes t)"
    and root: "good_root (ip_pending_root P)" and lint: "lint_storage_template (ip_storage_template P) = []"
    and hex: "hex_like (sha256 E bytes)"
  shows "taken_over E P c (sha256 E bytes) t w (ingest_unknown E jc P op c (sha256 E bytes) w)"
proof -
  let ?sha = "sha256 E bytes"
  obtain rel where rel: "render_storage_relative_path (from_iso E) (ym_of E (clock E (ticks w)))
      (ip_storage_template P) ?sha (sc_original_filename c) (sc_modified_time c) = Inr rel"
    "\<not> is_absolute rel" "''..'' \<notin> set (segs rel)" "wf_path rel"
    using render_relative [OF lint hex] by blast
  let ?base = "joinpath (ip_pending_root P) rel"
  show ?thesis
  proof (cases "choose_collision_safe_destination_with_threshold ?base (ip_collision_max_attempts P) (fsys w)")
    case (Inl e)
    with rel show ?thesis by (simp add: ingest_unknown_def lift_res_def taken_over_def)
  next
    case (Inr dest)
    have dest: "good_root dest" "\<not> fs_exists (fsys w) dest"
      using good_root_chosen [OF good_root_join [OF root rel(2-4)] Inr] by auto
    have ne: "fs_key (fsys w) (sc_staging_path c) \<noteq> fs_key (fsys w) dest"
      using node dest(2) by (auto simp: fs_exists_def fs_node_def)
    obtain x f' where cm: "commit_staging_to_accepted (sha256 E) (xfer E) (sc_staging_path c) dest
        (ip_staging_on_same_pool P) (Some (ip_pending_root P)) (fsys w) = (x, f')" by fastforce
    have mv: "moved (sha256 E) (ip_staging_on_same_pool P) (sc_staging_path c) dest (fsys w) (x, f')"
      using commit_moved [OF node _ _ ne] dest(1) cm by (metis good_root_def)
    show ?thesis
    proof (cases x)
      case (Inl e)
      with mv cm rel Inr show ?thesis
        by (simp add: ingest_unknown_def lift_res_def taken_over_def fs_call_def moved_def)
    next
      case x: (Inr cr)
      obtain bytes' where b: "fs_node f' dest = Some (Reg bytes' t)" "sha256 E bytes' = ?sha"
        "fs_node f' (sc_staging_path c) = None"
        using mv x node by (auto simp: moved_def split: option.splits node.splits)
      have below: "prefix (segs (ip_pending_root P)) (segs dest)"
        using commit_within [OF _ dest(1) root] cm x by blast
      show ?thesis
        using after_commit_run [of E jc op c dest ?sha "w\<lparr>fsys := f'\<rparr>"] b below dest rel Inr cm x
        by (auto simp: ingest_unknown_def lift_res_def taken_over_def fs_call_def intro!: exI [of _ dest])
    qed
  qed
qed



subsection \<open>The batch\<close>

definition terminal_kept :: "world \<Rightarrow> world \<Rightarrow> bool" where
  "terminal_kept w w' \<longleftrightarrow> ingest_terminal_audit (db w') = ingest_terminal_audit (db w)"

interpretation tks: step_frame terminal_kept
  by unfold_locales (auto simp: terminal_kept_def)

interpretation tk: candidate_methods terminal_kept
  "\<lambda>d d'. ingest_terminal_audit d' = ingest_terminal_audit d"
  by unfold_locales
    (auto simp: terminal_kept_def create_or_update_file_def finalize_unknown_ingest_def finalize_known_ingest_def
      upsert_metadata_index_def upsert_file_origin_def append_audit_event_def guard_def Let_def
      put_file_def put_metadata_def put_origin_def add_audit_def)

lemma run_all_shape:
  "run_all E jc P ics w = (Inr rs, w') \<Longrightarrow> map (\<lambda>(i, c, oc). (i, c)) rs = ics"
proof (induction E jc P ics w arbitrary: rs w' rule: run_all.induct)
  case (2 E jc P i c ics w)
  then show ?case by (auto simp: and_then_eq_Inr)
qed simp

lemma fst_key_map: "map fst rs = map fst (map (\<lambda>(i, c, oc). (i, c)) rs)"
  by auto

lemma sorted_pairs:
  assumes "set ps = set (enumerate 0 cs)" "sorted (map fst ps)" "distinct (map fst ps)"
  shows "ps = enumerate 0 cs"
proof (rule map_sorted_distinct_set_unique [where f = fst])
  show "inj_on fst (set ps \<union> set (enumerate 0 cs))"
    using assms(1) by (auto simp: inj_on_def in_set_enumerate_eq)
qed (use assms in auto)

lemma schedule_mset: "mset (schedule sa cs) = mset (enumerate 0 cs)"
  by (simp add: schedule_def Let_def)

lemma ordered_results:
  assumes "map (\<lambda>(i, c, oc). (i, c)) rs = schedule sa cs"
  shows "map (\<lambda>(i, c, oc). (i, c)) (sort_key fst rs) = enumerate 0 cs"
proof (rule sorted_pairs)
  let ?g = "\<lambda>(i, c, oc). (i, c)"
  have "mset (map ?g (sort_key fst rs)) = mset (map ?g rs)" by simp
  also have "\<dots> = mset (enumerate 0 cs)" using assms by (simp add: schedule_mset)
  finally have m: "mset (map ?g (sort_key fst rs)) = mset (enumerate 0 cs)" .
  then show "set (map ?g (sort_key fst rs)) = set (enumerate 0 cs)" by (metis set_mset_mset)
  have eq: "map fst (map ?g (sort_key fst rs)) = map fst (sort_key fst rs)" by auto
  show "sorted (map fst (map ?g (sort_key fst rs)))" unfolding eq by simp
  have "mset (map fst (map ?g (sort_key fst rs))) = mset (map fst (enumerate 0 cs))"
    using m by (metis mset_map)
  then show "distinct (map fst (map ?g (sort_key fst rs)))"
    by (metis distinct_upt map_fst_enumerate mset_eq_imp_distinct_iff)
qed

lemma zip_parts: "zip (map (fst \<circ> snd) rs) (map (snd \<circ> snd) rs) = map snd rs"
  by (induction rs) auto

text \<open>The row a finished candidate leaves in the terminal log, without its id and timestamp.\<close>

definition terminal_summary :: "terminal_row \<Rightarrow> string \<times> int \<times> string \<times> string \<times> string option \<times> string" where
  "terminal_summary r = (t_batch_run_id r, t_sequence_no r, t_account r, t_onedrive_id r, t_sha256 r, t_action r)"

definition summary_for :: "string \<Rightarrow> nat \<Rightarrow> staged_candidate \<Rightarrow> ingest_outcome
    \<Rightarrow> string \<times> int \<times> string \<times> string \<times> string option \<times> string" where
  "summary_for run n c oc = (run, int n, sc_account_name c, sc_onedrive_id c, oc_sha256 oc, oc_action oc)"

lemma pair_step_terminal: "ingest_terminal_audit (db (snd (pair_step E h shas c q w))) = ingest_terminal_audit (db w)"
  by (auto simp: pair_step_def draw_time_def reg_call_def upsert_live_photo_pair_def guard_def and_then_def
      split: option.split prod.split sum.split)

lemma finish_all_rows:
  "finish_all E h run n shas q rs w = (Inr u, w') \<Longrightarrow>
   \<exists>rows. ingest_terminal_audit (db w') = ingest_terminal_audit (db w) @ rows \<and>
     map terminal_summary rows =
       map (\<lambda>(k, i, c, oc). summary_for run k c oc) (enumerate (Suc n) rs)"
proof (induction rs arbitrary: n shas q w)
  case (Cons r rs)
  obtain i c oc where r: "r = (i, c, oc)" by (cases r) auto
  let ?shas = "case oc_sha256 oc of None \<Rightarrow> shas | Some s \<Rightarrow> AList.update (sc_onedrive_id c) s shas"
  from Cons.prems obtain q1 w1 k w2 where
    p: "pair_step E h ?shas c q w = (Inr q1, w1)"
    and e: "reg_call E (\<lambda>now. append_ingest_terminal_event now run (int (Suc n)) (sc_account_name c)
        (sc_onedrive_id c) (oc_sha256 oc) (oc_action oc) (Some (terminal_reason_from_outcome oc)) ''ingest_pipeline'') w1 = (Inr k, w2)"
    and f: "finish_all E h run (Suc n) ?shas q1 rs w2 = (Inr u, w')"
    by (auto simp: r and_then_eq_Inr Let_def)
  have "ingest_terminal_audit (db w1) = ingest_terminal_audit (db w)"
    using pair_step_terminal [of E h ?shas c q w] p by simp
  then obtain row where "ingest_terminal_audit (db w2) = ingest_terminal_audit (db w) @ [row]"
    "terminal_summary row = summary_for run (Suc n) c oc"
    using e by (auto simp: reg_call_def append_ingest_terminal_event_def terminal_summary_def summary_for_def)
  with Cons.IH [OF f] show ?case by (auto simp: r)
qed simp

text \<open>
  A batch that succeeds has exactly one outcome per candidate, in the order of the input
  although they are processed largest first, and the terminal log grows by exactly one row
  per candidate in that order, numbered from 1, with the account, item, hash and action of its
  outcome.
\<close>

theorem batch_outcomes_in_input_order:
  assumes "process_batch E jc P cs version 1 size_aware h w = (Inr br, w')"
  shows "length (bt_outcomes br) = length cs \<and>
    (\<exists>rows run. ingest_terminal_audit (db w') = ingest_terminal_audit (db w) @ rows \<and>
       map terminal_summary rows =
         map (\<lambda>(k, c, oc). summary_for run k c oc) (enumerate 1 (zip cs (bt_outcomes br))))"
proof -
  from assms obtain run w0 rs w1 where
    run: "run_all E jc P (schedule size_aware cs) w0 = (Inr rs, w1)" and w0: "db w0 = db w"
    and fin: "finish_all E h run 0 [] [] (sort_key fst rs) w1 = (Inr (), w')"
    and br: "br = batch_result (map (snd \<circ> snd) (sort_key fst rs))"
    by (auto simp: process_batch_def and_then_eq_Inr guard_eq_Inr Let_def lift_res_def)
  let ?rs = "sort_key fst rs"
  have "map (\<lambda>(i, c, oc). (i, c)) ?rs = enumerate 0 cs"
    using ordered_results [OF run_all_shape [OF run]] .
  then have cs: "map (fst \<circ> snd) ?rs = cs"
    by (metis (mono_tags, lifting) map_map map_snd_enumerate comp_apply case_prod_beta snd_conv map_cong)
  have oc: "bt_outcomes br = map (snd \<circ> snd) ?rs" by (simp add: br batch_result_def)
  have z: "zip cs (bt_outcomes br) = map snd ?rs"
    unfolding oc cs [symmetric] by (rule zip_parts)
  have "ingest_terminal_audit (db w1) = ingest_terminal_audit (db w)"
    using tk.frame_run_all [of w0 E jc P "schedule size_aware cs"] run w0 by (simp add: terminal_kept_def)
  with finish_all_rows [OF fin] obtain rows where
    "ingest_terminal_audit (db w') = ingest_terminal_audit (db w) @ rows"
    "map terminal_summary rows = map (\<lambda>(k, i, c, oc). summary_for run k c oc) (enumerate 1 ?rs)" by auto
  moreover have "map (\<lambda>(k, i, c, oc). summary_for run k c oc) (enumerate 1 ?rs) =
      map (\<lambda>(k, c, oc). summary_for run k c oc) (enumerate 1 (map snd ?rs))"
    by (simp add: enumerate_map_upt enumerate_eq_zip zip_map2 case_prod_beta)
  moreover have "length (bt_outcomes br) = length cs" using cs oc by (metis length_map)
  ultimately show ?thesis unfolding z by auto
qed

definition demo_batch :: "ingest_batch_result res \<times> world" where
  "demo_batch = process_batch pair_env None demo_params [demo_cand, demo_cand] 1 1 True None (demo_world empty_db)"

lemma demo_batch_ok: "\<exists>br. fst demo_batch = Inr br"
proof -
  have "map_sum (\<lambda>_. ()) (\<lambda>_. ()) (fst demo_batch) = Inr ()" by code_simp
  then show ?thesis by (cases "fst demo_batch") auto
qed

theorem batch_outcomes_in_input_order_witness:
  "\<exists>br w'. demo_batch = (Inr br, w') \<and> length (bt_outcomes br) = 2 \<and>
    (\<exists>rows run. ingest_terminal_audit (db w') = ingest_terminal_audit empty_db @ rows \<and>
       map terminal_summary rows =
         map (\<lambda>(k, c, oc). summary_for run k c oc) (enumerate 1 (zip [demo_cand, demo_cand] (bt_outcomes br))))"
proof -
  obtain br w' where b: "demo_batch = (Inr br, w')" using demo_batch_ok by (metis prod.collapse)
  from batch_outcomes_in_input_order [OF b [unfolded demo_batch_def]] b show ?thesis
    by (intro exI [of _ br] exI [of _ w']) (simp add: demo_world_def numeral_2_eq_2)
qed

subsection \<open>Replay of the journal\<close>

definition status_kept :: "world \<Rightarrow> world \<Rightarrow> bool" where
  "status_kept w w' \<longleftrightarrow> status_of (db w') = status_of (db w) \<and> get_file (db w') = get_file (db w)"

interpretation sks: step_frame status_kept
  by unfold_locales (auto simp: status_kept_def)

interpretation sk: audit_methods status_kept
  "\<lambda>d d'. status_of d' = status_of d \<and> get_file d' = get_file d"
  by unfold_locales (auto simp: status_kept_def append_audit_event_def)

definition persisted :: "journal_record list \<Rightarrow> string \<Rightarrow> bool" where
  "persisted rs op \<longleftrightarrow> list_ex (\<lambda>r. j_phase r = ''registry_persisted'') (op_records rs op)"

lemma replay_loop_ops:
  "replay_loop E rs ops w = (Inr out, w') \<Longrightarrow> map fst out = filter (\<lambda>op. \<not> persisted rs op) ops"
proof (induction E rs ops w arbitrary: out w' rule: replay_loop.induct)
  case (2 E rs op ops w)
  show ?case
  proof (cases "persisted rs op")
    case True
    with 2 show ?thesis by (simp add: Let_def persisted_def)
  next
    case False
    then show ?thesis
      using 2(3) 2(2) [OF refl]
      by (auto simp: Let_def persisted_def and_then_eq_Inr case_prod_beta)
  qed
qed simp

text \<open>
  A successful replay reports exactly the operations that have no \<open>registry_persisted\<close> entry,
  in the order of their first entries, empties the active journal, and changes no status and no
  stored path in the registry.
\<close>

theorem replay_reports_unpersisted_operations:
  assumes "replay_interrupted_operations E (Some max_bytes) w = (Inr rep, w')"
  shows "\<exists>rs. read_all (jfiles w) = Inr rs \<and>
    rp_unresolved_op_ids rep = filter (\<lambda>op. \<not> persisted rs op) (op_ids rs) \<and>
    rp_interrupted_total rep = length (rp_unresolved_op_ids rep) \<and>
    read_all (jfiles w') = Inr [] \<and> get_file (db w') = get_file (db w)"
proof -
  from assms obtain rs out w1 where rs: "read_all (jfiles w) = Inr rs"
    and out: "replay_loop E rs (op_ids rs) w = (Inr out, w1)"
    and rep: "rp_unresolved_op_ids rep = map fst out" "rp_interrupted_total rep = length out"
    and w': "w' = w1\<lparr>jfiles := journal_clear (jfiles w1)\<rparr>"
    by (auto simp: replay_interrupted_operations_def and_then_eq_Inr lift_res_def)
  have "get_file (db w1) = get_file (db w)"
    using sk.frame_replay_loop [of w E rs "op_ids rs"] out by (simp add: status_kept_def)
  moreover have "length out = length (map fst out)" by simp
  ultimately show ?thesis
    using rs rep w' replay_loop_ops [OF out] by (auto simp: read_all_def journal_clear_def simp del: length_map)
qed

definition demo_journal :: world where
  "demo_journal = (demo_world empty_db)\<lparr>jfiles := \<lparr>j_active = Some [(Entry (payload_of demo_record), 9)], j_rotated = None\<rparr>\<rparr>"

theorem replay_reports_unpersisted_operations_witness:
  "\<exists>rep w' rs. replay_interrupted_operations pair_env (Some 100) demo_journal = (Inr rep, w') \<and>
    read_all (jfiles demo_journal) = Inr rs \<and>
    rp_unresolved_op_ids rep = filter (\<lambda>op. \<not> persisted rs op) (op_ids rs) \<and>
    get_file (db w') = get_file (db demo_journal)"
proof -
  have "map_sum (\<lambda>_. ()) (\<lambda>_. ()) (fst (replay_interrupted_operations pair_env (Some 100) demo_journal)) = Inr ()"
    by code_simp
  then obtain rep w' where "replay_interrupted_operations pair_env (Some 100) demo_journal = (Inr rep, w')"
    by (cases "replay_interrupted_operations pair_env (Some 100) demo_journal";
        cases "fst (replay_interrupted_operations pair_env (Some 100) demo_journal)") auto
  from replay_reports_unpersisted_operations [OF this] this show ?thesis by blast
qed

lemma two_appends:
  assumes "read_all j = Inr []" "clean_record r1" "clean_record r2"
  shows "\<exists>rs. read_all (journal_append mb r2 (journal_append mb r1 j)) = Inr rs \<and> rs \<noteq> [] \<and> set rs \<subseteq> {r1, r2}"
  using read_append [OF assms(2,1), of mb] read_append [OF assms(3)] by fastforce

lemma op_ids_single:
  assumes "rs \<noteq> []" "\<And>r. r \<in> set rs \<Longrightarrow> j_op_id r = op"
  shows "op_ids rs = [op]" and "op_records rs op = rs"
proof -
  have m: "map j_op_id rs = replicate (length rs) op" using assms(2) by (simp add: map_replicate_const [symmetric])
  have "remdups (replicate (Suc n) op) = [op]" for n by (induction n) auto
  then show "op_ids rs = [op]" using assms(1)
    unfolding op_ids_def m rev_replicate by (cases "length rs") auto
  show "op_records rs op = rs" using assms(2) by (simp add: op_records_def)
qed

lemma replay_nothing_left:
  assumes "j_destination_path r = None" "j_sha256 r = None" "\<not> fs_exists (fsys w) (path_of (j_staging_path r))"
  shows "replay_one E op r w = (Inr (0, 0), w)"
  using assms by (simp add: replay_one_def replay_destination_def quarantine_destination_def)

text \<open>
  An operation that ended properly without reaching the registry (here: the staged file was
  missing) has no \<open>registry_persisted\<close> entry, so the next replay reports it as interrupted.
\<close>

theorem finished_operation_replayed_as_interrupted:
  assumes "read_all (jfiles w) = Inr []" and "\<not> fs_exists (fsys w) (sc_staging_path c)"
    and "wf_path (sc_staging_path c)" and "py_strip (op_id_of E c w) = op_id_of E c w"
  shows "\<exists>w1 rep w2. process_one E (Some mb) P c w = (Inr (mk_outcome c ''missing_staged'' None None False), w1) \<and>
    replay_interrupted_operations E (Some mb) w1 = (Inr rep, w2) \<and>
    rp_interrupted_total rep = 1 \<and> rp_unresolved_op_ids rep = [op_id_of E c w]"
proof -
  let ?op = "op_id_of E c w"
  let ?rec = "\<lambda>ph ts. \<lparr>j_op_id = ?op, j_phase = ph, j_ts = ts, j_account = sc_account_name c,
      j_onedrive_id = sc_onedrive_id c, j_staging_path = path_str (sc_staging_path c),
      j_destination_path = None, j_sha256 = None\<rparr>"
  define w0 where "w0 = w\<lparr>ticks := Suc (ticks w)\<rparr>"
  define w0' where "w0' = journalled E (Some mb) ?op ''ingest_started'' c None None w0"
  define w1 where "w1 = journalled E (Some mb) ?op ''missing_staged'' c None None w0'"
  define t1 where "t1 = now_iso E w0"
  define t2 where "t2 = now_iso E w0'"
  have f: "fsys w1 = fsys w" by (simp add: w1_def w0'_def w0_def)
  have run: "process_one E (Some mb) P c w = (Inr (mk_outcome c ''missing_staged'' None None False), w1)"
    using assms(2) by (simp add: process_one_def Let_def w1_def w0'_def w0_def op_id_of_def)
  have j: "jfiles w1 = journal_append mb (?rec ''missing_staged'' t2) (journal_append mb (?rec ''ingest_started'' t1) (jfiles w))"
    by (simp add: w1_def w0'_def w0_def t1_def t2_def ingest_journal_append_def)
  have "?op \<noteq> []" by (simp add: op_id_of_def)
  then have "clean_record (?rec ph ts)" if "ph \<in> {''missing_staged'', ''ingest_started''}" for ph ts
    using assms(4) that by (auto simp: clean_record_def py_strip_def strip_by_def py_space_def)
  then obtain rs where rs: "read_all (jfiles w1) = Inr rs" "rs \<noteq> []"
    "set rs \<subseteq> {?rec ''ingest_started'' t1, ?rec ''missing_staged'' t2}"
    using two_appends [OF assms(1), of "?rec ''ingest_started'' t1" "?rec ''missing_staged'' t2" mb] j by auto
  have "j_op_id r = ?op" if "r \<in> set rs" for r using rs(3) that by auto
  then have ids: "op_ids rs = [?op]" "op_records rs ?op = rs" using op_ids_single [OF rs(2)] by blast+
  have "last rs \<in> {?rec ''ingest_started'' t1, ?rec ''missing_staged'' t2}"
    using rs(2,3) last_in_set by blast
  then have one: "replay_one E ?op (last rs) w1 = (Inr (0, 0), w1)"
    using assms(2,3) f by (intro replay_nothing_left) auto
  have np: "\<not> list_ex (\<lambda>r. j_phase r = ''registry_persisted'') rs"
    using rs(3) by (auto simp: list_ex_iff)
  have "replay_interrupted_operations E (Some mb) w1 =
      (Inr \<lparr>rp_interrupted_total = 1, rp_quarantined_destinations = 0, rp_removed_staging = 0,
        rp_unresolved_op_ids = [?op]\<rparr>, w1\<lparr>jfiles := journal_clear (jfiles w1)\<rparr>)"
    using rs(1) ids np one by (simp add: replay_interrupted_operations_def lift_res_def)
  with run show ?thesis by (metis replay_report.select_convs(1,4))
qed

definition gone_cand :: staged_candidate where
  "gone_cand = demo_cand\<lparr>sc_staging_path := path_of ''/s/gone''\<rparr>"

theorem finished_operation_replayed_as_interrupted_witness:
  "\<exists>w1 rep w2. process_one pair_env (Some 1000) demo_params gone_cand (demo_world empty_db) =
      (Inr (mk_outcome gone_cand ''missing_staged'' None None False), w1) \<and>
    replay_interrupted_operations pair_env (Some 1000) w1 = (Inr rep, w2) \<and>
    rp_interrupted_total rep = 1 \<and> rp_unresolved_op_ids rep = [op_id_of pair_env gone_cand (demo_world empty_db)]"
proof (rule finished_operation_replayed_as_interrupted)
  show "read_all (jfiles (demo_world empty_db)) = Inr []" by (simp add: demo_world_def read_all_def)
  show "\<not> fs_exists (fsys (demo_world empty_db)) (sc_staging_path gone_cand)"
    by (simp add: demo_world_def gone_cand_def fs_exists_def fs_node_def fs_key_def node_at_def path_of_def resolve_def)
  show "wf_path (sc_staging_path gone_cand)" by (simp add: gone_cand_def)
  show "py_strip (op_id_of pair_env gone_cand (demo_world empty_db)) = op_id_of pair_env gone_cand (demo_world empty_db)"
    by code_simp
qed

lemma quarantine_destination_run:
  assumes "fs_node (fsys w) dest = Some (Reg bytes t)" and "good_root dest"
    and "fs_node (fsys w) (with_suffix dest (path_suffix dest @ ''.orphaned'')) \<noteq> Some Dir"
    and "node_at (fsys w) (butlast (segs dest)) = Some Dir"
  shows "\<exists>w'. quarantine_destination (Some dest) w = (Inr 1, w') \<and> \<not> fs_exists (fsys w') dest \<and>
    db w' = db w"
proof -
  let ?o = "with_suffix dest (path_suffix dest @ ''.orphaned'')" and ?f = "fsys w"
  have segs: "segs dest \<noteq> []" and pl: "plain dest" using assms(2) by (auto simp: good_root_def)
  have o: "?o = with_name dest (path_name dest @ ''.orphaned'')"
    by (simp add: with_suffix_def flip: stem_suffix)
  have "path_name dest @ ''.orphaned'' \<noteq> ''..''" by (cases "path_name dest") auto
  then have "plain ?o" using pl by (auto simp: o plain_def with_name_def dest: in_set_butlastD)
  then have keys: "fs_key ?f ?o = butlast (segs dest) @ [path_name dest @ ''.orphaned'']" "fs_key ?f dest = segs dest"
    using pl by (simp_all add: fs_key_def) (simp add: o with_name_def)
  have ne: "fs_key ?f ?o \<noteq> segs dest"
    unfolding keys using segs by (metis append_self_conv last_snoc list.discI path_name_def)
  have "key_rename (segs dest) (fs_key ?f ?o) ?f =
      (Inr (), key_put (fs_key ?f ?o) (Reg bytes t) (key_del (segs dest) ?f))"
    using assms ne by (auto simp: key_rename_def fs_node_def keys)
  then have "fs_call (fs_rename dest ?o) w = (Inr (), w\<lparr>fsys := key_put (fs_key ?f ?o) (Reg bytes t) (key_del (segs dest) ?f)\<rparr>)"
    by (simp add: fs_call_def fs_rename_def keys(2))
  moreover have "path_name dest \<noteq> []"
    using segs assms(2) by (auto simp: path_name_def good_root_def wf_path_def seg_ok_def)
  moreover have "fs_node (key_put (fs_key ?f ?o) (Reg bytes t) (key_del (segs dest) ?f)) dest = None"
    using ne segs by (simp add: fs_node_def keys(2)) (simp add: keys)
  ultimately show ?thesis
    using assms(1) by (simp add: quarantine_destination_def fs_exists_def)
qed

lemma fs_unlink_absent:
  assumes "\<not> fs_exists f p"
  shows "\<not> fs_exists (snd (fs_unlink q f)) p"
proof -
  obtain r g where u: "key_unlink (fs_key f q) f = (r, g)" by fastforce
  have "fs_key g p = fs_key f p" using u by (metis fs_frame_ops(1) fs_key_cong snd_conv)
  with st.rm_cases [OF u] assms u show ?thesis
    by (auto simp: fs_unlink_def fs_exists_def fs_node_def)
qed

definition absent :: "path \<Rightarrow> world \<Rightarrow> bool" where
  "absent p w \<longleftrightarrow> \<not> fs_exists (fsys w) p"

lemma absent_steps:
  "absent p w \<Longrightarrow> absent p (snd (fs_call (fs_unlink q) w))"
  "absent p w \<Longrightarrow> absent p (snd (reg_call E m w))"
  by (simp_all add: absent_def fsys_fs_call fs_unlink_absent)

lemma replay_one_absent:
  assumes "quarantine_destination (replay_destination r) w = (Inr n, w1)" and "absent p w1"
  shows "absent p (snd (replay_one E op r w))"
  using assms unfolding replay_one_def Let_def
  by (auto intro!: and_then_inv [where P = "absent p"] absent_steps split: option.split)


text \<open>
  The world after a crash between the registry commit and the last journal line: the content is
  stored and registered, and the latest journal entry of the operation is \<open>storage_committed\<close>.
\<close>

definition crash_dest :: path where
  "crash_dest = Path True [''p'', ''abc-a.jpg'']"

definition crash_record :: journal_record where
  "crash_record = \<lparr>j_op_id = ''ann:i1:0'', j_phase = ''storage_committed'', j_ts = ''t'', j_account = ''ann'',
     j_onedrive_id = ''i1'', j_staging_path = ''/s/x'', j_destination_path = Some ''/p/abc-a.jpg'',
     j_sha256 = Some ''abc''\<rparr>"

definition crash_world :: world where
  "crash_world = \<lparr>db = snd (finalize_unknown_ingest ''t'' ''abc'' 3 ''a.jpg'' ''/p/abc-a.jpg'' ''ann'' ''i1'' ''/a.jpg''
       ''m'' ''ingest_pipeline'' None empty_db),
     fsys = \<lparr>nodes = [([''p''], Dir), ([''p'', ''abc-a.jpg''], Reg ''abc'' 0)], fs_cwd = [], fs_dev = (\<lambda>_. 0)\<rparr>,
     jfiles = \<lparr>j_active = Some [(Entry (payload_of crash_record), 200)], j_rotated = None\<rparr>, ticks = 0\<rparr>"

lemma crash_db:
  "\<exists>r. get_file (db crash_world) ''abc'' = Some r \<and> f_current_path r = Some (path_str crash_dest) \<and> f_status r = ''pending''"
  by (simp add: crash_world_def finalize_unknown_ingest_def Let_def get_file_put_file crash_dest_def path_str_def
      split: option.split)

lemma crash_journal:
  "read_all (jfiles crash_world) = Inr [crash_record]" "op_ids [crash_record] = [''ann:i1:0'']"
  "\<not> persisted [crash_record] ''ann:i1:0''"
  "replay_destination (last (op_records [crash_record] ''ann:i1:0'')) = Some crash_dest"
proof -
  have "clean_record crash_record" by code_simp
  then show "read_all (jfiles crash_world) = Inr [crash_record]"
    by (simp add: crash_world_def read_all_def parse_payload)
  show "op_ids [crash_record] = [''ann:i1:0'']" "\<not> persisted [crash_record] ''ann:i1:0''"
    "replay_destination (last (op_records [crash_record] ''ann:i1:0'')) = Some crash_dest"
    by (simp_all add: op_ids_def persisted_def op_records_def replay_destination_def crash_record_def
        crash_dest_def path_of_def)
qed

lemma crash_files:
  "fs_node (fsys crash_world) crash_dest = Some (Reg ''abc'' 0)"
  "node_at (fsys crash_world) (butlast (segs crash_dest)) = Some Dir"
  "fs_node (fsys crash_world) (with_suffix crash_dest (path_suffix crash_dest @ ''.orphaned'')) \<noteq> Some Dir"
  by (simp_all add: crash_world_def crash_dest_def fs_node_def fs_key_def resolve_def node_at_def with_suffix_def
      with_name_def path_stem_def path_suffix_def path_name_def name_split_def)


end
