(* ===== verification/Reject_Flow.thy ===== *)
theory Reject_Flow
  imports Ingest_Props
begin

section \<open>Operator decisions (\<open>reject.py\<close>)\<close>

text \<open>
  Reject, accept, purge and the trash directory, on the \<open>world\<close>.  \<open>app_config\<close> has the fields of
  \<open>AppConfig.core\<close> the flows read.  An exception of the storage check that the source converts
  into a \<open>RejectFlowError\<close> is converted here too.
\<close>

record app_config =
  cf_pending_path :: path
  cf_accepted_path :: path
  cf_rejected_path :: path
  cf_trash_path :: path
  cf_storage_template :: string
  cf_accepted_storage_template :: string

record reject_result =
  rj_sha256 :: string
  rj_action :: string
  rj_removed_paths :: "string list"

record trash_process_result =
  tr_processed_files :: nat
  tr_rejected_files :: nat
  tr_noop_files :: nat
  tr_unknown_files :: nat
  tr_removed_paths :: "string list"

record accept_result =
  al_sha256 :: string
  al_action :: string
  al_destination_path :: string

record purge_result =
  pg_sha256 :: string
  pg_action :: string
  pg_purged_path :: "string option"

subsection \<open>Helpers\<close>

definition db_call :: "(registry_db \<Rightarrow> 'a res \<times> registry_db) \<Rightarrow> world \<Rightarrow> 'a res \<times> world" where
  "db_call m w = (case m (db w) of (r, d) \<Rightarrow> (r, w\<lparr>db := d\<rparr>))"

text \<open>\<open>x or default\<close> for an optional string, and \<open>dict.fromkeys\<close> as a removal of duplicates.\<close>

definition or_default :: "string option \<Rightarrow> string \<Rightarrow> string" where
  "or_default x d = (case x of None \<Rightarrow> d | Some s \<Rightarrow> if s = [] then d else s)"

definition dict_fromkeys :: "'a list \<Rightarrow> 'a list" where
  "dict_fromkeys xs = rev (remdups (rev xs))"

definition normalize_sha :: "string \<Rightarrow> string" where
  "normalize_sha s = py_lower (py_strip s)"

definition valid_sha :: "string \<Rightarrow> bool" where
  "valid_sha s \<longleftrightarrow> length s = 64 \<and> list_all (\<lambda>c. c \<in> set ''0123456789abcdef'') s"

definition is_within_root :: "fs \<Rightarrow> path \<Rightarrow> path \<Rightarrow> bool" where
  "is_within_root f p root = (case ensure_within_root p root f of (Inl e, _) \<Rightarrow> False | (Inr _, _) \<Rightarrow> True)"

definition require_path_within_root :: "path \<Rightarrow> path \<Rightarrow> string \<Rightarrow> world \<Rightarrow> unit res \<times> world" where
  "require_path_within_root p root msg w =
     guard (is_within_root (fsys w) p root) (RejectFlowError msg) w (\<lambda>w. (Inr (), w))"

definition as_flow_error :: "'a res \<times> world \<Rightarrow> 'a res \<times> world" where
  "as_flow_error r = (case r of (Inl (RegistryError m), w) \<Rightarrow> (Inl (RejectFlowError m), w) | _ \<Rightarrow> r)"

definition move_physical_to_rejected ::
  "env \<Rightarrow> path option \<Rightarrow> string \<Rightarrow> string option \<Rightarrow> string \<Rightarrow> path \<Rightarrow> string \<Rightarrow> world \<Rightarrow> path option res \<times> world" where
  "move_physical_to_rejected E src sha orig mt rejected_root template w =
     (case src of
        None \<Rightarrow> (Inr None, w)
      | Some p \<Rightarrow>
          if \<not> fs_exists (fsys w) p then (Inr None, w)
          else
            and_then (lift_res (render_storage_relative_path (from_iso E) (ym_of E (clock E (ticks w)))
                template sha (or_default orig (path_name p)) mt) w) (\<lambda>relative w.
            and_then (lift_res (choose_collision_safe_destination (joinpath rejected_root relative) (fsys w)) w) (\<lambda>dest w.
            and_then (fs_call (fs_mkdirs (path_parent dest)) w) (\<lambda>_ w.
            and_then (fs_call (fs_rename p dest) w) (\<lambda>_ w.
            (Inr (Some dest), w))))))"

definition move_to_rejected_folder :: "env \<Rightarrow> app_config \<Rightarrow> string \<Rightarrow> world \<Rightarrow> string list res \<times> world" where
  "move_to_rejected_folder E C sha w =
     (case get_file (db w) sha of
        None \<Rightarrow> (Inr [], w)
      | Some r \<Rightarrow>
          (case f_current_path r of
             None \<Rightarrow> (Inr [], w)
           | Some cp \<Rightarrow>
               (let source = path_of cp in
                if \<not> fs_exists (fsys w) source
                then and_then (reg_call E (\<lambda>now. clear_current_path now sha) w) (\<lambda>_ w. (Inr [], w))
                else
                  guard (is_within_root (fsys w) source (cf_pending_path C) \<or>
                         is_within_root (fsys w) source (cf_accepted_path C))
                    (RejectFlowError (''Unsafe reject source outside managed queue roots: '' @ path_str source @
                       '' (pending_root='' @ path_str (cf_pending_path C) @ '', accepted_root='' @
                       path_str (cf_accepted_path C) @ '')'')) w (\<lambda>w.
                  (let mt = (case get_accept_context (now_iso E w) (db w) sha of
                               Some ctx \<Rightarrow> ac_modified_time ctx | None \<Rightarrow> now_iso E w) in
                   and_then (move_physical_to_rejected E (Some source) sha (f_original_filename r) mt
                       (cf_rejected_path C) (cf_storage_template C) w) (\<lambda>dest w.
                   case dest of
                     None \<Rightarrow> (Inr [], w)
                   | Some d \<Rightarrow> and_then (reg_call E (\<lambda>now. update_current_path now sha (path_str d)) w)
                       (\<lambda>_ w. (Inr [path_str source], w))))))))"

subsection \<open>Reject\<close>

definition mk_reject :: "string \<Rightarrow> string \<Rightarrow> string list \<Rightarrow> reject_result" where
  "mk_reject sha action paths = \<lparr>rj_sha256 = sha, rj_action = action, rj_removed_paths = paths\<rparr>"

definition reject_unknown ::
  "env \<Rightarrow> app_config \<Rightarrow> string \<Rightarrow> string \<Rightarrow> string \<Rightarrow> string option \<Rightarrow> int \<Rightarrow> path option \<Rightarrow> world
     \<Rightarrow> reject_result res \<times> world" where
  "reject_unknown E C sha reason actor orig sz incoming w =
     and_then (move_physical_to_rejected E incoming sha orig (now_iso E w) (cf_rejected_path C)
         (cf_storage_template C) w) (\<lambda>retained w.
     and_then (reg_call E (\<lambda>now. create_or_update_file now sha sz ''rejected'' orig (map_option path_str retained)) w) (\<lambda>_ w.
     and_then (reg_call E (\<lambda>now. append_audit_event now (Some sha) ''rejected'' (Some reason) actor None None) w) (\<lambda>_ w.
     (Inr (mk_reject sha ''rejected_unknown'' []), w))))"

definition reject_pair ::
  "env \<Rightarrow> app_config \<Rightarrow> string \<Rightarrow> string \<Rightarrow> string \<Rightarrow> live_photo_pair_record \<Rightarrow> world \<Rightarrow> reject_result res \<times> world" where
  "reject_pair E C sha reason actor pair w =
     and_then (move_to_rejected_folder E C (lp_photo_sha256 pair) w) (\<lambda>ps w.
     and_then (move_to_rejected_folder E C (lp_video_sha256 pair) w) (\<lambda>vs w.
     and_then (reg_call E (\<lambda>now. apply_live_photo_pair_status now (iso E (clock E (Suc (ticks w))))
         (iso E (clock E (Suc (Suc (ticks w))))) (lp_pair_id pair) ''rejected'' reason actor) w) (\<lambda>_ w.
     (Inr (mk_reject sha ''rejected_pair'' (dict_fromkeys (ps @ vs))), w))))"

definition reject_existing ::
  "env \<Rightarrow> app_config \<Rightarrow> string \<Rightarrow> string \<Rightarrow> string \<Rightarrow> world \<Rightarrow> reject_result res \<times> world" where
  "reject_existing E C sha reason actor w =
     and_then (move_to_rejected_folder E C sha w) (\<lambda>ps w.
     and_then (as_flow_error (reg_call E (\<lambda>now. transition_status now sha ''rejected'' reason actor) w)) (\<lambda>_ w.
     (Inr (mk_reject sha ''rejected_existing'' (dict_fromkeys ps)), w)))"

definition reject_noop :: "env \<Rightarrow> string \<Rightarrow> string \<Rightarrow> string \<Rightarrow> world \<Rightarrow> reject_result res \<times> world" where
  "reject_noop E sha reason actor w =
     and_then (reg_call E (\<lambda>now. append_audit_event now (Some sha) ''reject_noop_already_rejected''
         (Some reason) actor None None) w) (\<lambda>_ w.
     (Inr (mk_reject sha ''reject_noop_already_rejected'' []), w))"

definition apply_reject ::
  "env \<Rightarrow> app_config \<Rightarrow> string \<Rightarrow> string \<Rightarrow> string \<Rightarrow> string option \<Rightarrow> int \<Rightarrow> path option \<Rightarrow> world
     \<Rightarrow> reject_result res \<times> world" where
  "apply_reject E C sha reason actor orig sz incoming w =
     (case get_file (db w) sha of
        None \<Rightarrow> reject_unknown E C sha reason actor orig sz incoming w
      | Some r \<Rightarrow>
          (case get_live_photo_pair_for_member (db w) sha of
             Some pair \<Rightarrow>
               if lp_status pair \<noteq> ''rejected'' then reject_pair E C sha reason actor pair w
               else if f_status r = ''rejected'' then reject_noop E sha reason actor w
               else reject_existing E C sha reason actor w
           | None \<Rightarrow>
               if f_status r = ''rejected'' then reject_noop E sha reason actor w
               else reject_existing E C sha reason actor w))"

definition reject_sha256 ::
  "env \<Rightarrow> app_config \<Rightarrow> string \<Rightarrow> string option \<Rightarrow> string \<Rightarrow> world \<Rightarrow> reject_result res \<times> world" where
  "reject_sha256 E C sha reason actor w =
     guard (valid_sha (normalize_sha sha)) (RejectFlowError (''Invalid SHA-256: '' @ sha)) w (\<lambda>w.
     and_then (db_call initialize w) (\<lambda>_ w.
     apply_reject E C (normalize_sha sha) (or_default reason ''cli_reject'') actor None 0 None w))"

subsection \<open>Accept\<close>

text \<open>The part of \<open>accept_sha256\<close> after its checks.\<close>

definition accept_move ::
  "env \<Rightarrow> app_config \<Rightarrow> string \<Rightarrow> string \<Rightarrow> string \<Rightarrow> accept_context \<Rightarrow> file_record \<Rightarrow> path \<Rightarrow> world
     \<Rightarrow> accept_result res \<times> world" where
  "accept_move E C sha reason actor ctx r source w =
     and_then (lift_res (render_storage_relative_path (from_iso E) (ym_of E (clock E (ticks w)))
         (cf_accepted_storage_template C) sha (or_default (f_original_filename r) sha)
         (ac_modified_time ctx)) w) (\<lambda>relative w.
     and_then (lift_res (choose_collision_safe_destination (joinpath (cf_accepted_path C) relative) (fsys w)) w) (\<lambda>dest w.
     and_then (fs_call (are_on_same_filesystem source (path_parent dest)) w) (\<lambda>same w.
     and_then (fs_call (commit_pending_to_accepted (sha256 E) (xfer E) source dest same
         (Some (cf_accepted_path C))) w) (\<lambda>_ w.
     and_then (reg_call E (\<lambda>now. finalize_accept_from_pending now sha (path_str dest) (ac_account ctx)
         (ac_source_path ctx) actor reason) w) (\<lambda>_ w.
     (Inr \<lparr>al_sha256 = sha, al_action = ''accepted'', al_destination_path = path_str dest\<rparr>, w))))))"

definition accept_sha256 ::
  "env \<Rightarrow> app_config \<Rightarrow> string \<Rightarrow> string option \<Rightarrow> string \<Rightarrow> world \<Rightarrow> accept_result res \<times> world" where
  "accept_sha256 E C sha0 reason actor w =
     (let sha = normalize_sha sha0 in
     guard (valid_sha sha) (RejectFlowError (''Invalid SHA-256: '' @ sha0)) w (\<lambda>w.
     and_then (db_call initialize w) (\<lambda>_ w.
     case get_accept_context (now_iso E w) (db w) sha of
       None \<Rightarrow> (Inl (RejectFlowError (''Cannot accept sha256 without origin context: '' @ sha0)), w)
     | Some ctx \<Rightarrow>
     (case get_file (db w) sha of
       None \<Rightarrow> (Inl (RejectFlowError (''Unknown SHA-256: '' @ sha0)), w)
     | Some r \<Rightarrow>
     guard (f_status r = ''pending'') (RejectFlowError (''Cannot accept sha256 with status '' @
         py_quote (f_status r) @ '': expected '' @ py_quote ''pending'')) w (\<lambda>w.
     (case f_current_path r of
       None \<Rightarrow> (Inl (RejectFlowError (''No current_path for pending sha256: '' @ sha0)), w)
     | Some cp \<Rightarrow>
     (let source = path_of cp in
     and_then (require_path_within_root source (cf_pending_path C)
         (''Unsafe accept source outside pending root: '' @ path_str source @ '' (pending_root='' @
          path_str (cf_pending_path C) @ '')'') w) (\<lambda>_ w.
     accept_move E C sha (or_default reason ''operator_accept'') actor ctx r source w))))))))"

subsection \<open>Purge\<close>

definition purge_file :: "app_config \<Rightarrow> string option \<Rightarrow> world \<Rightarrow> string option res \<times> world" where
  "purge_file C cp w =
     (case cp of
        None \<Rightarrow> (Inr None, w)
      | Some t \<Rightarrow>
          (let current = path_of t in
           guard (is_within_root (fsys w) current (cf_rejected_path C))
             (RejectFlowError (''Unsafe purge path outside rejected root: '' @ path_str current)) w (\<lambda>w.
           if fs_exists (fsys w) current
           then and_then (fs_call (fs_unlink current) w) (\<lambda>_ w. (Inr (Some (path_str current)), w))
           else (Inr None, w))))"

definition purge_sha256 ::
  "env \<Rightarrow> app_config \<Rightarrow> string \<Rightarrow> string option \<Rightarrow> string \<Rightarrow> world \<Rightarrow> purge_result res \<times> world" where
  "purge_sha256 E C sha0 reason actor w =
     (let sha = normalize_sha sha0 in
     guard (valid_sha sha) (RejectFlowError (''Invalid SHA-256: '' @ sha0)) w (\<lambda>w.
     and_then (db_call initialize w) (\<lambda>_ w.
     case get_file (db w) sha of
       None \<Rightarrow> (Inl (RejectFlowError (''Unknown SHA-256: '' @ sha0)), w)
     | Some r \<Rightarrow>
     guard (f_status r = ''rejected'') (RejectFlowError (''Cannot purge sha256 with status '' @
         py_quote (f_status r) @ '': expected '' @ py_quote ''rejected'')) w (\<lambda>w.
     and_then (purge_file C (f_current_path r) w) (\<lambda>purged w.
     and_then (as_flow_error (reg_call E (\<lambda>now. finalize_purge_from_rejected now sha
         (or_default reason ''cli_purge'') actor) w)) (\<lambda>_ w.
     (Inr \<lparr>pg_sha256 = sha, pg_action = ''purged'', pg_purged_path = purged\<rparr>, w)))))))"

subsection \<open>The trash directory\<close>

text \<open>\<open>sorted(path for path in trash_root.rglob("*") if path.is_file())\<close>.\<close>

definition trash_files :: "path \<Rightarrow> fs \<Rightarrow> path list" where
  "trash_files root f =
     map (\<lambda>k. joinpath root (Path False (drop (length (fs_key f root)) k))) (sort (key_files_below (fs_key f root) f))"

fun trash_loop :: "env \<Rightarrow> app_config \<Rightarrow> path list \<Rightarrow> world \<Rightarrow> (path \<times> reject_result) list res \<times> world" where
  "trash_loop E C [] w = (Inr [], w)"
| "trash_loop E C (p # ps) w =
     and_then (fs_call (sha256_file (sha256 E) p) w) (\<lambda>sha w.
     and_then (apply_reject E C sha ''trash_reject'' ''trash_watch'' (Some (path_name p)) (fs_size (fsys w) p) (Some p) w) (\<lambda>r w.
     and_then (fs_call (fs_unlink p) w) (\<lambda>_ w.
     and_then (trash_loop E C ps w) (\<lambda>rs w. (Inr ((p, r) # rs), w)))))"

definition trash_result :: "(path \<times> reject_result) list \<Rightarrow> trash_process_result" where
  "trash_result rs =
     \<lparr>tr_processed_files = length rs,
      tr_rejected_files = length (filter (\<lambda>(p, r). rj_action r \<noteq> ''reject_noop_already_rejected'') rs),
      tr_noop_files = length (filter (\<lambda>(p, r). rj_action r = ''reject_noop_already_rejected'') rs),
      tr_unknown_files = length (filter (\<lambda>(p, r). rj_action r = ''rejected_unknown'') rs),
      tr_removed_paths = dict_fromkeys (concat (map (\<lambda>(p, r). path_str p # rj_removed_paths r) rs))\<rparr>"

definition process_trash :: "env \<Rightarrow> app_config \<Rightarrow> world \<Rightarrow> trash_process_result res \<times> world" where
  "process_trash E C w =
     and_then (db_call initialize w) (\<lambda>_ w.
     and_then (fs_call (fs_mkdirs (cf_trash_path C)) w) (\<lambda>_ w.
     and_then (trash_loop E C (trash_files (cf_trash_path C) (fsys w)) w) (\<lambda>rs w.
     (Inr (trash_result rs), w))))"

end
