(* ===== verification/Reject_Props.thy ===== *)
theory Reject_Props
  imports Reject_Flow
begin

section \<open>Properties of the operator decisions\<close>

text \<open>
  The frame of every flow (database integrity, audit log and records kept), then what accept,
  reject and purge do to the registry and to the files: an accept moves the content and records
  it, a reject never loses a content, a purge deletes only below the rejected root.
\<close>

subsection \<open>Frames\<close>

locale rejecting_methods = audit_methods R D for R and D +
  assumes m_init: "D d (snd (initialize d))"
    and m_create_rejected: "D d (snd (create_or_update_file now sha sz ''rejected'' orig cur d))"
    and m_clear: "D d (snd (clear_current_path now sha d))"
    and m_path: "D d (snd (update_current_path now sha p d))"
    and m_transition: "D d (snd (transition_status now sha ''rejected'' reason actor d))"
    and m_pair_status: "D d (snd (apply_live_photo_pair_status n1 n2 n3 pid ''rejected'' reason actor d))"
    and m_purge: "D d (snd (finalize_purge_from_rejected now sha reason actor d))"
begin

lemma frame_db_call: "D (db w) (snd (m (db w))) \<Longrightarrow> R w (snd (db_call m w))"
  by (simp add: by_db db_call_def case_prod_beta)

lemma frame_flow_error: "R w (snd r) \<Longrightarrow> R w (snd (as_flow_error r))"
  by (auto simp: as_flow_error_def split: prod.split sum.split exn.split)

lemma frame_move_physical: "R w (snd (move_physical_to_rejected E src sha orig mt root t w))"
  unfolding move_physical_to_rejected_def
  by (auto simp: frame_refl split: option.split intro!: frame_and_then frame_lift_res frame_fs_call frame_ret)

lemma frame_move_to_rejected: "R w (snd (move_to_rejected_folder E C sha w))"
  unfolding move_to_rejected_folder_def Let_def
  by (auto simp: frame_refl split: option.split
      intro!: frame_and_then frame_guard frame_reg_call m_clear m_path frame_move_physical frame_ret)

lemma frame_apply_reject: "R w (snd (apply_reject E C sha reason actor orig sz inc w))"
proof -
  have "R w (snd (reject_unknown E C sha reason actor orig sz inc w))"
    unfolding reject_unknown_def
    by (intro frame_and_then frame_move_physical frame_reg_call m_create_rejected m_audit frame_ret)
  moreover have "R w (snd (reject_pair E C sha reason actor p w))" for p
    unfolding reject_pair_def
    by (intro frame_and_then frame_move_to_rejected frame_reg_call m_pair_status frame_ret)
  moreover have "R w (snd (reject_existing E C sha reason actor w))"
    unfolding reject_existing_def
    by (intro frame_and_then frame_move_to_rejected frame_flow_error frame_reg_call m_transition frame_ret)
  moreover have "R w (snd (reject_noop E sha reason actor w))"
    unfolding reject_noop_def by (intro frame_and_then frame_reg_call m_audit frame_ret)
  ultimately show ?thesis by (auto simp: apply_reject_def split: option.split)
qed

lemma frame_reject: "R w (snd (reject_sha256 E C sha reason actor w))"
  unfolding reject_sha256_def
  by (intro frame_guard frame_and_then frame_db_call m_init frame_apply_reject)

lemma frame_purge_file: "R w (snd (purge_file C cp w))"
  unfolding purge_file_def Let_def
  by (auto simp: frame_refl split: option.split intro!: frame_guard frame_and_then frame_fs_call frame_ret)

lemma frame_purge: "R w (snd (purge_sha256 E C sha reason actor w))"
  unfolding purge_sha256_def Let_def
  by (auto simp: frame_refl split: option.split intro!: frame_guard frame_and_then frame_db_call m_init frame_ret
      frame_purge_file frame_flow_error frame_reg_call m_purge)

lemma frame_trash_loop: "R w (snd (trash_loop E C ps w))"
  by (induction E C ps w rule: trash_loop.induct)
    (auto simp: frame_refl intro!: frame_and_then frame_fs_call frame_apply_reject frame_ret)

lemma frame_process_trash: "R w (snd (process_trash E C w))"
  unfolding process_trash_def
  by (intro frame_and_then frame_db_call m_init frame_fs_call frame_trash_loop frame_ret)

end

text \<open>The accept flow adds the acceptance of one hash.\<close>

locale operator_methods = rejecting_methods R D for R and D +
  fixes target :: string
  assumes m_accept: "D d (snd (finalize_accept_from_pending now target p account source actor reason d))"
begin

lemma frame_require: "R w (snd (require_path_within_root p root msg w))"
  unfolding require_path_within_root_def by (intro frame_guard frame_ret)

lemma frame_accept_move: "R w (snd (accept_move E C target reason actor ctx r source w))"
  unfolding accept_move_def
  by (intro frame_and_then frame_lift_res frame_fs_call frame_reg_call m_accept frame_ret)

lemma frame_accept:
  assumes target: "normalize_sha sha = target"
  shows "R w (snd (accept_sha256 E C sha reason actor w))"
  unfolding accept_sha256_def Let_def target
  by (auto simp: frame_refl split: option.split intro!: frame_guard frame_and_then frame_db_call m_init
      frame_require frame_accept_move)

end

lemma db_frame_initialize [frame_intros]: "db_frame d (snd (initialize d))"
  by (auto simp: initialize_def run_migrations_def ensure_external_hash_cache_h1_schema_def frame_defs file_known_def)

interpretation gd: operator_methods wdb_frame db_frame target for target
  by unfold_locales (rule frame_intros)+

interpretation gw: operator_methods wf_kept "\<lambda>d d'. wf_db d \<longrightarrow> wf_db d'" target for target
  by unfold_locales (intro impI inv_intros; assumption)+

subsection \<open>Rejecting loses nothing\<close>

definition held_kept :: "world \<Rightarrow> world \<Rightarrow> bool" where
  "held_kept w w' \<longleftrightarrow> held node_at (fsys w') = held node_at (fsys w)"

interpretation hk: step_frame held_kept
  by unfold_locales (auto simp: held_kept_def)

lemma held_same_fs: "fsys w' = fsys w \<Longrightarrow> held_kept w w'"
  by (simp add: held_kept_def)

lemma fsys_calls [simp]:
  "fsys (snd (db_call m w)) = fsys w" "fsys (snd (lift_res r w)) = fsys w"
  by (simp_all add: db_call_def lift_res_def case_prod_beta)

lemma held_reg_call: "held_kept w (snd (reg_call E m w))" "held_kept w (snd (db_call n w))"
  "held_kept w (snd (lift_res r w))" "held_kept w (snd (x, w))"
  by (simp_all add: held_same_fs)

lemma held_mkdirs: "held_kept w (snd (fs_call (fs_mkdirs p) w))"
  using st.mkd_held [of "fs_key (fsys w) p" "fsys w"]
  by (cases "key_mkdirs (fs_key (fsys w) p) (fsys w)") (simp add: held_kept_def fsys_fs_call fs_mkdirs_def)

lemma held_flow_error: "held_kept w (snd r) \<Longrightarrow> held_kept w (snd (as_flow_error r))"
  by (auto simp: as_flow_error_def split: prod.split sum.split exn.split)

lemma rename_held:
  assumes "\<not> is_reg (node_at f d)"
  shows "held node_at (snd (key_rename s d f)) = held node_at f"
proof (cases "node_at f d")
  case None
  then show ?thesis using st.mv_held [of s d f] by (cases "key_rename s d f") auto
next
  case (Some n)
  with assms have "n = Dir" by (cases n) (auto simp: is_reg_def)
  with Some have "snd (key_rename s d f) = f"
    by (auto simp: key_rename_def split: option.split node.split)
  then show ?thesis by simp
qed

lemma held_rename_after_mkdirs:
  assumes "\<not> fs_exists (fsys w0) dest" and "fs_call (fs_mkdirs p) w0 = (r, w)"
  shows "held_kept w (snd (fs_call (fs_rename src dest) w))"
proof -
  obtain g where mk: "key_mkdirs (fs_key (fsys w0) p) (fsys w0) = (r, g)" "fsys w = g"
    using assms(2) by (auto simp: fs_call_def fs_mkdirs_def split: prod.splits)
  have "fs_cwd g = fs_cwd (fsys w0)" using mk by (metis fs_frame_mkdirs(1) snd_conv)
  then have "node_at g (fs_key g dest) = node_at (fsys w0) (fs_key (fsys w0) dest) \<or>
      node_at g (fs_key g dest) = Some Dir"
    using st.mkd_cases [OF mk(1)] fs_key_cong by metis
  then have "\<not> is_reg (node_at g (fs_key g dest))"
    using assms(1) by (auto simp: fs_exists_def fs_node_def is_reg_def)
  then show ?thesis using mk(2) by (simp add: held_kept_def fsys_fs_call fs_rename_def rename_held)
qed

lemma held_move_physical: "held_kept w (snd (move_physical_to_rejected E src sha orig mt root t w))"
proof (cases "\<exists>p. src = Some p \<and> fs_exists (fsys w) p")
  case False
  then show ?thesis
    by (auto simp: move_physical_to_rejected_def hk.frame_refl split: option.split)
next
  case True
  then obtain p where p: "src = Some p" "fs_exists (fsys w) p" by blast
  let ?r = "render_storage_relative_path (from_iso E) (ym_of E (clock E (ticks w))) t sha (or_default orig (path_name p)) mt"
  have tail: "held_kept w (snd (and_then (fs_call (fs_mkdirs (path_parent dest)) w) (\<lambda>_ w.
      and_then (fs_call (fs_rename p dest) w) (\<lambda>_ w. (Inr (Some dest), w)))))"
    if "\<not> fs_exists (fsys w) dest" for dest
    using that
    by (intro hk.frame_and_then held_mkdirs) (auto simp: hk.frame_refl intro!: hk.frame_and_then held_rename_after_mkdirs)
  show ?thesis
  proof (cases ?r)
    case (Inl e)
    with p show ?thesis by (simp add: move_physical_to_rejected_def lift_res_def hk.frame_refl)
  next
    case (Inr rel)
    show ?thesis
    proof (cases "choose_collision_safe_destination (joinpath root rel) (fsys w)")
      case (Inl e)
      with p Inr show ?thesis by (simp add: move_physical_to_rejected_def lift_res_def hk.frame_refl)
    next
      case c: (Inr dest)
      then have "\<not> fs_exists (fsys w) dest"
        using choose_fresh by (auto simp: choose_collision_safe_destination_def)
      with p Inr c tail show ?thesis by (simp add: move_physical_to_rejected_def lift_res_def)
    qed
  qed
qed

lemma held_move_to_rejected: "held_kept w (snd (move_to_rejected_folder E C sha w))"
  unfolding move_to_rejected_folder_def Let_def
  by (auto simp: hk.frame_refl split: option.split
      intro!: hk.frame_and_then hk.frame_guard held_reg_call held_move_physical)

lemma held_apply_reject: "held_kept w (snd (apply_reject E C sha reason actor orig sz inc w))"
proof -
  have "held_kept w (snd (reject_unknown E C sha reason actor orig sz inc w))"
    unfolding reject_unknown_def by (intro hk.frame_and_then held_move_physical held_reg_call)
  moreover have "held_kept w (snd (reject_pair E C sha reason actor p w))" for p
    unfolding reject_pair_def by (intro hk.frame_and_then held_move_to_rejected held_reg_call)
  moreover have "held_kept w (snd (reject_existing E C sha reason actor w))"
    unfolding reject_existing_def
    by (intro hk.frame_and_then held_move_to_rejected held_flow_error held_reg_call)
  moreover have "held_kept w (snd (reject_noop E sha reason actor w))"
    unfolding reject_noop_def by (intro hk.frame_and_then held_reg_call)
  ultimately show ?thesis by (auto simp: apply_reject_def split: option.split)
qed

text \<open>
  C12: rejecting never destroys content.  Whatever the registry says, whichever step fails, the set
  of file contents in the store after a reject is the set before it; the audit log only grows
  and no file record disappears.
\<close>

theorem reject_keeps_every_content:
  "held node_at (fsys (snd (reject_sha256 E C sha reason actor w))) = held node_at (fsys w) \<and>
   audit_extends (db w) (db (snd (reject_sha256 E C sha reason actor w))) \<and>
   records_kept (db w) (db (snd (reject_sha256 E C sha reason actor w)))"
proof -
  have "held_kept w (snd (reject_sha256 E C sha reason actor w))"
    unfolding reject_sha256_def by (intro hk.frame_guard hk.frame_and_then held_reg_call held_apply_reject)
  moreover have "wdb_frame w (snd (reject_sha256 E C sha reason actor w))" by (rule gd.frame_reject)
  ultimately show ?thesis by (simp add: held_kept_def wdb_frame_def db_frame_def)
qed

subsection \<open>What a reject does to the registry\<close>

definition db_fixed :: "registry_db \<Rightarrow> registry_db \<Rightarrow> bool" where
  "db_fixed d d' \<longleftrightarrow> status_of d' = status_of d \<and> live_photo_pairs d' = live_photo_pairs d"

definition status_fixed :: "world \<Rightarrow> world \<Rightarrow> bool" where
  "status_fixed w w' \<longleftrightarrow> db_fixed (db w) (db w')"

interpretation sfs: step_frame status_fixed
  by unfold_locales (auto simp: status_fixed_def db_fixed_def)

interpretation sf: audit_methods status_fixed db_fixed
  by unfold_locales (auto simp: status_fixed_def db_fixed_def append_audit_event_def add_audit_def)

lemma fixed_paths:
  "db_fixed d (snd (clear_current_path now sha d))" "db_fixed d (snd (update_current_path now sha p d))"
  by (simp_all add: db_fixed_def clear_current_path_def update_current_path_def status_of_update_path)
    (simp_all add: update_file_def)

lemma fixed_initialize: "db_fixed d (snd (initialize d))"
  by (auto simp: db_fixed_def initialize_def run_migrations_def ensure_external_hash_cache_h1_schema_def
      fr.status_of_def get_file_def fun_eq_iff)

lemma fixed_move_physical: "status_fixed w (snd (move_physical_to_rejected E src sha orig mt root t w))"
  unfolding move_physical_to_rejected_def
  by (auto simp: sfs.frame_refl split: option.split
      intro!: sfs.frame_and_then sf.frame_lift_res sf.frame_fs_call)

lemma fixed_move: "status_fixed w (snd (move_to_rejected_folder E C sha w))"
  unfolding move_to_rejected_folder_def Let_def
  by (auto simp: sfs.frame_refl split: option.split
      intro!: sfs.frame_and_then sfs.frame_guard sf.frame_reg_call fixed_paths fixed_move_physical)

lemma fixed_run: "move_to_rejected_folder E C sha w = (r, w') \<Longrightarrow> db_fixed (db w) (db w')"
  "move_physical_to_rejected E src sha orig mt root t w = (q, w') \<Longrightarrow> db_fixed (db w) (db w')"
  using fixed_move [of w E C sha] fixed_move_physical [of w E src sha orig mt root t]
  by (simp_all add: status_fixed_def)

lemma reg_call_Inr: "reg_call E m w = (Inr x, w') \<longleftrightarrow>
    (\<exists>d. m (now_iso E w) (db w) = (Inr x, d) \<and> w' = w\<lparr>db := d, ticks := Suc (ticks w)\<rparr>)"
  by (auto simp: reg_call_def split: prod.splits)

lemma flow_error_Inr: "as_flow_error r = (Inr x, w') \<longleftrightarrow> r = (Inr x, w')"
  by (auto simp: as_flow_error_def split: prod.splits sum.splits exn.splits)

lemma flow_error_Inl: "\<exists>b. as_flow_error (Inl a, w) = (Inl b, w)"
  by (cases a) (auto simp: as_flow_error_def)

lemma transition_success:
  "transition_status now sha st reason actor d = (Inr u, d') \<Longrightarrow>
     status_of d' = (status_of d)(sha \<mapsto> st) \<and> live_photo_pairs d' = live_photo_pairs d"
  by (auto simp: transition_status_def guard_eq_Inr status_of_update_status)
    (simp add: add_audit_def update_file_def)

lemma pair_status_success:
  assumes "apply_live_photo_pair_status n1 n2 n3 pid st reason actor d = (Inr u, d')"
    and "get_live_photo_pair d pid = Some pair"
  shows "status_of d' = (status_of d)(lp_photo_sha256 pair \<mapsto> st, lp_video_sha256 pair \<mapsto> st)"
  using assms
  by (auto simp: apply_live_photo_pair_status_def guard_eq_Inr and_then_eq_Inr dest!: transition_success)

lemma find_Some_mem: "find P xs = Some x \<Longrightarrow> x \<in> set xs \<and> P x"
  by (induction xs) (auto split: if_splits)

lemma member_pair:
  assumes "wf_db d" and "get_live_photo_pair_for_member d sha = Some pair"
  shows "get_live_photo_pair d (lp_pair_id pair) = Some pair"
    and "sha = lp_photo_sha256 pair \<or> sha = lp_video_sha256 pair"
proof -
  from assms(2) have "pair \<in> set (map snd (live_photo_pairs d))"
    and m: "lp_photo_sha256 pair = sha \<or> lp_video_sha256 pair = sha"
    unfolding get_live_photo_pair_for_member_def by (auto dest!: find_Some_mem)
  then obtain k where k: "(k, pair) \<in> set (live_photo_pairs d)" by auto
  moreover have "lp_pair_id pair = k" "distinct (map fst (live_photo_pairs d))"
    using k assms(1) by (auto simp: wf_db_def wf_pairs_def list_all_iff)
  ultimately show "get_live_photo_pair d (lp_pair_id pair) = Some pair"
    by (simp add: get_live_photo_pair_def)
  show "sha = lp_photo_sha256 pair \<or> sha = lp_video_sha256 pair" using m by auto
qed

text \<open>The hashes a reject of \<open>sha\<close> may touch: itself and the members of its pair.\<close>

definition reject_scope :: "registry_db \<Rightarrow> string \<Rightarrow> string set" where
  "reject_scope d sha = insert sha (case get_live_photo_pair_for_member d sha of
     None \<Rightarrow> {} | Some p \<Rightarrow> {lp_photo_sha256 p, lp_video_sha256 p})"

definition rejected_in_scope :: "registry_db \<Rightarrow> string \<Rightarrow> registry_db \<Rightarrow> bool" where
  "rejected_in_scope d sha d' \<longleftrightarrow> status_of d' sha = Some ''rejected'' \<and>
     (\<forall>x. x \<notin> reject_scope d sha \<longrightarrow> status_of d' x = status_of d x)"

lemma apply_reject_rejects:
  assumes wf: "wf_db (db w)" and run: "apply_reject E C sha reason actor orig sz inc w = (Inr r, w')"
  shows "rejected_in_scope (db w) sha (db w')"
proof (cases "get_file (db w) sha")
  case None
  with run show ?thesis
    by (auto simp: apply_reject_def reject_unknown_def and_then_eq_Inr reg_call_Inr create_or_update_file_def
        guard_eq_Inr append_audit_event_def rejected_in_scope_def reject_scope_def db_fixed_def dest!: fixed_run)
next
  case (Some rec)
  consider (pair) pair where "get_live_photo_pair_for_member (db w) sha = Some pair"
      "reject_pair E C sha reason actor pair w = (Inr r, w')"
    | (noop) "f_status rec = ''rejected''" "reject_noop E sha reason actor w = (Inr r, w')"
    | (existing) "reject_existing E C sha reason actor w = (Inr r, w')"
    using run Some by (auto simp: apply_reject_def split: option.splits if_splits)
  then show ?thesis
  proof cases
    case pair
    then obtain ps w1 vs w2 n1 n2 n3 u where
      m: "move_to_rejected_folder E C (lp_photo_sha256 pair) w = (Inr ps, w1)"
        "move_to_rejected_folder E C (lp_video_sha256 pair) w1 = (Inr vs, w2)"
      and ap: "apply_live_photo_pair_status n1 n2 n3 (lp_pair_id pair) ''rejected'' reason actor (db w2) = (Inr u, db w')"
      by (auto simp: reject_pair_def and_then_eq_Inr reg_call_Inr)
    have d: "status_of (db w2) = status_of (db w)" "live_photo_pairs (db w2) = live_photo_pairs (db w)"
      using fixed_run(1) [OF m(1)] fixed_run(1) [OF m(2)] by (simp_all add: db_fixed_def)
    have "get_live_photo_pair (db w2) (lp_pair_id pair) = Some pair"
      using member_pair(1) [OF wf pair(1)] d(2) by (simp add: get_live_photo_pair_def)
    with ap d have "status_of (db w') =
        (status_of (db w))(lp_photo_sha256 pair \<mapsto> ''rejected'', lp_video_sha256 pair \<mapsto> ''rejected'')"
      using pair_status_success by metis
    with member_pair(2) [OF wf pair(1)] pair(1) show ?thesis
      by (auto simp: rejected_in_scope_def reject_scope_def)
  next
    case noop
    with Some show ?thesis
      by (auto simp: reject_noop_def and_then_eq_Inr reg_call_Inr append_audit_event_def rejected_in_scope_def
          reject_scope_def fr.status_of_def)
  next
    case existing
    then show ?thesis
      by (auto simp: reject_existing_def and_then_eq_Inr flow_error_Inr reg_call_Inr rejected_in_scope_def
          reject_scope_def db_fixed_def dest!: fixed_run transition_success)
  qed
qed

lemma initialize_tables:
  "files (snd (initialize d)) = files d" "file_origins (snd (initialize d)) = file_origins d"
  "metadata_index (snd (initialize d)) = metadata_index d"
  "live_photo_pairs (snd (initialize d)) = live_photo_pairs d"
  by (simp_all add: initialize_def run_migrations_def ensure_external_hash_cache_h1_schema_def)

lemma init_run:
  assumes "db_call initialize w = (r, w1)"
  shows "db_fixed (db w) (db w1)" and "wf_db (db w) \<Longrightarrow> wf_db (db w1)" and "fsys w1 = fsys w"
    and "get_file (db w1) = get_file (db w)" and "get_accept_context now (db w1) = get_accept_context now (db w)"
    and "ticks w1 = ticks w"
proof -
  have w1: "w1 = w\<lparr>db := snd (initialize (db w))\<rparr>"
    using assms by (simp add: db_call_def case_prod_beta)
  show "db_fixed (db w) (db w1)" "wf_db (db w) \<Longrightarrow> wf_db (db w1)" "fsys w1 = fsys w" "ticks w1 = ticks w"
    using fixed_initialize wf_initialize by (simp_all add: w1)
  have t: "files (db w1) = files (db w)" "file_origins (db w1) = file_origins (db w)"
    "metadata_index (db w1) = metadata_index (db w)"
    by (simp_all add: w1 initialize_tables)
  show "get_file (db w1) = get_file (db w)" "get_accept_context now (db w1) = get_accept_context now (db w)"
    unfolding fun_eq_iff get_file_def get_accept_context_def origins_of_def t by simp_all
qed

text \<open>
  A reject that reports success leaves the hash (trimmed and lower-cased) rejected, whatever
  branch it took, and changes the status of no other hash except the other member of its live
  photo pair.
\<close>

theorem reject_success_rejects:
  assumes "wf_db (db w)" and "reject_sha256 E C sha reason actor w = (Inr r, w')"
  shows "rejected_in_scope (db w) (normalize_sha sha) (db w')"
proof -
  from assms(2) obtain w1 u where init: "db_call initialize w = (Inr u, w1)"
    and run: "apply_reject E C (normalize_sha sha) (or_default reason ''cli_reject'') actor None 0 None w1 = (Inr r, w')"
    by (auto simp: reject_sha256_def guard_eq_Inr and_then_eq_Inr)
  have "rejected_in_scope (db w1) (normalize_sha sha) (db w')"
    using apply_reject_rejects [OF _ run] init_run(2) [OF init] assms(1) by blast
  with init_run(1) [OF init] show ?thesis
    by (auto simp: rejected_in_scope_def reject_scope_def db_fixed_def get_live_photo_pair_for_member_def)
qed

text \<open>
  Rejecting is idempotent.  A hash that is already rejected and is in no pair that still has
  another status is answered with the no-op result: no file and no row of \<open>files\<close> changes, one audit
  event is added.
\<close>

theorem reject_is_idempotent:
  assumes "valid_sha (normalize_sha sha)" and "user_version (db w) = LATEST_SCHEMA_VERSION"
    and "status_of (db w) (normalize_sha sha) = Some ''rejected''"
    and "\<And>p. get_live_photo_pair_for_member (db w) (normalize_sha sha) = Some p \<Longrightarrow> lp_status p = ''rejected''"
  shows "\<exists>w' a. reject_sha256 E C sha reason actor w =
      (Inr (mk_reject (normalize_sha sha) ''reject_noop_already_rejected'' []), w') \<and>
    fsys w' = fsys w \<and> files (db w') = files (db w) \<and> audit_log (db w') = audit_log (db w) @ [a] \<and>
    au_action a = ''reject_noop_already_rejected''"
proof -
  have init: "initialize (db w) = (Inr (), ensure_external_hash_cache_h1_schema (db w))"
    using assms(2) by (simp add: initialize_def run_migrations_def LATEST_SCHEMA_VERSION_def)
  have tables: "files (ensure_external_hash_cache_h1_schema d) = files d"
    "live_photo_pairs (ensure_external_hash_cache_h1_schema d) = live_photo_pairs d"
    "audit_log (ensure_external_hash_cache_h1_schema d) = audit_log d" for d
    by (simp_all add: ensure_external_hash_cache_h1_schema_def)
  obtain r where r: "tbl_get (files (db w)) (normalize_sha sha) = Some r" "f_status r = ''rejected''"
    using assms(3) by (auto simp: fr.status_of_def get_file_def)
  have "apply_reject E C (normalize_sha sha) rs actor None 0 None v = reject_noop E (normalize_sha sha) rs actor v"
    if "files (db v) = files (db w)" "live_photo_pairs (db v) = live_photo_pairs (db w)" for v rs
    using r assms(4) that
    by (auto simp: apply_reject_def get_file_def get_live_photo_pair_for_member_def split: option.split)
  then show ?thesis
    using assms(1)
    by (simp add: reject_sha256_def db_call_def init tables reject_noop_def reg_call_def append_audit_event_def)
      (simp add: add_audit_def tables)
qed

subsection \<open>Accepting\<close>

lemma mkdirs_keeps_reg:
  assumes "fs_mkdirs p f = (r, g)"
  shows "fs_cwd g = fs_cwd f" and "node_at g k = Some (Reg c t) \<longleftrightarrow> node_at f k = Some (Reg c t)"
proof -
  have mk: "key_mkdirs (fs_key f p) f = (r, g)" using assms by (simp add: fs_mkdirs_def)
  show "fs_cwd g = fs_cwd f" using mk by (metis fs_frame_mkdirs(1) snd_conv)
  show "node_at g k = Some (Reg c t) \<longleftrightarrow> node_at f k = Some (Reg c t)" by (rule st.mkd_reg_iff [OF mk])
qed

lemma same_fs_keeps_reg:
  assumes "are_on_same_filesystem a b f = (r, g)"
  shows "fs_cwd g = fs_cwd f \<and> (node_at g k = Some (Reg c t) \<longleftrightarrow> node_at f k = Some (Reg c t))"
proof (cases "fs_mkdirs (fs_ref f a) f")
  case (Pair x g1)
  obtain y g2 where g2: "fs_mkdirs (fs_ref f b) g1 = (y, g2)" by fastforce
  show ?thesis
  proof (cases x)
    case (Inl e)
    with Pair assms mkdirs_keeps_reg [OF Pair] show ?thesis by (simp add: are_on_same_filesystem_def Let_def)
  next
    case (Inr u)
    with Pair g2 assms mkdirs_keeps_reg [OF Pair] mkdirs_keeps_reg [OF g2] show ?thesis
      by (cases y) (simp_all add: are_on_same_filesystem_def Let_def)
  qed
qed

lemma same_fs_keeps_file:
  assumes "are_on_same_filesystem a b f = (r, g)" and "fs_node f p = Some (Reg c t)"
  shows "fs_node g p = Some (Reg c t)" and "fs_cwd g = fs_cwd f"
  using same_fs_keeps_reg [OF assms(1)] assms(2) by (auto simp: fs_node_def fs_key_def)

lemma acceptance_count_simps [simp]:
  "acceptance_count (add_audit s ac action reason' det actor now d) = acceptance_count d"
  "acceptance_count (update_file sha g d) = acceptance_count d"
  "acceptance_count (add_accepted sha account source now d) sha = Suc (acceptance_count d sha)"
  by (simp_all add: fun_eq_iff acceptance_count_def) (simp add: add_accepted_def)

lemma finalize_accept_run:
  assumes "get_file d sha = Some r" and "f_status r = ''pending''"
  shows "\<exists>d'. finalize_accept_from_pending now sha p account source actor reason d = (Inr (), d') \<and>
    status_of d' = (status_of d)(sha \<mapsto> ''accepted'') \<and> acceptance_count d' sha = Suc (acceptance_count d sha) \<and>
    (\<exists>r'. get_file d' sha = Some r' \<and> f_current_path r' = Some p)"
  using assms status_of_update_status [of d sha "\<lambda>r. r\<lparr>f_status := ''accepted'', f_current_path := Some p, f_updated_at := now\<rparr>" "''accepted''"]
    get_file_update_same [OF assms(1)]
  by (simp add: finalize_accept_from_pending_def file_known_get get_file_def [symmetric])

text \<open>
  How an accept may end: the file has moved below the accepted root and the registry says so, or
  nothing has happened to the file and to the statuses.
\<close>

definition accepted_or_untouched ::
  "env \<Rightarrow> app_config \<Rightarrow> string \<Rightarrow> path \<Rightarrow> string \<Rightarrow> int \<Rightarrow> world \<Rightarrow> accept_result res \<times> world \<Rightarrow> bool" where
  "accepted_or_untouched E C sha source bytes t w rw =
     (case rw of
        (Inl e, w') \<Rightarrow> status_of (db w') = status_of (db w) \<and> fs_node (fsys w') source = Some (Reg bytes t)
      | (Inr res, w') \<Rightarrow>
          (\<exists>dest bytes'. al_destination_path res = path_str dest \<and>
             prefix (segs (cf_accepted_path C)) (segs dest) \<and> \<not> fs_exists (fsys w) dest \<and>
             fs_node (fsys w') dest = Some (Reg bytes' t) \<and> sha256 E bytes' = sha256 E bytes \<and>
             fs_node (fsys w') source = None \<and>
             status_of (db w) sha = Some ''pending'' \<and>
             status_of (db w') = (status_of (db w))(sha \<mapsto> ''accepted'') \<and>
             acceptance_count (db w') sha = Suc (acceptance_count (db w) sha) \<and>
             (\<exists>r'. get_file (db w') sha = Some r' \<and> f_current_path r' = Some (path_str dest))))"

lemma accept_move_result:
  assumes src: "fs_node (fsys w) source = Some (Reg bytes t)" and rec: "get_file (db w) sha = Some r"
    and st: "f_status r = ''pending''" and root: "good_root (cf_accepted_path C)"
    and lint: "lint_storage_template (cf_accepted_storage_template C) = []" and hex: "hex_like sha"
  shows "accepted_or_untouched E C sha source bytes t w (accept_move E C sha reason actor ctx r source w)"
proof -
  obtain rel where rel: "render_storage_relative_path (from_iso E) (ym_of E (clock E (ticks w)))
      (cf_accepted_storage_template C) sha (or_default (f_original_filename r) sha) (ac_modified_time ctx) = Inr rel"
    "\<not> is_absolute rel" "''..'' \<notin> set (segs rel)" "wf_path rel"
    using render_relative [OF lint hex] by blast
  show ?thesis
  proof (cases "choose_collision_safe_destination (joinpath (cf_accepted_path C) rel) (fsys w)")
    case (Inl e)
    with rel src show ?thesis by (simp add: accept_move_def lift_res_def accepted_or_untouched_def)
  next
    case (Inr dest)
    have dest: "good_root dest" "\<not> fs_exists (fsys w) dest"
      using good_root_chosen [OF good_root_join [OF root rel(2-4)]] Inr
      by (auto simp: choose_collision_safe_destination_def)
    obtain sm g where sm: "are_on_same_filesystem source (path_parent dest) (fsys w) = (sm, g)" by fastforce
    note kept = same_fs_keeps_file [OF sm src]
    show ?thesis
    proof (cases sm)
      case (Inl e)
      with rel Inr sm kept show ?thesis
        by (simp add: accept_move_def lift_res_def accepted_or_untouched_def fs_call_def)
    next
      case same: (Inr same)
      have ne: "fs_key g source \<noteq> fs_key g dest"
        using src dest(2) by (auto simp: fs_key_cong [OF kept(2)] fs_exists_def fs_node_def)
      obtain x h where cm: "commit_pending_to_accepted (sha256 E) (xfer E) source dest same (Some (cf_accepted_path C)) g = (x, h)"
        by fastforce
      have mv: "moved (sha256 E) same source dest g (x, h)"
        using commit_moved [OF kept(1) _ _ ne] dest(1) cm
        by (metis good_root_def commit_pending_to_accepted_def)
      show ?thesis
      proof (cases x)
        case (Inl e)
        with mv cm rel Inr sm same kept show ?thesis
          by (simp add: accept_move_def lift_res_def accepted_or_untouched_def fs_call_def moved_def)
      next
        case x: (Inr cr)
        obtain bytes' where b: "fs_node h dest = Some (Reg bytes' t)" "sha256 E bytes' = sha256 E bytes"
          "fs_node h source = None"
          using mv x kept(1) by (auto simp: moved_def split: option.splits node.splits)
        have below: "prefix (segs (cf_accepted_path C)) (segs dest)"
          using commit_within [OF _ dest(1) root] cm x unfolding commit_pending_to_accepted_def by blast
        obtain d' where fin: "finalize_accept_from_pending (now_iso E (w\<lparr>fsys := h\<rparr>)) sha (path_str dest) (ac_account ctx)
            (ac_source_path ctx) actor reason (db w) = (Inr (), d')"
          "status_of d' = (status_of (db w))(sha \<mapsto> ''accepted'')"
          "acceptance_count d' sha = Suc (acceptance_count (db w) sha)"
          "\<exists>r'. get_file d' sha = Some r' \<and> f_current_path r' = Some (path_str dest)"
          using finalize_accept_run [OF rec st] by blast
        have "status_of (db w) sha = Some ''pending''" using rec st by (simp add: fr.status_of_def)
        then show ?thesis
          using b below dest rel Inr sm same cm x fin
          by (auto simp: accept_move_def lift_res_def accepted_or_untouched_def fs_call_def reg_call_def intro!: exI [of _ dest])
      qed
    qed
  qed
qed

lemma hex_chars: "c \<in> set ''0123456789abcdef'' \<Longrightarrow> ascii_digit c \<or> ascii_lower c"
  by (auto simp: ascii_digit_def ascii_lower_def)

lemma valid_sha_hex:
  assumes "valid_sha s" shows "hex_like s"
proof -
  have "list_all (\<lambda>c. ascii_digit c \<or> ascii_lower c) s"
    using assms hex_chars unfolding valid_sha_def list_all_iff by blast
  moreover have "s \<noteq> []" using assms by (force simp: valid_sha_def)
  ultimately show ?thesis by (simp add: hex_like_def)
qed


text \<open>A pending file and the configuration of a small deployment.\<close>

definition demo_sha :: string where
  "demo_sha = replicate 64 (CHR ''0'')"

definition demo_config :: app_config where
  "demo_config = \<lparr>cf_pending_path = Path True [''p''], cf_accepted_path = Path True [''a''],
     cf_rejected_path = Path True [''r''], cf_trash_path = Path True [''t''],
     cf_storage_template = ''{sha8}-{original}'', cf_accepted_storage_template = ''{yyyy}/{original}''\<rparr>"

definition pending_db :: "string \<Rightarrow> registry_db" where
  "pending_db path = (snd (finalize_unknown_ingest ''t0'' demo_sha 3 ''b.jpg'' path ''bob'' ''i9'' ''/b.jpg'' ''m''
     ''ingest'' None empty_db))\<lparr>user_version := 2\<rparr>"

definition operator_world :: "registry_db \<Rightarrow> world" where
  "operator_world d = \<lparr>db = d, fsys = \<lparr>nodes = [([''p''], Dir), ([''p'', ''x''], Reg ''abc'' 0),
       ([''r''], Dir), ([''r'', ''y''], Reg ''old'' 0)], fs_cwd = [], fs_dev = (\<lambda>_. 0)\<rparr>,
     jfiles = \<lparr>j_active = None, j_rotated = None\<rparr>, ticks = 0\<rparr>"

lemma demo_sha_ok [simp]: "normalize_sha demo_sha = demo_sha" "valid_sha demo_sha"
  by code_simp+

lemma get_file_user_version [simp]: "get_file (user_version_update h d) = get_file d"
  by (simp add: get_file_def fun_eq_iff)

lemma pending_db_get:
  "get_file (pending_db path) demo_sha = Some \<lparr>f_sha256 = demo_sha, f_size_bytes = 3, f_status = ''pending'',
     f_original_filename = Some ''b.jpg'', f_current_path = Some path, f_first_seen_at = ''t0'', f_updated_at = ''t0''\<rparr>"
proof -
  have "get_file empty_db demo_sha = None" by (simp add: get_file_def empty_db_def)
  then show ?thesis
    by (simp add: pending_db_def finalize_unknown_ingest_def Let_def get_file_put_file)
qed

lemma wf_user_version [simp]: "wf_db (user_version_update h d) = wf_db d"
  unfolding wf_db_def wf_defs by (simp add: file_known_def [abs_def])

lemma wf_pending_db: "wf_db (pending_db path)"
  unfolding pending_db_def by (simp add: wf_finalize_unknown_ingest wf_empty_db)


theorem reject_success_rejects_witness:
  "\<exists>r w'. reject_sha256 pair_env demo_config demo_sha None ''op'' (operator_world ((empty_db)\<lparr>user_version := 2\<rparr>)) = (Inr r, w') \<and>
     rejected_in_scope ((empty_db)\<lparr>user_version := 2\<rparr>) demo_sha (db w')"
proof -
  let ?w = "operator_world ((empty_db)\<lparr>user_version := 2\<rparr>)"
  have "\<exists>r w'. reject_sha256 pair_env demo_config demo_sha None ''op'' ?w = (Inr r, w')"
    by (simp add: reject_sha256_def operator_world_def db_call_def initialize_def run_migrations_def LATEST_SCHEMA_VERSION_def
        apply_reject_def get_file_def empty_db_def ensure_external_hash_cache_h1_schema_def reject_unknown_def
        move_physical_to_rejected_def reg_call_def create_or_update_file_def append_audit_event_def)
  moreover have "wf_db (db ?w)" by (simp add: operator_world_def wf_empty_db)
  ultimately show ?thesis using reject_success_rejects [of ?w] by (fastforce simp: operator_world_def)
qed

theorem reject_is_idempotent_witness:
  "\<exists>d w' a. status_of d demo_sha = Some ''rejected'' \<and>
    reject_sha256 pair_env demo_config demo_sha None ''op'' (operator_world d) =
      (Inr (mk_reject demo_sha ''reject_noop_already_rejected'' []), w') \<and>
    files (db w') = files d \<and> audit_log (db w') = audit_log d @ [a]"
proof -
  let ?d = "put_file demo_sha 3 ''rejected'' None None ''t'' ((empty_db)\<lparr>user_version := 2\<rparr>)"
  have "get_live_photo_pair_for_member ?d demo_sha = None"
    by (simp add: get_live_photo_pair_for_member_def put_file_def empty_db_def)
  moreover have "user_version ?d = LATEST_SCHEMA_VERSION" by (simp add: put_file_def LATEST_SCHEMA_VERSION_def)
  ultimately show ?thesis
    using reject_is_idempotent [of demo_sha "operator_world ?d" pair_env demo_config None "''op''"]
    by (intro exI [of _ ?d]) (simp add: operator_world_def, blast)
qed

subsection \<open>Purging\<close>

lemma set_norm_segs: "set (norm_segs acc ps) \<subseteq> set acc \<union> set ps"
  by (induction acc ps rule: norm_segs.induct) (auto dest: list.set_sel(2), metis UnE list.sel(2) list.set_sel(2) subsetD)

lemma resolved_segs_ok:
  assumes "list_all seg_ok (fs_cwd f)" and "wf_path p"
  shows "\<forall>s \<in> set (fs_key f p). seg_ok s"
  using assms set_norm_segs [of "[]" "if is_absolute p then segs p else fs_cwd f @ segs p"]
  by (auto simp: fs_key_def resolve_def wf_path_def list_all_iff split: if_splits)

lemma is_within_root_prefix:
  assumes "is_within_root f p root" "good_root root" "list_all seg_ok (fs_cwd f)" "wf_path p"
  shows "prefix (segs root) (fs_key f p)"
  using assms within_root_text_iff [of "segs root" "fs_key f p"] resolved_segs_ok [OF assms(3,4)]
  by (auto simp: is_within_root_def ensure_within_root_def guard_def good_root_def wf_path_def fs_key_def [of f root]
      split: if_splits)

text \<open>Nothing outside a directory is touched.\<close>

definition only_below :: "string list \<Rightarrow> fs \<Rightarrow> fs \<Rightarrow> bool" where
  "only_below root f f' \<longleftrightarrow> (\<forall>k. \<not> prefix root k \<longrightarrow> node_at f' k = node_at f k)"

lemma purge_file_below:
  assumes "good_root (cf_rejected_path C)" "list_all seg_ok (fs_cwd (fsys w))" "purge_file C cp w = (r, w')"
  shows "only_below (segs (cf_rejected_path C)) (fsys w) (fsys w') \<and> db w' = db w"
proof (cases cp)
  case None
  with assms(3) show ?thesis by (simp add: purge_file_def only_below_def)
next
  case (Some t)
  let ?p = "path_of t"
  show ?thesis
  proof (cases "is_within_root (fsys w) ?p (cf_rejected_path C) \<and> fs_exists (fsys w) ?p")
    case False
    with assms(3) Some show ?thesis
      by (auto simp: purge_file_def only_below_def guard_def Let_def split: if_splits)
  next
    case True
    have below: "prefix (segs (cf_rejected_path C)) (fs_key (fsys w) ?p)"
      using is_within_root_prefix [OF _ assms(1,2)] True by simp
    obtain x g where u: "key_unlink (fs_key (fsys w) ?p) (fsys w) = (x, g)" by fastforce
    from st.rm_cases [OF u] below have "only_below (segs (cf_rejected_path C)) (fsys w) g"
      by (auto simp: only_below_def)
    moreover have "w' = w\<lparr>fsys := g\<rparr>"
      using assms(3) Some True u by (cases x) (auto simp: purge_file_def Let_def fs_call_def fs_unlink_def)
    ultimately show ?thesis by simp
  qed
qed

lemma purge_registry:
  assumes "reg_call E (\<lambda>now. finalize_purge_from_rejected now sha reason actor) w = (x, w')"
  shows "fsys w' = fsys w" and "x = Inr u \<Longrightarrow> status_of (db w) sha = Some ''rejected'' \<and>
      status_of (db w') = (status_of (db w))(sha \<mapsto> ''purged'')" and "x = Inl e \<Longrightarrow> status_of (db w') = status_of (db w)"
proof -
  have d: "finalize_purge_from_rejected (now_iso E w) sha reason actor (db w) = (x, db w')" and "fsys w' = fsys w"
    using assms by (auto simp: reg_call_def split: prod.splits)
  then show "fsys w' = fsys w" by simp
  show "x = Inr u \<Longrightarrow> status_of (db w) sha = Some ''rejected'' \<and> status_of (db w') = (status_of (db w))(sha \<mapsto> ''purged'')"
    "x = Inl e \<Longrightarrow> status_of (db w') = status_of (db w)"
    using refines_purge [of "now_iso E w" sha reason actor "db w"] d
    by (auto simp: refines_step_def split: if_splits)
qed

text \<open>
  C14: purging deletes nothing outside the rejected root, whatever path the registry holds and
  however it ends.  It succeeds only for a rejected hash, which is then purged, no other status
  changing; when it fails, no status changes.
\<close>

theorem purge_only_below_rejected_root:
  assumes "good_root (cf_rejected_path C)" and "list_all seg_ok (fs_cwd (fsys w))"
    and "purge_sha256 E C sha reason actor w = (x, w')"
  shows "only_below (segs (cf_rejected_path C)) (fsys w) (fsys w') \<and>
    (case x of Inl e \<Rightarrow> status_of (db w') = status_of (db w)
     | Inr _ \<Rightarrow> status_of (db w) (normalize_sha sha) = Some ''rejected'' \<and>
         status_of (db w') = (status_of (db w))(normalize_sha sha \<mapsto> ''purged''))"
proof -
  let ?s = "normalize_sha sha" and ?R = "segs (cf_rejected_path C)"
  obtain i w1 where init: "db_call initialize w = (i, w1)" by fastforce
  have w1: "fsys w1 = fsys w" "status_of (db w1) = status_of (db w)" "get_file (db w1) = get_file (db w)"
    using init_run [OF init] by (simp_all add: db_fixed_def)
  have refl: "only_below ?R (fsys w) (fsys w)" by (simp add: only_below_def)
  show ?thesis
  proof (cases "\<exists>r u. valid_sha ?s \<and> i = Inr u \<and> get_file (db w) ?s = Some r \<and> f_status r = ''rejected''")
    case False
    have "\<exists>e. x = Inl e \<and> (w' = w \<or> w' = w1)"
      using assms(3) False init w1(3)
      by (cases i) (auto simp: purge_sha256_def Let_def guard_def split: option.splits if_splits)
    with w1 refl show ?thesis by auto
  next
    case True
    then obtain r u where r: "valid_sha ?s" "i = Inr u" "get_file (db w) ?s = Some r" "f_status r = ''rejected''" by blast
    obtain y w2 where pf: "purge_file C (f_current_path r) w1 = (y, w2)" by fastforce
    have w2: "only_below ?R (fsys w) (fsys w2)" "db w2 = db w1"
      using purge_file_below [OF assms(1) _ pf] assms(2) w1(1) by simp_all
    obtain z w3 where rc: "reg_call E (\<lambda>now. finalize_purge_from_rejected now ?s (or_default reason ''cli_purge'') actor) w2 = (z, w3)"
      by fastforce
    note w3 = purge_registry [OF rc]
    show ?thesis
    proof (cases y)
      case (Inl e)
      with assms(3) init r w1 pf have "x = Inl e \<and> w' = w2" by (simp add: purge_sha256_def)
      with w2 w1 show ?thesis by simp
    next
      case (Inr pp)
      have eq: "and_then (as_flow_error (z, w3)) (\<lambda>_ w. (Inr \<lparr>pg_sha256 = ?s, pg_action = ''purged'',
          pg_purged_path = pp\<rparr>, w)) = (x, w')"
        using assms(3) init r w1 pf Inr rc by (simp add: purge_sha256_def)
      have "(\<exists>e. z = Inl e \<and> (\<exists>e'. x = Inl e') \<and> w' = w3) \<or> (\<exists>v q. z = Inr v \<and> x = Inr q \<and> w' = w3)"
      proof (cases z)
        case left: (Inl a)
        obtain b where fe: "as_flow_error (Inl a :: unit res, w3) = (Inl b, w3)" using flow_error_Inl by blast
        from eq show ?thesis unfolding left fe by auto
      next
        case right: (Inr v)
        have fe: "as_flow_error (Inr v, w3) = (Inr v, w3)" by (simp add: flow_error_Inr)
        from eq show ?thesis unfolding right fe by auto
      qed
      with w3 w2 w1 show ?thesis by (auto simp: fun_eq_iff)
    qed
  qed
qed

theorem purge_only_below_rejected_root_witness:
  "\<exists>x w'. purge_sha256 pair_env demo_config demo_sha None ''op''
        (operator_world (snd (transition_status ''t'' demo_sha ''rejected'' ''r'' ''op'' (pending_db ''/r/y'')))) = (x, w') \<and>
     only_below [''r''] (fsys (operator_world empty_db)) (fsys w')"
proof -
  let ?w = "operator_world (snd (transition_status ''t'' demo_sha ''rejected'' ''r'' ''op'' (pending_db ''/r/y'')))"
  have "good_root (cf_rejected_path demo_config)" "list_all seg_ok (fs_cwd (fsys ?w))"
    by (simp_all add: demo_config_def good_root_def plain_def wf_path_def seg_ok_def operator_world_def)
  with purge_only_below_rejected_root [of demo_config ?w pair_env demo_sha None "''op''"] show ?thesis
    by (simp add: operator_world_def demo_config_def) (metis prod.exhaust)
qed

subsection \<open>A pair that is reset blocks its rejected members\<close>

lemma move_outside_fails:
  assumes "get_file (db w) sha = Some r" "f_current_path r = Some cp" "fs_exists (fsys w) (path_of cp)"
    and "\<not> is_within_root (fsys w) (path_of cp) (cf_pending_path C)"
    and "\<not> is_within_root (fsys w) (path_of cp) (cf_accepted_path C)"
  shows "\<exists>m. move_to_rejected_folder E C sha w = (Inl (RejectFlowError m), w)"
  using assms by (simp add: move_to_rejected_folder_def Let_def guard_def)

text \<open>
  A hash that is already rejected, with its file kept in the rejected folder, is not answered
  with the no-op when its live photo pair carries another status, as it does after a re-ingest of
  the two members has set the pair back to \<open>paired\<close>: the reject takes the pair branch, finds the
  photo outside the pending and accepted roots and fails.
\<close>

theorem reset_pair_makes_reject_fail:
  assumes "get_live_photo_pair_for_member (db w) sha = Some pair" and "lp_status pair = ''paired''"
    and "get_file (db w) sha = Some r0" and "f_status r0 = ''rejected''"
    and "get_file (db w) (lp_photo_sha256 pair) = Some r" and "f_current_path r = Some cp"
    and "fs_exists (fsys w) (path_of cp)"
    and "\<not> is_within_root (fsys w) (path_of cp) (cf_pending_path C)"
    and "\<not> is_within_root (fsys w) (path_of cp) (cf_accepted_path C)"
  shows "\<exists>m. apply_reject E C sha reason actor orig sz inc w = (Inl (RejectFlowError m), w)"
  using move_outside_fails [OF assms(5-9), of E] assms(1-3)
  by (auto simp: apply_reject_def reject_pair_def)

definition paired_db :: registry_db where
  "paired_db = snd (upsert_live_photo_pair ''t1'' ''pid'' ''bob'' ''b'' demo_sha demo_sha ''paired''
     (snd (transition_status ''t'' demo_sha ''rejected'' ''r'' ''op'' (pending_db ''/r/y''))))"

theorem reset_pair_makes_reject_fail_witness:
  "\<exists>m. apply_reject pair_env demo_config demo_sha ''again'' ''op'' None 0 None (operator_world paired_db) =
     (Inl (RejectFlowError m), operator_world paired_db)"
proof -
  let ?d = "snd (transition_status ''t'' demo_sha ''rejected'' ''r'' ''op'' (pending_db ''/r/y''))"
  have known: "file_known (pending_db ''/r/y'') demo_sha" by (simp add: file_known_get pending_db_get)
  obtain r where r: "get_file ?d demo_sha = Some r" "f_status r = ''rejected''" "f_current_path r = Some ''/r/y''"
    using known by (auto simp: transition_status_def guard_def get_file_update pending_db_get)
  have lps: "live_photo_pairs ?d = []"
    by (auto simp: transition_status_def guard_def add_audit_def update_file_def pending_db_def finalize_unknown_ingest_def
        Let_def put_file_def put_metadata_def put_origin_def empty_db_def)
  have fk: "file_known ?d demo_sha" using r(1) by (simp add: file_known_get)
  have files: "get_file paired_db demo_sha = Some r"
    using r(1) fk by (simp add: paired_db_def upsert_live_photo_pair_def guard_def)
  obtain pair where pair: "get_live_photo_pair_for_member paired_db demo_sha = Some pair"
    "lp_status pair = ''paired''" "lp_photo_sha256 pair = demo_sha"
    using lps fk
    by (auto simp: paired_db_def upsert_live_photo_pair_def guard_def PAIR_STATUSES_def get_live_photo_pair_for_member_def tbl_upsert_def)
  have "fs_exists (fsys (operator_world paired_db)) (path_of ''/r/y'')"
    "\<not> is_within_root (fsys (operator_world paired_db)) (path_of ''/r/y'') (cf_pending_path demo_config)"
    "\<not> is_within_root (fsys (operator_world paired_db)) (path_of ''/r/y'') (cf_accepted_path demo_config)"
    by (simp_all add: operator_world_def demo_config_def fs_exists_def fs_node_def node_at_def fs_key_def path_of_def resolve_def
        is_within_root_def ensure_within_root_def within_root_text_def abs_str_def path_str_def guard_def)
  with pair files r show ?thesis
    using reset_pair_makes_reject_fail [of "operator_world paired_db" demo_sha pair r r "''/r/y''" demo_config pair_env "''again''" "''op''" None 0 None]
    by (simp add: operator_world_def)
qed

end
