(* ===== verification/Idempotency.thy ===== *)
theory Idempotency
  imports World
begin

section \<open>Idempotent API writes (table \<open>ui_action_idempotency\<close>)\<close>

text \<open>
  The write services of the API answer a request at most once per idempotency key: they look the
  key up first (\<open>_replay_if_present\<close>), and the transaction that does the work also stores the
  response under the key (\<open>_persist_idempotency\<close>).  Each service has its own copy of the two
  methods; what both promise is the locale \<open>idempotency_log\<close>, and its lemmas carry the retry and
  conflict properties of every handler built with \<open>answer_once\<close>.
\<close>

definition conflict_exn :: exn where
  "conflict_exn = ValueError ''Idempotency key reuse conflict''"

definition json_exn :: exn where
  "json_exn = ValueError ''stored response is not readable''"

definition put_idempotency ::
  "string \<Rightarrow> string \<Rightarrow> string \<Rightarrow> int \<Rightarrow> string \<Rightarrow> string \<Rightarrow> string \<Rightarrow> registry_db \<Rightarrow> unit res \<times> registry_db" where
  "put_idempotency key action item status body created expires d =
     (case tbl_get (ui_action_idempotency d) key of
        Some _ \<Rightarrow> (Inl (IntegrityError ''UNIQUE constraint failed: ui_action_idempotency.idempotency_key''), d)
      | None \<Rightarrow> (Inr (), d\<lparr>ui_action_idempotency := ui_action_idempotency d @
          [(key, \<lparr>ik_key = key, ik_action = action, ik_item_id = item, ik_response_status = status,
             ik_response_body_json = body, ik_created_at = created, ik_expires_at = expires\<rparr>)]\<rparr>))"

text \<open>The lookup, with the reader of the service's response model.\<close>

definition replay_with ::
  "(jobject \<Rightarrow> 'r option) \<Rightarrow> string \<Rightarrow> string \<Rightarrow> string \<Rightarrow> registry_db \<Rightarrow> (int \<times> 'r) option res" where
  "replay_with dec key action item d =
     (case tbl_get (ui_action_idempotency d) key of
        None \<Rightarrow> Inr None
      | Some row \<Rightarrow>
          if ik_action row \<noteq> action \<or> ik_item_id row \<noteq> item then Inl conflict_exn
          else (case Option.bind (json_loads (ik_response_body_json row)) dec of
                  None \<Rightarrow> Inl json_exn
                | Some r \<Rightarrow> Inr (Some (ik_response_status row, r))))"

definition persist_with ::
  "('r \<Rightarrow> jobject) \<Rightarrow> string \<Rightarrow> string \<Rightarrow> string \<Rightarrow> int \<Rightarrow> 'r \<Rightarrow> string \<Rightarrow> string \<Rightarrow> registry_db
     \<Rightarrow> unit res \<times> registry_db" where
  "persist_with enc key action item status r created expires d =
     put_idempotency key action item status (json_dumps '', '' '': '' (enc r)) created expires d"

definition answer_once ::
  "(registry_db \<Rightarrow> 'a option res) \<Rightarrow> (world \<Rightarrow> 'a res \<times> world) \<Rightarrow> world \<Rightarrow> 'a res \<times> world" where
  "answer_once replay work w =
     (case replay (db w) of
        Inl e \<Rightarrow> (Inl e, w)
      | Inr (Some a) \<Rightarrow> (Inr a, w)
      | Inr None \<Rightarrow> work w)"

subsection \<open>The contract\<close>

definition key_owner :: "registry_db \<Rightarrow> string \<Rightarrow> (string \<times> string) option" where
  "key_owner d key = map_option (\<lambda>r. (ik_action r, ik_item_id r)) (tbl_get (ui_action_idempotency d) key)"

locale idempotency_log =
  fixes owner :: "'d \<Rightarrow> string \<Rightarrow> (string \<times> string) option"
    and replay :: "string \<Rightarrow> string \<Rightarrow> string \<Rightarrow> 'd \<Rightarrow> (int \<times> 'r) option res"
    and persist :: "string \<Rightarrow> string \<Rightarrow> string \<Rightarrow> int \<Rightarrow> 'r \<Rightarrow> string \<Rightarrow> string \<Rightarrow> 'd \<Rightarrow> unit res \<times> 'd"
  assumes fresh: "owner d key = None \<Longrightarrow> replay key action item d = Inr None"
    and foreign: "owner d key = Some own \<Longrightarrow> own \<noteq> (action, item) \<Longrightarrow> replay key action item d = Inl conflict_exn"
    and taken: "owner d key = Some own \<Longrightarrow> replay key action item d \<noteq> Inr None"
    and persist_fails: "owner d key \<noteq> None \<Longrightarrow> \<exists>e. persist key action item st r c x d = (Inl e, d)"
    and persist_works: "owner d key = None \<Longrightarrow> \<exists>d'. persist key action item st r c x d = (Inr (), d') \<and>
        owner d' = (owner d)(key \<mapsto> (action, item)) \<and> replay key action item d' = Inr (Some (st, r))"
begin

lemma persist_success:
  assumes "persist key action item st r c x d = (Inr u, d')"
  shows "owner d key = None \<and> owner d' = (owner d)(key \<mapsto> (action, item)) \<and>
    replay key action item d' = Inr (Some (st, r))"
proof (cases "owner d key")
  case None
  from persist_works [OF this, of action item st r c x] assms show ?thesis
    by (metis None prod.inject)
next
  case (Some y)
  with persist_fails [of d key action item st r c x] assms show ?thesis by auto
qed

lemma replay_owner: "replay key action item d = Inr (Some a) \<Longrightarrow> owner d key = Some (action, item)"
  using fresh [of d key action item] foreign [of d key _ action item] by (cases "owner d key") auto

end

lemma bind_loads_dumps: "Option.bind (json_loads (json_dumps '', '' '': '' (enc r))) dec = dec (enc r)"
  by (simp add: json_round_trip [OF good_seps_default])

lemma idempotency_log_with:
  assumes "\<And>r. dec (enc r) = Some r"
  shows "idempotency_log key_owner (replay_with dec) (persist_with enc)"
proof (unfold_locales, goal_cases)
  case (5 d key action item st r c x)
  then show ?case
    using assms
    by (simp add: key_owner_def replay_with_def persist_with_def put_idempotency_def bind_loads_dumps
        map_add_def fun_eq_iff split: option.split)
qed (auto simp: key_owner_def replay_with_def persist_with_def put_idempotency_def conflict_exn_def
    json_exn_def split: option.splits if_splits)

lemma answer_once_fresh: "replay (db w) = Inr None \<Longrightarrow> answer_once replay work w = work w"
  by (simp add: answer_once_def)

lemma answer_once_replay: "replay (db w) = Inr (Some a) \<Longrightarrow> answer_once replay work w = (Inr a, w)"
  by (simp add: answer_once_def)

lemma answer_once_conflict: "replay (db w) = Inl e \<Longrightarrow> answer_once replay work w = (Inl e, w)"
  by (simp add: answer_once_def)

lemma answer_once_cases:
  assumes "answer_once replay work w = (x, w')"
  obtains (failed) e where "replay (db w) = Inl e" "x = Inl e" "w' = w"
    | (replayed) a where "replay (db w) = Inr (Some a)" "x = Inr a" "w' = w"
    | (worked) "replay (db w) = Inr None" "work w = (x, w')"
  using assms by (auto simp: answer_once_def split: sum.splits option.splits)

text \<open>
  A handler whose work stores its answer under the key gives that answer, unchanged, to every
  later request with the key, and refuses the key to any other request.
\<close>

context idempotency_log
begin

lemma refused:
  assumes "replay key action item d = Inr (Some a)" and "(action', item') \<noteq> (action, item)"
  shows "replay key action' item' d = Inl conflict_exn"
  using foreign [OF replay_owner [OF assms(1)], of action' item'] assms(2) by metis

end

subsection \<open>Frames\<close>

lemma put_idempotency_tables [simp]:
  "files (snd (put_idempotency k a i s b c x d)) = files d"
  "audit_log (snd (put_idempotency k a i s b c x d)) = audit_log d"
  "blocked_rules (snd (put_idempotency k a i s b c x d)) = blocked_rules d"
  "accepted_records (snd (put_idempotency k a i s b c x d)) = accepted_records d"
  by (simp_all add: put_idempotency_def split: option.split)

lemma wf_put_idempotency [inv_intros]: "wf_db d \<Longrightarrow> wf_db (snd (put_idempotency k a i s b c x d))"
  unfolding wf_db_def wf_defs put_idempotency_def file_known_def
  by (auto split: option.split simp: map_of_eq_None_iff)

lemma db_frame_put_idempotency: "db_frame d (snd (put_idempotency k a i s b c x d))"
  by (auto simp: put_idempotency_def db_frame_def audit_extends_def records_kept_def file_known_def split: option.split)

end
