(* ===== verification/Thumbnails.thy ===== *)
theory Thumbnails
  imports World
begin

section \<open>The thumbnail cache (\<open>api/services/thumbnail_service.py\<close>)\<close>

text \<open>
  Serving, generating and collecting cached thumbnails.  What the imaging library makes of the
  bytes of a picture is the argument \<open>pil\<close> (\<open>None\<close> for bytes it cannot decode).  The temporary
  file that \<open>os.replace\<close> puts in place is modelled by its net effect: the cache file is written,
  or, when the path is taken by a directory, the call fails and leaves nothing behind.  The
  collector takes its recursive listing at the start.
\<close>

subsection \<open>Removing directories\<close>

definition key_rmdir :: "string list \<Rightarrow> fs \<Rightarrow> unit res \<times> fs" where
  "key_rmdir k f =
     (case node_at f k of
        None \<Rightarrow> (Inl (OSError ''ENOENT''), f)
      | Some (Reg c t) \<Rightarrow> (Inl (OSError ''ENOTDIR''), f)
      | Some Dir \<Rightarrow>
          if k = [] then (Inl (OSError ''EBUSY''), f)
          else if list_ex (strict_prefix k) (map fst (nodes f)) then (Inl (OSError ''ENOTEMPTY''), f)
          else (Inr (), key_del k f))"

definition fs_rmdir :: "path \<Rightarrow> fs \<Rightarrow> unit res \<times> fs" where
  "fs_rmdir p f = key_rmdir (fs_key f p) f"

subsection \<open>The service\<close>

definition cache_path_for_sha :: "path \<Rightarrow> string \<Rightarrow> path" where
  "cache_path_for_sha cache_root sha =
     joinpath (joinpath (joinpath cache_root (path_of (take 2 sha))) (path_of (take 4 sha)))
       (path_of (sha @ ''.webp''))"

definition resolve_pending_source_path :: "registry_db \<Rightarrow> string \<Rightarrow> path res" where
  "resolve_pending_source_path d sha =
     (case get_file d sha of
        None \<Rightarrow> Inl (ThumbnailNotFoundError ''Item not found'')
      | Some r \<Rightarrow>
          if f_status r \<noteq> ''pending'' then Inl (ThumbnailNotFoundError ''Item is not pending'')
          else (case f_current_path r of
                  None \<Rightarrow> Inl (ThumbnailNotFoundError ''Pending item has no current_path'')
                | Some p \<Rightarrow> if p = [] then Inl (ThumbnailNotFoundError ''Pending item has no current_path'')
                            else Inr (path_of p)))"

definition write_zero_marker :: "env \<Rightarrow> path \<Rightarrow> world \<Rightarrow> world" where
  "write_zero_marker E cache_path w =
     (case draw_time E w of (now, w) \<Rightarrow>
        snd (and_then (fs_call (fs_mkdirs (path_parent cache_path)) w) (\<lambda>_ w.
             fs_call (fs_write cache_path [] now) w)))"

definition generate_thumbnail ::
  "env \<Rightarrow> (string \<Rightarrow> string option) \<Rightarrow> path \<Rightarrow> path \<Rightarrow> world \<Rightarrow> string res \<times> world" where
  "generate_thumbnail E pil source cache_path w =
     (let undecodable = (\<lambda>w. (Inl (ThumbnailNotFoundError ''File is not a decodable image''),
            write_zero_marker E cache_path w)) in
      case fs_call (fs_read source) w of
        (Inl e, w) \<Rightarrow> undecodable w
      | (Inr bytes, w) \<Rightarrow>
          (case pil bytes of
             None \<Rightarrow> undecodable w
           | Some thumb \<Rightarrow>
               (case fs_call (fs_mkdirs (path_parent cache_path)) w of
                  (Inl e, w) \<Rightarrow> undecodable w
                | (Inr _, w) \<Rightarrow>
                    (case draw_time E w of (now, w) \<Rightarrow>
                       (case fs_call (fs_write cache_path thumb now) w of
                          (Inl e, w) \<Rightarrow> (Inl (ThumbnailGenerationError ''Thumbnail generation failed''), w)
                        | (Inr _, w) \<Rightarrow> fs_call (fs_read cache_path) w)))))"

definition get_or_generate ::
  "env \<Rightarrow> (string \<Rightarrow> string option) \<Rightarrow> path \<Rightarrow> string \<Rightarrow> world \<Rightarrow> string res \<times> world" where
  "get_or_generate E pil cache_root sha w =
     and_then (lift_res (resolve_pending_source_path (db w) sha) w) (\<lambda>source w.
     (let cache_path = cache_path_for_sha cache_root sha in
      if fs_exists (fsys w) cache_path
      then (if fs_is_file (fsys w) cache_path \<and> fs_size (fsys w) cache_path = 0
            then (Inl (ThumbnailNotFoundError ''Thumbnail unavailable for this item''), w)
            else fs_call (fs_read cache_path) w)
      else if \<not> fs_exists (fsys w) source
      then (Inl (ThumbnailNotFoundError ''Source file missing''), w)
      else generate_thumbnail E pil source cache_path w))"

function prune_empty_parents :: "path \<Rightarrow> path \<Rightarrow> fs \<Rightarrow> fs" where
  "prune_empty_parents root cur f =
     (if cur = root \<or> path_parent cur = cur then f
      else (case fs_rmdir cur f of
              (Inl e, f) \<Rightarrow> f
            | (Inr _, f) \<Rightarrow> prune_empty_parents root (path_parent cur) f))"
  by pat_completeness auto
termination
proof (relation "measure (\<lambda>(root, cur, f). length (segs cur))", goal_cases)
  case (2 root cur f)
  then show ?case by (cases cur; cases "segs cur") (auto simp: path_parent_def)
qed simp

declare prune_empty_parents.simps [simp del]

definition purge_cache_entry :: "path \<Rightarrow> string \<Rightarrow> world \<Rightarrow> bool res \<times> world" where
  "purge_cache_entry cache_root sha w =
     (let cache_path = cache_path_for_sha cache_root sha in
      if \<not> fs_exists (fsys w) cache_path then (Inr False, w)
      else and_then (fs_call (fs_unlink cache_path) w) (\<lambda>_ w.
           (Inr True, w\<lparr>fsys := prune_empty_parents cache_root (path_parent cache_path) (fsys w)\<rparr>)))"

record gc_report =
  gc_cache_root :: string
  gc_scanned :: nat
  gc_removed :: nat
  gc_kept :: nat

definition webp_files :: "path \<Rightarrow> fs \<Rightarrow> path list" where
  "webp_files root f =
     map (\<lambda>k. joinpath root (Path False (drop (length (fs_key f root)) k)))
       (filter (\<lambda>k. suffix ''.webp'' (last k)) (key_files_below (fs_key f root) f))"

definition is_pending :: "registry_db \<Rightarrow> string \<Rightarrow> bool" where
  "is_pending d sha \<longleftrightarrow> list_ex (\<lambda>(k, r). k = sha \<and> f_status r = ''pending'') (files d)"

fun gc_loop :: "path \<Rightarrow> path list \<Rightarrow> world \<Rightarrow> (nat \<times> nat) res \<times> world" where
  "gc_loop root [] w = (Inr (0, 0), w)"
| "gc_loop root (p # ps) w =
     (if is_pending (db w) (path_stem p)
      then and_then (gc_loop root ps w) (\<lambda>(removed, kept) w. (Inr (removed, Suc kept), w))
      else and_then (fs_call (fs_unlink p) w) (\<lambda>_ w.
           and_then (gc_loop root ps (w\<lparr>fsys := prune_empty_parents root (path_parent p) (fsys w)\<rparr>))
             (\<lambda>(removed, kept) w. (Inr (Suc removed, kept), w))))"

definition garbage_collect :: "path \<Rightarrow> world \<Rightarrow> gc_report res \<times> world" where
  "garbage_collect root w =
     and_then (gc_loop root (if fs_exists (fsys w) root then webp_files root (fsys w) else []) w)
       (\<lambda>(removed, kept) w. (Inr \<lparr>gc_cache_root = path_str root, gc_scanned = removed + kept,
          gc_removed = removed, gc_kept = kept\<rparr>, w))"

subsection \<open>What the collector removes\<close>

lemma fs_frame_rmdir [simp]: "fs_cwd (snd (key_rmdir k f)) = fs_cwd f"
  by (simp add: key_rmdir_def split: option.split node.split)

lemma key_rmdir_cases:
  "key_rmdir k f = (x, g) \<Longrightarrow> g = f \<or> node_at f k = Some Dir \<and> node_at g = (node_at f)(k := None)"
  by (auto simp: key_rmdir_def fun_eq_iff split: option.splits node.splits if_splits)

text \<open>Pruning only removes directories.\<close>

definition dirs_removed :: "fs \<Rightarrow> fs \<Rightarrow> bool" where
  "dirs_removed f g \<longleftrightarrow> fs_cwd g = fs_cwd f \<and>
     (\<forall>k. node_at g k = node_at f k \<or> node_at f k = Some Dir \<and> node_at g k = None)"

interpretation dr: step_frame dirs_removed
proof unfold_locales
  show "dirs_removed s s" for s by (simp add: dirs_removed_def)
  show "dirs_removed s u" if "dirs_removed s t" "dirs_removed t u" for s t u
    using that unfolding dirs_removed_def by metis
qed

lemma prune_removes_dirs: "dirs_removed f (prune_empty_parents root cur f)"
proof (induction root cur f rule: prune_empty_parents.induct)
  case (1 root cur f)
  obtain x g where r: "fs_rmdir cur f = (x, g)" by fastforce
  then have cwd: "fs_cwd g = fs_cwd f" by (metis fs_frame_rmdir fs_rmdir_def snd_conv)
  have "dirs_removed f g"
    using key_rmdir_cases [of "fs_key f cur" f x g] cwd r
    by (auto simp: fs_rmdir_def dirs_removed_def split: if_splits)
  with 1 r show ?case
    by (subst prune_empty_parents.simps)
      (auto simp: dr.frame_refl split: sum.split intro: dr.frame_trans)
qed

lemma dirs_removed_reg: "dirs_removed f g \<Longrightarrow> is_reg (node_at f k) \<Longrightarrow> node_at g k = node_at f k"
  by (cases "node_at g k = node_at f k") (auto simp: dirs_removed_def is_reg_def)

lemma gc_loop_no_new: "node_at (fsys w) k = None \<Longrightarrow> node_at (fsys (snd (gc_loop root ps w))) k = None"
proof (induction root ps w rule: gc_loop.induct)
  case (2 root p ps w)
  obtain x g where ul: "fs_unlink p (fsys w) = (x, g)" by fastforce
  have g: "node_at g k = None"
    using st.rm_cases [of "fs_key (fsys w) p" "fsys w" x g] ul 2(3) by (auto simp: fs_unlink_def)
  have "node_at (prune_empty_parents root (path_parent p) g) k = None"
    using prune_removes_dirs [of g root "path_parent p"] g unfolding dirs_removed_def by metis
  with 2 ul g show ?case
    by (cases x) (auto simp: fs_call_def intro!: and_then_inv [where P = "\<lambda>w. node_at (fsys w) k = None"])
qed simp

definition stale_keys :: "registry_db \<Rightarrow> fs \<Rightarrow> path list \<Rightarrow> string list set" where
  "stale_keys d f ps = {fs_key f p | p. p \<in> set ps \<and> \<not> is_pending d (path_stem p)}"

lemma stale_keys_Cons:
  "stale_keys d f (p # ps) = (if is_pending d (path_stem p) then {} else {fs_key f p}) \<union> stale_keys d f ps"
  by (auto simp: stale_keys_def)

lemma stale_keys_cwd: "fs_cwd g = fs_cwd f \<Longrightarrow> stale_keys d g ps = stale_keys d f ps"
  by (simp add: stale_keys_def fs_key_def)

lemma gc_loop_run:
  assumes "distinct (map (fs_key (fsys w)) ps)" and "\<And>p. p \<in> set ps \<Longrightarrow> is_reg (node_at (fsys w) (fs_key (fsys w) p))"
  shows "\<exists>w'. gc_loop root ps w = (Inr (length (filter (\<lambda>p. \<not> is_pending (db w) (path_stem p)) ps),
      length (filter (\<lambda>p. is_pending (db w) (path_stem p)) ps)), w') \<and> db w' = db w \<and>
    (\<forall>k. is_reg (node_at (fsys w) k) \<longrightarrow>
       node_at (fsys w') k = (if k \<in> stale_keys (db w) (fsys w) ps then None else node_at (fsys w) k))"
  using assms
proof (induction ps arbitrary: w)
  case Nil
  then show ?case by (simp add: stale_keys_def)
next
  case (Cons p ps)
  let ?f = "fsys w" and ?k = "fs_key (fsys w) p"
  show ?case
  proof (cases "is_pending (db w) (path_stem p)")
    case True
    with Cons.IH [of w] Cons.prems show ?thesis by (auto simp: stale_keys_Cons)
  next
    case False
    obtain c t where reg: "node_at ?f ?k = Some (Reg c t)"
      using Cons.prems(2) [of p] by (auto simp: is_reg_def split: option.splits node.splits)
    let ?g = "prune_empty_parents root (path_parent p) (key_del ?k ?f)"
    let ?w = "w\<lparr>fsys := ?g\<rparr>"
    have ul: "fs_call (fs_unlink p) w = (Inr (), w\<lparr>fsys := key_del ?k ?f\<rparr>)"
      using reg by (simp add: fs_call_def fs_unlink_def key_unlink_def)
    have dr: "dirs_removed (key_del ?k ?f) ?g" by (rule prune_removes_dirs)
    then have cwd: "fs_cwd ?g = fs_cwd ?f" by (simp add: dirs_removed_def)
    then have keys: "fs_key ?g = fs_key ?f" by (intro ext fs_key_cong)
    have other: "node_at ?g q = node_at ?f q" if "is_reg (node_at ?f q)" "q \<noteq> ?k" for q
      using dirs_removed_reg [OF dr, of q] that node_at_Some_Reg [OF reg] by simp
    have gone: "node_at ?g ?k = None"
      using dr node_at_Some_Reg [OF reg] by (auto simp: dirs_removed_def dest: spec [of _ ?k])
    have ne: "fs_key ?f q \<noteq> ?k" if "q \<in> set ps" for q using Cons.prems(1) that by (auto dest: sym)
    have "distinct (map (fs_key ?g) ps)" using Cons.prems(1) keys by simp
    moreover have "is_reg (node_at ?g (fs_key ?g q))" if "q \<in> set ps" for q
      using other [of "fs_key ?f q"] ne [OF that] Cons.prems(2) [of q] that keys by simp
    ultimately obtain w' where w': "gc_loop root ps ?w = (Inr (length (filter (\<lambda>p. \<not> is_pending (db w) (path_stem p)) ps),
        length (filter (\<lambda>p. is_pending (db w) (path_stem p)) ps)), w')" "db w' = db w"
      "\<And>k. is_reg (node_at ?g k) \<Longrightarrow>
         node_at (fsys w') k = (if k \<in> stale_keys (db w) ?g ps then None else node_at ?g k)"
      using Cons.IH [of ?w] by auto
    have final: "node_at (fsys w') k = (if k \<in> stale_keys (db w) ?f (p # ps) then None else node_at ?f k)"
      if k: "is_reg (node_at ?f k)" for k
    proof (cases "k = ?k")
      case True
      have "node_at (fsys w') k = None" if "node_at ?g k = None"
        using gc_loop_no_new [of ?w k root ps] w'(1) that by fastforce
      with gone True False show ?thesis by (simp add: stale_keys_Cons)
    next
      case ne_k: False
      with other [OF k] k w'(3) [of k] False show ?thesis by (simp add: stale_keys_Cons stale_keys_cwd [OF cwd])
    qed
    from w'(1,2) final False ul show ?thesis by (auto simp: stale_keys_Cons)
  qed
qed

definition clean_keys :: "fs \<Rightarrow> bool" where
  "clean_keys f \<longleftrightarrow> distinct (map fst (nodes f)) \<and> list_all (\<lambda>k. ''..'' \<notin> set k) (map fst (nodes f))"

lemma key_files_below_iff:
  assumes "clean_keys f"
  shows "k \<in> set (key_files_below root f) \<longleftrightarrow> strict_prefix root k \<and> is_reg (node_at f k)"
proof -
  have "map_of (nodes f) k = Some n \<longleftrightarrow> (k, n) \<in> set (nodes f)" for n
    using assms by (simp add: clean_keys_def)
  then show ?thesis
    by (auto simp: key_files_below_def node_at_def is_reg_def image_iff split: option.splits)
      (metis option.simps(5) option.distinct(1) not_None_eq)+
qed

lemma cached_path:
  assumes "clean_keys f" and "k \<in> set (key_files_below (fs_key f root) f)"
  defines "p \<equiv> joinpath root (Path False (drop (length (fs_key f root)) k))"
  shows "fs_key f p = k" and "path_stem p = fst (name_split (last k))"
proof -
  have pre: "strict_prefix (fs_key f root) k" using assms(1,2) key_files_below_iff by blast
  then obtain r where r: "k = fs_key f root @ r" "r \<noteq> []" by (auto simp: strict_prefix_def prefix_def)
  have "k \<in> set (map fst (nodes f))" using assms(2) by (auto simp: key_files_below_def)
  then have "''..'' \<notin> set k" using assms(1) unfolding clean_keys_def list_all_iff by blast
  then have "''..'' \<notin> set r" using r by simp
  then show "fs_key f p = k" using r resolve_joinpath [of "Path False r" "fs_cwd f" root]
    by (simp add: p_def fs_key_def)
  show "path_stem p = fst (name_split (last k))"
    using r by (simp add: p_def path_stem_def path_name_def joinpath_def)
qed

lemma stale_webp:
  assumes "clean_keys f"
  shows "stale_keys d f (webp_files root f) =
    {k. strict_prefix (fs_key f root) k \<and> is_reg (node_at f k) \<and> suffix ''.webp'' (last k) \<and>
        \<not> is_pending d (fst (name_split (last k)))}"
proof -
  let ?g = "\<lambda>k. joinpath root (Path False (drop (length (fs_key f root)) k))"
  let ?K = "set (filter (\<lambda>k. suffix ''.webp'' (last k)) (key_files_below (fs_key f root) f))"
  have "stale_keys d f (webp_files root f) = {fs_key f (?g k) | k. k \<in> ?K \<and> \<not> is_pending d (path_stem (?g k))}"
    unfolding stale_keys_def webp_files_def set_map by blast
  also have "\<dots> = {k \<in> ?K. \<not> is_pending d (fst (name_split (last k)))}"
    using cached_path [OF assms, of _ root] by force
  finally show ?thesis using key_files_below_iff [OF assms, of _ "fs_key f root"] by auto
qed

lemma webp_keys:
  assumes "clean_keys f"
  shows "map (fs_key f) (webp_files root f) =
    filter (\<lambda>k. suffix ''.webp'' (last k)) (key_files_below (fs_key f root) f)"
  using cached_path(1) [OF assms] by (auto simp: webp_files_def comp_def intro!: map_idI)

lemma distinct_files_below: "clean_keys f \<Longrightarrow> distinct (key_files_below root f)"
  by (simp add: clean_keys_def key_files_below_def distinct_map_filter)

text \<open>
  A collection never fails on a store of plain names, removes exactly the cached files
  below the cache root whose hash is not pending, leaves every other file of the store as it is,
  and its counts add up.
\<close>

theorem gc_removes_exactly_stale_thumbnails:
  assumes "clean_keys (fsys w)"
  shows "\<exists>rep w'. garbage_collect root w = (Inr rep, w') \<and> db w' = db w \<and>
    gc_scanned rep = gc_removed rep + gc_kept rep \<and>
    (\<forall>k. is_reg (node_at (fsys w) k) \<longrightarrow> node_at (fsys w') k =
       (if fs_exists (fsys w) root \<and> strict_prefix (fs_key (fsys w) root) k \<and> suffix ''.webp'' (last k) \<and>
           \<not> is_pending (db w) (fst (name_split (last k)))
        then None else node_at (fsys w) k))"
proof (cases "fs_exists (fsys w) root")
  case True
  let ?ps = "webp_files root (fsys w)"
  have keys: "map (fs_key (fsys w)) ?ps =
      filter (\<lambda>k. suffix ''.webp'' (last k)) (key_files_below (fs_key (fsys w) root) (fsys w))"
    by (rule webp_keys [OF assms])
  then have "distinct (map (fs_key (fsys w)) ?ps)" using distinct_files_below [OF assms] by simp
  moreover have "is_reg (node_at (fsys w) (fs_key (fsys w) p))" if "p \<in> set ?ps" for p
  proof -
    have "fs_key (fsys w) p \<in> set (map (fs_key (fsys w)) ?ps)" using that by simp
    then show ?thesis unfolding keys using key_files_below_iff [OF assms] by simp
  qed
  ultimately show ?thesis
    using gc_loop_run [of w ?ps root] True stale_webp [OF assms]
    by (auto simp: garbage_collect_def)
qed (simp add: garbage_collect_def)

definition thumb_world :: "registry_db \<Rightarrow> world" where
  "thumb_world d = \<lparr>db = d,
     fsys = \<lparr>nodes = [([''c''], Dir), ([''c'', ''ab.webp''], Reg ''t'' 0)], fs_cwd = [], fs_dev = (\<lambda>_. 0)\<rparr>,
     jfiles = \<lparr>j_active = None, j_rotated = None\<rparr>, ticks = 0\<rparr>"

theorem gc_removes_exactly_stale_thumbnails_witness:
  "\<exists>rep w'. garbage_collect (path_of ''/c'') (thumb_world empty_db) = (Inr rep, w') \<and>
     node_at (fsys w') [''c'', ''ab.webp''] = None"
proof -
  let ?w = "thumb_world empty_db"
  have clean: "clean_keys (fsys ?w)" by (simp add: clean_keys_def thumb_world_def)
  have root: "fs_key (fsys ?w) (path_of ''/c'') = [''c'']" by (simp add: thumb_world_def) code_simp
  have node: "is_reg (node_at (fsys ?w) [''c'', ''ab.webp''])" "fs_exists (fsys ?w) (path_of ''/c'')"
    using root by (simp_all add: thumb_world_def node_at_def is_reg_def fs_exists_def fs_node_def)
  have "\<not> is_pending (db ?w) x" for x by (simp add: thumb_world_def is_pending_def empty_db_def)
  moreover have "strict_prefix [''c''] [''c'', ''ab.webp'']" "suffix ''.webp'' ''ab.webp''" by code_simp+
  ultimately show ?thesis
    using gc_removes_exactly_stale_thumbnails [OF clean, of "path_of ''/c''"] node root by fastforce
qed

end
