(* ===== verification/Triage.thy ===== *)
theory Triage
  imports Idempotency Thumbnails
begin

section \<open>Triage (\<open>api/services/triage_service.py\<close>, \<open>api/audit_hook.py\<close>, \<open>api/routers/triage.py\<close>)\<close>

text \<open>
  The web triage path: a requested event is committed first, then one transaction changes the
  status, appends the applied event and stores the response under the idempotency key; when the
  transaction fails it is rolled back and a compensating event is committed.  The endpoints run on
  one connection, one request after the other.
\<close>

subsection \<open>Audit events\<close>

fun latest_metadata :: "metadata_row list \<Rightarrow> metadata_row option" where
  "latest_metadata [] = None"
| "latest_metadata (r # rs) =
     (case latest_metadata rs of
        None \<Rightarrow> Some r
      | Some b \<Rightarrow> if m_updated_at r < m_updated_at b then Some b else Some r)"

definition truthy :: "string option \<Rightarrow> string option" where
  "truthy s = (if s = Some [] then None else s)"

definition resolve_account_name :: "registry_db \<Rightarrow> string \<Rightarrow> string option" where
  "resolve_account_name d item =
     coalesce
       (truthy (map_option m_account_name
          (latest_metadata (filter (\<lambda>m. m_sha256 m = item) (map snd (metadata_index d))))))
       (truthy (map_option o_account (latest_origin (origins_of d item))))"

definition triage_details :: "jobject \<Rightarrow> string option \<Rightarrow> string" where
  "triage_details payload client_ip =
     json_dumps '', '' '': ''
       (payload @ (case truthy client_ip of None \<Rightarrow> [] | Some ip \<Rightarrow> [(''client_ip'', JText ip)]))"

definition write_triage_requested_event ::
  "string \<Rightarrow> string \<Rightarrow> string \<Rightarrow> string \<Rightarrow> string option \<Rightarrow> string option \<Rightarrow> registry_db \<Rightarrow> registry_db" where
  "write_triage_requested_event now action item actor reason client_ip d =
     add_audit (Some item) (resolve_account_name d item) (''triage_'' @ action @ ''_requested'') reason
       (Some (triage_details [(''item_id'', JText item), (''phase'', JText ''pre'')] client_ip)) actor now d"

definition write_triage_compensating_event ::
  "string \<Rightarrow> string \<Rightarrow> string \<Rightarrow> string \<Rightarrow> string option \<Rightarrow> string option \<Rightarrow> registry_db \<Rightarrow> registry_db" where
  "write_triage_compensating_event now action item actor reason client_ip d =
     add_audit (Some item) (resolve_account_name d item) (''triage_'' @ action @ ''_compensating'') reason
       (Some (triage_details [(''item_id'', JText item), (''phase'', JText ''compensating'')] client_ip)) actor now d"

subsection \<open>The service\<close>

record triage_response =
  tr_action_correlation_id :: string
  tr_item_id :: string
  tr_state :: string

definition triage_enc :: "triage_response \<Rightarrow> jobject" where
  "triage_enc r = [(''action_correlation_id'', JText (tr_action_correlation_id r)),
     (''item_id'', JText (tr_item_id r)), (''state'', JText (tr_state r))]"

definition jtext :: "jobject \<Rightarrow> string \<Rightarrow> string option" where
  "jtext b k = (case jget b k of Some (JText s) \<Rightarrow> Some s | _ \<Rightarrow> None)"

definition triage_dec :: "jobject \<Rightarrow> triage_response option" where
  "triage_dec b =
     (case (jtext b ''action_correlation_id'', jtext b ''item_id'', jtext b ''state'') of
        (Some c, Some i, Some s) \<Rightarrow>
          Some \<lparr>tr_action_correlation_id = c, tr_item_id = i, tr_state = s\<rparr>
      | _ \<Rightarrow> None)"

definition ACTION_TO_STATE :: "(string \<times> string) list" where
  "ACTION_TO_STATE = [(''accept'', ''accepted''), (''reject'', ''rejected''), (''defer'', ''pending'')]"

definition triage_replay_if_present ::
  "string \<Rightarrow> string \<Rightarrow> string \<Rightarrow> registry_db \<Rightarrow> (int \<times> triage_response) option res" where
  "triage_replay_if_present key action item d = replay_with triage_dec key action item d"

definition triage_persist_idempotency ::
  "string \<Rightarrow> string \<Rightarrow> string \<Rightarrow> int \<Rightarrow> triage_response \<Rightarrow> string \<Rightarrow> string \<Rightarrow> registry_db
     \<Rightarrow> unit res \<times> registry_db" where
  "triage_persist_idempotency key action item status r created expires d =
     persist_with triage_enc key action item status r created expires d"

text \<open>The transaction; a failure rolls back to the database it began with.\<close>

definition triage_apply ::
  "string \<Rightarrow> string \<Rightarrow> string \<Rightarrow> string \<Rightarrow> string \<Rightarrow> string \<Rightarrow> string \<Rightarrow> string option \<Rightarrow> string option
     \<Rightarrow> registry_db \<Rightarrow> triage_response res \<times> registry_db" where
  "triage_apply now expires new_state action item key actor reason client_ip d =
     (if get_file d item = None then (Inl (LookupError ''Item not found''), d)
      else
        let d1 = update_file item (\<lambda>r. r\<lparr>f_status := new_state, f_updated_at := now\<rparr>) d;
            d2 = add_audit (Some item) (resolve_account_name d1 item) (''triage_'' @ action @ ''_applied'') reason
                   (Some (triage_details [(''item_id'', JText item), (''state'', JText new_state),
                      (''phase'', JText ''applied'')] client_ip)) actor now d1;
            resp = \<lparr>tr_action_correlation_id = key, tr_item_id = item, tr_state = new_state\<rparr>
        in (case triage_persist_idempotency key action item 200 resp now expires d2 of
              (Inl e, _) \<Rightarrow> (Inl e, d)
            | (Inr _, d3) \<Rightarrow> (Inr resp, d3)))"

definition purge_thumbnail_best_effort :: "path option \<Rightarrow> string \<Rightarrow> string \<Rightarrow> world \<Rightarrow> world" where
  "purge_thumbnail_best_effort cache action item w =
     (case cache of
        None \<Rightarrow> w
      | Some root \<Rightarrow> if action \<in> {''accept'', ''reject''} then snd (purge_cache_entry root item w) else w)"

definition triage_work ::
  "env \<Rightarrow> path option \<Rightarrow> string \<Rightarrow> string \<Rightarrow> string \<Rightarrow> string option \<Rightarrow> string \<Rightarrow> string option \<Rightarrow> world
     \<Rightarrow> (int \<times> triage_response) res \<times> world" where
  "triage_work E cache action item key reason actor client_ip w =
     (case map_of ACTION_TO_STATE action of
        None \<Rightarrow> (Inl (ValueError (''Unsupported triage action: '' @ action)), w)
      | Some new_state \<Rightarrow>
          (case draw_time E w of (now, w) \<Rightarrow>
             (let w1 = w\<lparr>db := write_triage_requested_event (now_iso E w) action item actor reason client_ip (db w),
                         ticks := Suc (ticks w)\<rparr>
              in case triage_apply (iso E now) (iso E (now + 86400000000)) new_state action item key actor reason
                        client_ip (db w1) of
                   (Inl e, d) \<Rightarrow>
                     (Inl e, w1\<lparr>db := write_triage_compensating_event (now_iso E w1) action item actor reason client_ip d,
                        ticks := Suc (ticks w1)\<rparr>)
                 | (Inr resp, d) \<Rightarrow>
                     (Inr (200, resp), purge_thumbnail_best_effort cache action item (w1\<lparr>db := d\<rparr>)))))"

definition triage_execute ::
  "env \<Rightarrow> path option \<Rightarrow> string \<Rightarrow> string \<Rightarrow> string \<Rightarrow> string option \<Rightarrow> string \<Rightarrow> string option \<Rightarrow> world
     \<Rightarrow> (int \<times> triage_response) res \<times> world" where
  "triage_execute E cache action item key reason actor client_ip w =
     answer_once (triage_replay_if_present key action item)
       (triage_work E cache action item key reason actor client_ip) w"

text \<open>The status code and body the endpoint answers with.\<close>

datatype 'a http = Json int 'a | HttpError int string

definition run_triage_action ::
  "env \<Rightarrow> path option \<Rightarrow> string \<Rightarrow> string \<Rightarrow> string \<Rightarrow> string option \<Rightarrow> string option \<Rightarrow> world
     \<Rightarrow> triage_response http \<times> world" where
  "run_triage_action E cache action item key reason client_ip w =
     (case triage_execute E cache action item key reason ''api'' client_ip w of
        (Inr (code, resp), w) \<Rightarrow> (Json code resp, w)
      | (Inl (LookupError m), w) \<Rightarrow> (HttpError 404 m, w)
      | (Inl (ValueError m), w) \<Rightarrow> (HttpError 409 m, w)
      | (Inl _, w) \<Rightarrow> (HttpError 500 ''Triage action failed'', w))"

interpretation ti: idempotency_log key_owner triage_replay_if_present triage_persist_idempotency
proof -
  have "triage_dec (triage_enc r) = Some r" for r
    by (cases r) (simp add: triage_dec_def triage_enc_def jtext_def jget_def)
  from idempotency_log_with [OF this]
  have "idempotency_log key_owner (replay_with triage_dec) (persist_with triage_enc)" .
  moreover have "replay_with triage_dec = triage_replay_if_present"
    "persist_with triage_enc = triage_persist_idempotency"
    by (simp_all add: fun_eq_iff triage_replay_if_present_def triage_persist_idempotency_def)
  ultimately show "idempotency_log key_owner triage_replay_if_present triage_persist_idempotency" by simp
qed

subsection \<open>The thumbnail purge\<close>

lemma db_purge_cache_entry [simp]: "db (snd (purge_cache_entry root item w)) = db w"
  by (simp add: purge_cache_entry_def Let_def and_then_def fs_call_def split: prod.split sum.split)

lemma db_purge_thumbnail [simp]: "db (purge_thumbnail_best_effort cache action item w) = db w"
  by (simp add: purge_thumbnail_best_effort_def split: option.split)

lemma purge_cache_entry_files:
  assumes "is_reg (node_at (fsys w) k)" and "k \<noteq> fs_key (fsys w) (cache_path_for_sha root item)"
  shows "node_at (fsys (snd (purge_cache_entry root item w))) k = node_at (fsys w) k"
proof -
  let ?c = "cache_path_for_sha root item"
  obtain x g where u: "fs_unlink ?c (fsys w) = (x, g)" by fastforce
  then have g: "node_at g k = node_at (fsys w) k"
    using st.rm_cases [of "fs_key (fsys w) ?c" "fsys w" x g] assms(2) by (auto simp: fs_unlink_def)
  then have "node_at (prune_empty_parents root (path_parent ?c) g) k = node_at g k"
    using dirs_removed_reg [OF prune_removes_dirs] assms(1) by simp
  with u g show ?thesis by (cases x) (simp_all add: purge_cache_entry_def Let_def fs_call_def)
qed

lemma purge_thumbnail_files:
  assumes "is_reg (node_at (fsys w) k)" and "\<And>root. cache = Some root \<Longrightarrow> k \<noteq> fs_key (fsys w) (cache_path_for_sha root item)"
  shows "node_at (fsys (purge_thumbnail_best_effort cache action item w)) k = node_at (fsys w) k"
  using assms purge_cache_entry_files [of w k]
  by (auto simp: purge_thumbnail_best_effort_def split: option.split)

subsection \<open>What a triage request does\<close>

lemma key_owner_frame [simp]:
  "key_owner (update_file sha g d) = key_owner d"
  "key_owner (add_audit s ac x y z u v d) = key_owner d"
  by (simp_all add: key_owner_def update_file_def add_audit_def fun_eq_iff)

lemma triage_persist_tables:
  assumes "triage_persist_idempotency k a i st r c x d = (u, d')"
  shows "get_file d' = get_file d" "audit_log d' = audit_log d" "accepted_records d' = accepted_records d"
    "blocked_rules d' = blocked_rules d"
  using assms put_idempotency_tables [of k a i st "json_dumps '', '' '': '' (triage_enc r)" c x d]
  by (simp_all add: triage_persist_idempotency_def persist_with_def get_file_def fun_eq_iff)

definition same_paths :: "registry_db \<Rightarrow> registry_db \<Rightarrow> bool" where
  "same_paths d d' \<longleftrightarrow> (\<forall>x. map_option f_current_path (get_file d' x) = map_option f_current_path (get_file d x))"

lemma triage_apply_ok:
  assumes "get_file d item \<noteq> None" and "key_owner d key = None"
  shows "\<exists>d' a. triage_apply now ex st action item key actor reason ip d =
      (Inr \<lparr>tr_action_correlation_id = key, tr_item_id = item, tr_state = st\<rparr>, d') \<and>
    status_of d' = (status_of d)(item \<mapsto> st) \<and> same_paths d d' \<and> audit_log d' = audit_log d @ [a] \<and>
    au_action a = ''triage_'' @ action @ ''_applied'' \<and> au_sha256 a = Some item \<and>
    accepted_records d' = accepted_records d"
proof -
  let ?d1 = "update_file item (\<lambda>r. r\<lparr>f_status := st, f_updated_at := now\<rparr>) d"
  let ?det = "triage_details [(''item_id'', JText item), (''state'', JText st), (''phase'', JText ''applied'')] ip"
  let ?d2 = "add_audit (Some item) (resolve_account_name ?d1 item) (''triage_'' @ action @ ''_applied'') reason
      (Some ?det) actor now ?d1"
  let ?r = "\<lparr>tr_action_correlation_id = key, tr_item_id = item, tr_state = st\<rparr>"
  obtain d3 where d3: "triage_persist_idempotency key action item 200 ?r now ex ?d2 = (Inr (), d3)"
    using ti.persist_works [of ?d2 key action item 200 ?r now ex] assms(2) by auto
  note t = triage_persist_tables [OF d3]
  have "status_of d3 = status_of ?d1" using t(1) by (simp add: status_of_def fun_eq_iff)
  also have "\<dots> = (status_of d)(item \<mapsto> st)"
    using fr.status_modify [of "\<lambda>r. r\<lparr>f_status := st, f_updated_at := now\<rparr>" st item d] assms(1) by auto
  finally have st: "status_of d3 = (status_of d)(item \<mapsto> st)" .
  have "same_paths d d3"
    using t(1) by (auto simp: same_paths_def get_file_update option.map_comp comp_def)
  moreover have "accepted_records d3 = accepted_records d"
    using t(3) by (simp add: update_file_def add_audit_def)
  moreover have "triage_apply now ex st action item key actor reason ip d = (Inr ?r, d3)"
    using assms(1) d3 by (simp add: triage_apply_def Let_def)
  ultimately show ?thesis using st t(2) by auto
qed

lemma triage_apply_persists:
  assumes "triage_apply now ex st action item key actor reason ip d = (Inr r, d')"
  shows "\<exists>d2. triage_persist_idempotency key action item 200 r now ex d2 = (Inr (), d')"
  using assms by (auto simp: triage_apply_def Let_def split: if_splits prod.splits sum.splits)

text \<open>
  A triage request under a new key for a registered hash succeeds.  The hash gets the status
  the action names and nothing else of the registry's statuses, stored paths and acceptance records
  changes; exactly the requested and the applied event are appended; and no file of the store
  changes but the cached thumbnail.
\<close>

theorem triage_applies_action:
  assumes "key_owner (db w) key = None" and "get_file (db w) item \<noteq> None"
    and "map_of ACTION_TO_STATE action = Some st"
  shows "\<exists>w' a1 a2. triage_execute E cache action item key reason actor ip w =
      (Inr (200, \<lparr>tr_action_correlation_id = key, tr_item_id = item, tr_state = st\<rparr>), w') \<and>
    status_of (db w') = (status_of (db w))(item \<mapsto> st) \<and> same_paths (db w) (db w') \<and>
    accepted_records (db w') = accepted_records (db w) \<and> audit_log (db w') = audit_log (db w) @ [a1, a2] \<and>
    map au_action [a1, a2] = [''triage_'' @ action @ ''_requested'', ''triage_'' @ action @ ''_applied''] \<and>
    map au_sha256 [a1, a2] = [Some item, Some item] \<and>
    (\<forall>k. is_reg (node_at (fsys w) k) \<longrightarrow>
       (\<forall>root. cache = Some root \<longrightarrow> k \<noteq> fs_key (fsys w) (cache_path_for_sha root item)) \<longrightarrow>
       node_at (fsys w') k = node_at (fsys w) k)"
proof -
  let ?now = "clock E (ticks w)"
  let ?w0 = "w\<lparr>ticks := Suc (ticks w)\<rparr>"
  let ?d1 = "write_triage_requested_event (now_iso E ?w0) action item actor reason ip (db w)"
  let ?w1 = "?w0\<lparr>db := ?d1, ticks := Suc (ticks ?w0)\<rparr>"
  have d1: "get_file ?d1 = get_file (db w)" "key_owner ?d1 = key_owner (db w)"
    "accepted_records ?d1 = accepted_records (db w)"
    by (simp_all add: write_triage_requested_event_def)
  obtain d' a where ap: "triage_apply (iso E ?now) (iso E (?now + 86400000000)) st action item key actor reason ip ?d1 =
      (Inr \<lparr>tr_action_correlation_id = key, tr_item_id = item, tr_state = st\<rparr>, d')"
    "status_of d' = (status_of ?d1)(item \<mapsto> st)" "same_paths ?d1 d'" "audit_log d' = audit_log ?d1 @ [a]"
    "au_action a = ''triage_'' @ action @ ''_applied''" "au_sha256 a = Some item"
    "accepted_records d' = accepted_records ?d1"
    using triage_apply_ok [of ?d1 item key] assms d1 by metis
  let ?w' = "purge_thumbnail_best_effort cache action item (?w1\<lparr>db := d'\<rparr>)"
  have run: "triage_execute E cache action item key reason actor ip w =
      (Inr (200, \<lparr>tr_action_correlation_id = key, tr_item_id = item, tr_state = st\<rparr>), ?w')"
    using ti.fresh [OF assms(1), of action item] assms(3) ap(1)
    by (simp add: triage_execute_def answer_once_def triage_work_def draw_time_def Let_def)
  have files: "node_at (fsys ?w') k = node_at (fsys w) k"
    if "is_reg (node_at (fsys w) k)" "\<forall>root. cache = Some root \<longrightarrow> k \<noteq> fs_key (fsys w) (cache_path_for_sha root item)" for k
    using purge_thumbnail_files [of "?w1\<lparr>db := d'\<rparr>" k cache item action] that by simp
  have "status_of ?d1 = status_of (db w)" using d1(1) by (simp add: status_of_def fun_eq_iff)
  with ap d1 files show ?thesis
    unfolding run by (auto simp: same_paths_def write_triage_requested_event_def)
qed

definition triage_db :: registry_db where
  "triage_db = snd (finalize_unknown_ingest ''t'' ''ab'' 1 ''a.jpg'' ''/p/a.jpg'' ''ann'' ''i1'' ''/a.jpg'' ''m'' ''x'' None empty_db)"

lemma triage_db_facts: "key_owner triage_db k = None" "get_file triage_db ''ab'' \<noteq> None" "get_file triage_db ''cd'' = None"
  by (simp_all add: triage_db_def finalize_unknown_ingest_def Let_def key_owner_def get_file_def empty_db_def
      add_audit_def put_origin_def put_metadata_def put_file_def tbl_upsert_def)

theorem triage_applies_action_witness:
  "\<forall>E. \<exists>w' a1 a2. triage_execute E (Some (path_of ''/c'')) ''accept'' ''ab'' ''key-0001'' None ''api'' None (thumb_world triage_db) =
      (Inr (200, \<lparr>tr_action_correlation_id = ''key-0001'', tr_item_id = ''ab'', tr_state = ''accepted''\<rparr>), w') \<and>
    audit_log (db w') = audit_log triage_db @ [a1, a2]"
proof
  fix E
  have "key_owner (db (thumb_world triage_db)) ''key-0001'' = None" "get_file (db (thumb_world triage_db)) ''ab'' \<noteq> None"
    "map_of ACTION_TO_STATE ''accept'' = Some ''accepted''"
    using triage_db_facts by (simp_all add: thumb_world_def ACTION_TO_STATE_def)
  from triage_applies_action [OF this, of E "Some (path_of ''/c'')" None "''api''" None]
  show "\<exists>w' a1 a2. triage_execute E (Some (path_of ''/c'')) ''accept'' ''ab'' ''key-0001'' None ''api'' None (thumb_world triage_db) =
      (Inr (200, \<lparr>tr_action_correlation_id = ''key-0001'', tr_item_id = ''ab'', tr_state = ''accepted''\<rparr>), w') \<and>
    audit_log (db w') = audit_log triage_db @ [a1, a2]" by (auto simp: thumb_world_def)
qed

text \<open>
  C15: retries are safe.  Whatever request was answered with success, the same request (whatever
  reason, actor or client address it carries) gets the same answer again and changes nothing, and a
  request for another action or another hash under the same key is refused and changes nothing.
\<close>

theorem triage_retry_is_replayed:
  assumes "triage_execute E cache action item key reason actor ip w = (Inr a, w')"
  shows "triage_execute E2 cache2 action item key reason2 actor2 ip2 w' = (Inr a, w') \<and>
    ((action', item') \<noteq> (action, item) \<longrightarrow>
       triage_execute E2 cache2 action' item' key reason2 actor2 ip2 w' = (Inl conflict_exn, w'))"
proof -
  have "triage_replay_if_present key action item (db w') = Inr (Some a)"
    using assms unfolding triage_execute_def
  proof (cases rule: answer_once_cases)
    case worked
    then obtain now ex st d r where "triage_apply now ex st action item key actor reason ip d = (Inr r, db w')"
      and a: "a = (200, r)"
      by (auto simp: triage_work_def draw_time_def Let_def split: option.splits prod.splits sum.splits)
    then obtain d2 where "triage_persist_idempotency key action item 200 r now ex d2 = (Inr (), db w')"
      using triage_apply_persists by blast
    with ti.persist_success a show ?thesis by blast
  qed auto
  then show ?thesis
    using ti.refused [of key action item "db w'" a action' item']
    by (auto simp: triage_execute_def answer_once_def)
qed

definition triage_env :: env where
  "triage_env = \<lparr>clock = (\<lambda>n. int n), iso = int_str, ym_of = (\<lambda>_. (2024, 5)), uuid_hex = nat_str,
     sha256 = (\<lambda>s. s), xfer = (\<lambda>s. s), from_iso = (\<lambda>_. None), from_iso_us = (\<lambda>_. None),
     fn_match = (\<lambda>_ _. False), re_search = (\<lambda>_ _. None)\<rparr>"

definition triaged :: "(int \<times> triage_response) res \<times> world" where
  "triaged = triage_execute triage_env None ''defer'' ''ab'' ''key-0001'' None ''api'' None (thumb_world triage_db)"

lemma triaged_ok: "\<exists>w'. triaged =
    (Inr (200, \<lparr>tr_action_correlation_id = ''key-0001'', tr_item_id = ''ab'', tr_state = ''pending''\<rparr>), w')"
proof -
  let ?w = "thumb_world triage_db"
  let ?d = "write_triage_requested_event (now_iso triage_env (?w\<lparr>ticks := 1\<rparr>)) ''defer'' ''ab'' ''api'' None None triage_db"
  have "get_file ?d ''ab'' \<noteq> None" "key_owner ?d ''key-0001'' = None"
    using triage_db_facts by (simp_all add: write_triage_requested_event_def)
  from triage_apply_ok [OF this, of "iso triage_env 0" "iso triage_env 86400000000" "''pending''" "''defer''" "''api''" None None]
  show ?thesis
    using ti.fresh [OF triage_db_facts(1), of "''key-0001''" "''defer''" "''ab''"]
    by (auto simp: triaged_def triage_execute_def answer_once_def thumb_world_def triage_work_def ACTION_TO_STATE_def
        draw_time_def Let_def triage_env_def)
qed

theorem triage_retry_is_replayed_witness:
  "triage_execute triage_env None ''defer'' ''ab'' ''key-0001'' (Some ''again'') ''api'' None (snd triaged) = triaged \<and>
   triage_execute triage_env None ''reject'' ''ab'' ''key-0001'' None ''api'' None (snd triaged) = (Inl conflict_exn, snd triaged)"
proof -
  from triaged_ok obtain a w' where t: "triaged = (Inr a, w')" by blast
  then have "triage_execute triage_env None ''defer'' ''ab'' ''key-0001'' None ''api'' None (thumb_world triage_db) = (Inr a, w')"
    by (simp add: triaged_def)
  note r = triage_retry_is_replayed [OF this, of triage_env None _ "''api''" _ "''reject''" "''ab''"]
  from r [of "Some ''again''" None] r [of None None] show ?thesis unfolding t by auto
qed

text \<open>
  A request for a hash the registry does not know fails with a lookup error (404), after which
  no file record and no idempotency row has changed, so the key stays usable, and exactly the
  requested and the compensating event have been appended.
\<close>

theorem triage_unknown_item_is_compensated:
  assumes "key_owner (db w) key = None" and "get_file (db w) item = None"
    and "map_of ACTION_TO_STATE action = Some st"
  shows "\<exists>w' a1 a2. triage_execute E cache action item key reason actor ip w = (Inl (LookupError ''Item not found''), w') \<and>
    fsys w' = fsys w \<and> files (db w') = files (db w) \<and>
    ui_action_idempotency (db w') = ui_action_idempotency (db w) \<and>
    audit_log (db w') = audit_log (db w) @ [a1, a2] \<and>
    map au_action [a1, a2] = [''triage_'' @ action @ ''_requested'', ''triage_'' @ action @ ''_compensating'']"
  using ti.fresh [OF assms(1), of action item] assms(2,3)
  by (simp add: triage_execute_def answer_once_def triage_work_def draw_time_def Let_def triage_apply_def
      write_triage_requested_event_def write_triage_compensating_event_def)
    (simp add: add_audit_def)

theorem triage_unknown_item_is_compensated_witness:
  "\<exists>w'. triage_execute triage_env None ''reject'' ''cd'' ''key-0001'' None ''api'' None (thumb_world triage_db) =
     (Inl (LookupError ''Item not found''), w') \<and> files (db w') = files triage_db"
proof -
  let ?w = "thumb_world triage_db"
  have "key_owner (db ?w) ''key-0001'' = None" "get_file (db ?w) ''cd'' = None"
    "map_of ACTION_TO_STATE ''reject'' = Some ''rejected''"
    using triage_db_facts by (simp_all add: thumb_world_def ACTION_TO_STATE_def)
  from triage_unknown_item_is_compensated [OF this, of triage_env None None "''api''" None]
  show ?thesis by (auto simp: thumb_world_def)
qed

end
