(* ===== verification/Blocklist.thy ===== *)
theory Blocklist
  imports Triage
begin

section \<open>The blocklist (\<open>api/services/blocklist_service.py\<close>)\<close>

text \<open>
  Reading and writing the block rules that the ingest engine consults.  Each write is one
  transaction that also stores its response under the idempotency key; a violated constraint of
  \<open>blocked_rules\<close> (unique pattern, known rule type) rolls it back and is reported as a conflict.
\<close>

subsection \<open>Requests and responses\<close>

record block_rule_create =
  bc_pattern :: string
  bc_rule_type :: string
  bc_reason :: "string option"
  bc_enabled :: bool

record block_rule_update =
  bu_pattern :: "string option"
  bu_rule_type :: "string option"
  bu_reason :: "string option"
  bu_enabled :: "bool option"

record block_rule_delete_response =
  bd_id :: int
  bd_deleted :: bool

definition rule_enc :: "blocked_rule_row \<Rightarrow> jobject" where
  "rule_enc r = [(''id'', JInt (int (br_id r))), (''pattern'', JText (br_pattern r)),
     (''rule_type'', JText (br_rule_type r)), (''reason'', json_opt (br_reason r)),
     (''enabled'', JBool (br_enabled r)), (''created_at'', JText (br_created_at r)),
     (''updated_at'', JText (br_updated_at r))]"

definition jtext_opt :: "jobject \<Rightarrow> string \<Rightarrow> string option option" where
  "jtext_opt b k =
     (case jget b k of None \<Rightarrow> Some None | Some JNull \<Rightarrow> Some None | Some (JText s) \<Rightarrow> Some (Some s) | _ \<Rightarrow> None)"

definition jint :: "jobject \<Rightarrow> string \<Rightarrow> int option" where
  "jint b k = (case jget b k of Some (JInt i) \<Rightarrow> Some i | _ \<Rightarrow> None)"

definition jbool :: "jobject \<Rightarrow> string \<Rightarrow> bool option" where
  "jbool b k = (case jget b k of Some (JBool x) \<Rightarrow> Some x | _ \<Rightarrow> None)"

definition rule_dec :: "jobject \<Rightarrow> blocked_rule_row option" where
  "rule_dec b =
     (case (jint b ''id'', jtext b ''pattern'', jtext b ''rule_type'', jtext_opt b ''reason'', jbool b ''enabled'',
        jtext b ''created_at'', jtext b ''updated_at'') of
        (Some i, Some p, Some t, Some r, Some e, Some c, Some u) \<Rightarrow>
          Some \<lparr>br_id = nat i, br_pattern = p, br_rule_type = t, br_reason = r, br_enabled = e,
            br_created_at = c, br_updated_at = u\<rparr>
      | _ \<Rightarrow> None)"

definition delete_enc :: "block_rule_delete_response \<Rightarrow> jobject" where
  "delete_enc r = [(''id'', JInt (bd_id r)), (''deleted'', JBool (bd_deleted r))]"

definition delete_dec :: "jobject \<Rightarrow> block_rule_delete_response option" where
  "delete_dec b =
     (case (jint b ''id'', jbool b ''deleted'') of
        (Some i, Some x) \<Rightarrow> Some \<lparr>bd_id = i, bd_deleted = x\<rparr> | _ \<Rightarrow> None)"

subsection \<open>The table\<close>

definition rule_of_id :: "registry_db \<Rightarrow> int \<Rightarrow> blocked_rule_row option" where
  "rule_of_id d rule_id = find (\<lambda>r. int (br_id r) = rule_id) (blocked_rules d)"

definition rule_type_ok :: "string \<Rightarrow> bool" where
  "rule_type_ok t \<longleftrightarrow> t \<in> set [''filename'', ''regex'']"

definition rule_exn :: exn where
  "rule_exn = IntegrityError ''constraint failed: blocked_rules''"

definition insert_rule ::
  "string \<Rightarrow> block_rule_create \<Rightarrow> registry_db \<Rightarrow> blocked_rule_row res \<times> registry_db" where
  "insert_rule now p d =
     (let row = \<lparr>br_id = Suc (blocked_seq d), br_pattern = bc_pattern p, br_rule_type = bc_rule_type p,
            br_reason = bc_reason p, br_enabled = bc_enabled p, br_created_at = now, br_updated_at = now\<rparr> in
      if list_ex (\<lambda>r. br_pattern r = bc_pattern p) (blocked_rules d) \<or> \<not> rule_type_ok (bc_rule_type p)
      then (Inl rule_exn, d)
      else (Inr row, d\<lparr>blocked_rules := blocked_rules d @ [row], blocked_seq := Suc (blocked_seq d)\<rparr>))"

definition replace_rule :: "blocked_rule_row \<Rightarrow> registry_db \<Rightarrow> blocked_rule_row res \<times> registry_db" where
  "replace_rule row d =
     (if list_ex (\<lambda>r. br_pattern r = br_pattern row \<and> br_id r \<noteq> br_id row) (blocked_rules d) \<or>
         \<not> rule_type_ok (br_rule_type row)
      then (Inl rule_exn, d)
      else (Inr row, d\<lparr>blocked_rules := map (\<lambda>r. if br_id r = br_id row then row else r) (blocked_rules d)\<rparr>))"

definition remove_rule :: "int \<Rightarrow> registry_db \<Rightarrow> registry_db" where
  "remove_rule rule_id d = d\<lparr>blocked_rules := filter (\<lambda>r. int (br_id r) \<noteq> rule_id) (blocked_rules d)\<rparr>"

subsection \<open>The service\<close>

definition get_blocklist :: "registry_db \<Rightarrow> blocked_rule_row list" where
  "get_blocklist d = sort_key br_id (blocked_rules d)"

definition rule_replay_if_present ::
  "string \<Rightarrow> string \<Rightarrow> string \<Rightarrow> registry_db \<Rightarrow> (int \<times> blocked_rule_row) option res" where
  "rule_replay_if_present key action item d = replay_with rule_dec key action item d"

definition delete_replay_if_present ::
  "string \<Rightarrow> string \<Rightarrow> string \<Rightarrow> registry_db \<Rightarrow> (int \<times> block_rule_delete_response) option res" where
  "delete_replay_if_present key action item d = replay_with delete_dec key action item d"

text \<open>
  \<open>_persist_idempotency\<close> reads the clock itself: a step of the world, rolled back with the
  transaction (\<open>d0\<close>) when it fails; the exception handler of the caller gives the error.
\<close>

definition persist_step ::
  "env \<Rightarrow> ('r \<Rightarrow> jobject) \<Rightarrow> registry_db \<Rightarrow> (exn \<Rightarrow> exn) \<Rightarrow> string \<Rightarrow> string \<Rightarrow> string \<Rightarrow> int \<Rightarrow> 'r \<Rightarrow> world
     \<Rightarrow> (int \<times> 'r) res \<times> world" where
  "persist_step E enc d0 handler key action item status r w =
     (case draw_time E w of (now, w) \<Rightarrow>
        (case persist_with enc key action item status r (iso E now) (iso E (now + 86400000000)) (db w) of
           (Inl e, _) \<Rightarrow> (Inl (handler e), w\<lparr>db := d0\<rparr>)
         | (Inr _, d) \<Rightarrow> (Inr (status, r), w\<lparr>db := d\<rparr>)))"

definition on_integrity :: "string \<Rightarrow> exn \<Rightarrow> exn" where
  "on_integrity m e = (case e of IntegrityError _ \<Rightarrow> ValueError m | _ \<Rightarrow> e)"

definition create_rule ::
  "env \<Rightarrow> block_rule_create \<Rightarrow> string \<Rightarrow> world \<Rightarrow> (int \<times> blocked_rule_row) res \<times> world" where
  "create_rule E p key w =
     answer_once (rule_replay_if_present key ''blocklist_create'' (bc_pattern p)) (\<lambda>w.
       (let handler = on_integrity ''Blocklist pattern already exists or rule_type invalid''; d0 = db w in
        case draw_time E w of (now, w) \<Rightarrow>
          (case insert_rule (iso E now) p (db w) of
             (Inl e, d) \<Rightarrow> (Inl (handler e), w\<lparr>db := d0\<rparr>)
           | (Inr row, d) \<Rightarrow>
               persist_step E rule_enc d0 handler key ''blocklist_create'' (bc_pattern p) 201 row (w\<lparr>db := d\<rparr>)))) w"

definition updated_rule :: "string \<Rightarrow> block_rule_update \<Rightarrow> blocked_rule_row \<Rightarrow> blocked_rule_row" where
  "updated_rule now p cur =
     cur\<lparr>br_pattern := (case bu_pattern p of Some x \<Rightarrow> x | None \<Rightarrow> br_pattern cur),
       br_rule_type := (case bu_rule_type p of Some x \<Rightarrow> x | None \<Rightarrow> br_rule_type cur),
       br_reason := (case bu_reason p of Some x \<Rightarrow> Some x | None \<Rightarrow> br_reason cur),
       br_enabled := (case bu_enabled p of Some x \<Rightarrow> x | None \<Rightarrow> br_enabled cur),
       br_updated_at := now\<rparr>"

definition update_rule ::
  "env \<Rightarrow> int \<Rightarrow> block_rule_update \<Rightarrow> string \<Rightarrow> world \<Rightarrow> (int \<times> blocked_rule_row) res \<times> world" where
  "update_rule E rule_id p key w =
     answer_once (rule_replay_if_present key ''blocklist_update'' (int_str rule_id)) (\<lambda>w.
       case rule_of_id (db w) rule_id of
         None \<Rightarrow> (Inl (LookupError ''Block rule not found''), w)
       | Some cur \<Rightarrow>
           (let handler = on_integrity ''Blocklist update violates uniqueness or rule_type constraints''; d0 = db w in
            case draw_time E w of (now, w) \<Rightarrow>
              (case replace_rule (updated_rule (iso E now) p cur) (db w) of
                 (Inl e, d) \<Rightarrow> (Inl (handler e), w\<lparr>db := d0\<rparr>)
               | (Inr row, d) \<Rightarrow>
                   persist_step E rule_enc d0 handler key ''blocklist_update'' (int_str rule_id) 200 row (w\<lparr>db := d\<rparr>)))) w"

definition delete_rule ::
  "env \<Rightarrow> int \<Rightarrow> string \<Rightarrow> world \<Rightarrow> (int \<times> block_rule_delete_response) res \<times> world" where
  "delete_rule E rule_id key w =
     answer_once (delete_replay_if_present key ''blocklist_delete'' (int_str rule_id)) (\<lambda>w.
       case rule_of_id (db w) rule_id of
         None \<Rightarrow> (Inl (LookupError ''Block rule not found''), w)
       | Some cur \<Rightarrow>
           persist_step E delete_enc (db w) id key ''blocklist_delete'' (int_str rule_id) 200
             \<lparr>bd_id = rule_id, bd_deleted = True\<rparr> (w\<lparr>db := remove_rule rule_id (db w)\<rparr>)) w"

interpretation ri: idempotency_log key_owner rule_replay_if_present "persist_with rule_enc"
proof -
  have "rule_dec (rule_enc r) = Some r" for r
    by (cases r) (simp add: rule_dec_def rule_enc_def jtext_def jtext_opt_def jint_def jbool_def jget_def json_opt_def
        split: option.split)
  from idempotency_log_with [OF this]
  have "idempotency_log key_owner (replay_with rule_dec) (persist_with rule_enc)" .
  moreover have "replay_with rule_dec = rule_replay_if_present"
    by (simp add: fun_eq_iff rule_replay_if_present_def)
  ultimately show "idempotency_log key_owner rule_replay_if_present (persist_with rule_enc)" by simp
qed

interpretation di: idempotency_log key_owner delete_replay_if_present "persist_with delete_enc"
proof -
  have "delete_dec (delete_enc r) = Some r" for r
    by (cases r) (simp add: delete_dec_def delete_enc_def jint_def jbool_def jget_def)
  from idempotency_log_with [OF this]
  have "idempotency_log key_owner (replay_with delete_dec) (persist_with delete_enc)" .
  moreover have "replay_with delete_dec = delete_replay_if_present"
    by (simp add: fun_eq_iff delete_replay_if_present_def)
  ultimately show "idempotency_log key_owner delete_replay_if_present (persist_with delete_enc)" by simp
qed

subsection \<open>Facts about one write\<close>

lemma persist_with_tables:
  assumes "persist_with enc k a i st r c x d = (u, d')"
  shows "blocked_rules d' = blocked_rules d" "blocked_seq d' = blocked_seq d" "files d' = files d"
    "audit_log d' = audit_log d" "accepted_records d' = accepted_records d" "metadata_index d' = metadata_index d"
  using assms by (auto simp: persist_with_def put_idempotency_def split: option.splits)

lemma key_owner_rules [simp]:
  "key_owner (d\<lparr>blocked_rules := rs, blocked_seq := n\<rparr>) = key_owner d"
  "key_owner (d\<lparr>blocked_rules := rs\<rparr>) = key_owner d"
  by (simp_all add: key_owner_def fun_eq_iff)

lemma key_owner_insert_rule: "key_owner (snd (insert_rule now p d)) = key_owner d"
  by (simp add: insert_rule_def Let_def)

lemma key_owner_replace_rule: "key_owner (snd (replace_rule row d)) = key_owner d"
  by (simp add: replace_rule_def)

lemma persist_step_cases:
  assumes "persist_step E enc d0 handler key action item status r w = (x, w')"
  obtains (failed) e where "x = Inl e" "db w' = d0" "fsys w' = fsys w"
    | (stored) c ex where "x = Inr (status, r)" "persist_with enc key action item status r c ex (db w) = (Inr (), db w')" "fsys w' = fsys w"
proof (cases "persist_with enc key action item status r (iso E (clock E (ticks w)))
    (iso E (clock E (ticks w) + 86400000000)) (db w)")
  case (Pair y d)
  with assms that show ?thesis by (cases y) (auto simp: persist_step_def draw_time_def)
qed

lemma persist_step_fresh:
  assumes "idempotency_log key_owner replay (persist_with enc)" and "key_owner (db w) key = None"
  shows "\<exists>w'. persist_step E enc dz handler key action item status r w = (Inr (status, r), w') \<and>
    blocked_rules (db w') = blocked_rules (db w) \<and> fsys w' = fsys w"
proof -
  let ?n = "clock E (ticks w)"
  obtain d' where d': "persist_with enc key action item status r (iso E ?n) (iso E (?n + 86400000000)) (db w) = (Inr (), d')"
    using idempotency_log.persist_works [OF assms] by blast
  with persist_with_tables(1) [OF d'] show ?thesis by (simp add: persist_step_def draw_time_def)
qed

lemma rule_log: "idempotency_log key_owner rule_replay_if_present (persist_with rule_enc)"
  by unfold_locales

lemma delete_log: "idempotency_log key_owner delete_replay_if_present (persist_with delete_enc)"
  by unfold_locales

text \<open>
  C16: creating a rule under a new key succeeds exactly when no rule has its pattern and its type
  is known; then the rule with the payload's fields and a new id is appended to the list, and
  nothing else of the list changes.  Otherwise the request is refused as a conflict and the whole
  database is as it was.
\<close>

theorem create_rule_adds_or_refuses:
  assumes "key_owner (db w) key = None"
  shows "\<exists>w'. if list_ex (\<lambda>r. br_pattern r = bc_pattern p) (blocked_rules (db w)) \<or> \<not> rule_type_ok (bc_rule_type p)
    then create_rule E p key w = (Inl (ValueError ''Blocklist pattern already exists or rule_type invalid''), w') \<and>
      db w' = db w
    else \<exists>row. create_rule E p key w = (Inr (201, row), w') \<and> blocked_rules (db w') = blocked_rules (db w) @ [row] \<and>
      br_id row = Suc (blocked_seq (db w)) \<and> br_pattern row = bc_pattern p \<and> br_rule_type row = bc_rule_type p \<and>
      br_reason row = bc_reason p \<and> br_enabled row = bc_enabled p"
proof -
  have fresh: "rule_replay_if_present key ''blocklist_create'' (bc_pattern p) (db w) = Inr None"
    by (rule ri.fresh [OF assms])
  let ?now = "iso E (clock E (ticks w))"
  let ?w1 = "w\<lparr>ticks := Suc (ticks w)\<rparr>"
  show ?thesis
  proof (cases "list_ex (\<lambda>r. br_pattern r = bc_pattern p) (blocked_rules (db w)) \<or> \<not> rule_type_ok (bc_rule_type p)")
    case True
    then have "insert_rule ?now p (db w) = (Inl rule_exn, db w)" by (simp add: insert_rule_def Let_def)
    with fresh True show ?thesis
      by (simp add: create_rule_def answer_once_def draw_time_def Let_def on_integrity_def rule_exn_def)
  next
    case False
    let ?row = "\<lparr>br_id = Suc (blocked_seq (db w)), br_pattern = bc_pattern p, br_rule_type = bc_rule_type p,
        br_reason = bc_reason p, br_enabled = bc_enabled p, br_created_at = ?now, br_updated_at = ?now\<rparr>"
    let ?d = "(db w)\<lparr>blocked_rules := blocked_rules (db w) @ [?row], blocked_seq := Suc (blocked_seq (db w))\<rparr>"
    have ins: "insert_rule ?now p (db w) = (Inr ?row, ?d)" using False by (simp add: insert_rule_def Let_def)
    obtain w' where w': "persist_step E rule_enc (db w)
        (on_integrity ''Blocklist pattern already exists or rule_type invalid'') key ''blocklist_create''
        (bc_pattern p) 201 ?row (?w1\<lparr>db := ?d\<rparr>) = (Inr (201, ?row), w')"
      "blocked_rules (db w') = blocked_rules (db w) @ [?row]"
      using persist_step_fresh [where w = "?w1\<lparr>db := ?d\<rparr>" and key = key and E = E and dz = "db w" and
          handler = "on_integrity ''Blocklist pattern already exists or rule_type invalid''" and
          action = "''blocklist_create''" and item = "bc_pattern p" and status = 201 and r = ?row, OF rule_log] assms
      by auto
    have "create_rule E p key w = (Inr (201, ?row), w')"
      using fresh ins w'(1) by (simp add: create_rule_def answer_once_def draw_time_def Let_def)
    with w'(2) False show ?thesis by auto
  qed
qed

definition raw_rule :: block_rule_create where
  "raw_rule = \<lparr>bc_pattern = ''*.tmp'', bc_rule_type = ''filename'', bc_reason = None, bc_enabled = True\<rparr>"

theorem create_rule_adds_or_refuses_witness:
  "\<exists>row w'. create_rule triage_env raw_rule ''key-0001'' (thumb_world triage_db) = (Inr (201, row), w') \<and>
     map br_pattern (blocked_rules (db w')) = [''*.tmp'']"
proof -
  have "key_owner (db (thumb_world triage_db)) ''key-0001'' = None"
    using triage_db_facts by (simp add: thumb_world_def)
  moreover have "blocked_rules (db (thumb_world triage_db)) = []"
    by (simp add: thumb_world_def triage_db_def finalize_unknown_ingest_def Let_def empty_db_def
        add_audit_def put_origin_def put_metadata_def put_file_def)
  moreover have "rule_type_ok (bc_rule_type raw_rule)" by (simp add: raw_rule_def rule_type_ok_def)
  ultimately show ?thesis
    using create_rule_adds_or_refuses [of "thumb_world triage_db" "''key-0001''" raw_rule triage_env]
    by (auto simp: raw_rule_def)
qed

subsection \<open>Retries\<close>

lemma create_stored:
  assumes "create_rule E p key w = (Inr a, w')"
  shows "rule_replay_if_present key ''blocklist_create'' (bc_pattern p) (db w') = Inr (Some a)"
  using assms unfolding create_rule_def
proof (cases rule: answer_once_cases)
  case worked
  then show ?thesis
    by (auto simp: draw_time_def Let_def split: prod.splits sum.splits elim!: persist_step_cases
        dest: ri.persist_success)
qed auto

lemma update_stored:
  assumes "update_rule E rule_id p key w = (Inr a, w')"
  shows "rule_replay_if_present key ''blocklist_update'' (int_str rule_id) (db w') = Inr (Some a)"
  using assms unfolding update_rule_def
proof (cases rule: answer_once_cases)
  case worked
  then show ?thesis
    by (auto simp: draw_time_def Let_def split: prod.splits sum.splits option.splits elim!: persist_step_cases
        dest: ri.persist_success)
qed auto

lemma delete_stored:
  assumes "delete_rule E rule_id key w = (Inr a, w')"
  shows "delete_replay_if_present key ''blocklist_delete'' (int_str rule_id) (db w') = Inr (Some a)"
  using assms unfolding delete_rule_def
proof (cases rule: answer_once_cases)
  case worked
  then show ?thesis
    by (auto split: option.splits elim!: persist_step_cases dest: di.persist_success)
qed auto

text \<open>
  The blocklist writes are safe to retry.  After a create, an update or a delete has been
  answered with success, the same request under the same key is answered the same and changes
  nothing.
\<close>

theorem blocklist_retry_is_replayed:
  "(create_rule E p key w = (Inr a, w') \<longrightarrow> create_rule E2 p key w' = (Inr a, w')) \<and>
   (update_rule E rule_id q key w = (Inr b, w') \<longrightarrow> update_rule E2 rule_id q2 key w' = (Inr b, w')) \<and>
   (delete_rule E rule_id key w = (Inr c, w') \<longrightarrow> delete_rule E2 rule_id key w' = (Inr c, w'))"
  using create_stored [of E p key w a w'] update_stored [of E rule_id q key w b w'] delete_stored [of E rule_id key w c w']
  by (auto simp: create_rule_def update_rule_def delete_rule_def answer_once_def)

lemma raw_rule_created:
  "\<exists>a w'. create_rule triage_env raw_rule ''key-0001'' (thumb_world empty_db) = (Inr a, w')"
  by (simp add: create_rule_def answer_once_def rule_replay_if_present_def replay_with_def thumb_world_def empty_db_def
      draw_time_def insert_rule_def raw_rule_def rule_type_ok_def Let_def persist_step_def persist_with_def put_idempotency_def)

theorem blocklist_retry_is_replayed_witness:
  "\<exists>a w'. create_rule triage_env raw_rule ''key-0001'' (thumb_world empty_db) = (Inr a, w') \<and>
     create_rule triage_env raw_rule ''key-0001'' w' = (Inr a, w')"
  using raw_rule_created blocklist_retry_is_replayed [of triage_env raw_rule "''key-0001''" "thumb_world empty_db"] by blast

subsection \<open>The writes keep the registry well-formed\<close>

lemma wf_insert_rule: "wf_db d \<Longrightarrow> wf_db (snd (insert_rule now p d))"
  unfolding wf_db_def wf_defs insert_rule_def file_known_def
  by (auto simp: Let_def rule_type_ok_def list_ex_iff)

lemma map_replace_id: "map (br_id \<circ> (\<lambda>r. if br_id r = br_id row then row else r)) rs = map br_id rs"
  by (induction rs) auto

lemma map_replace_absent:
  "br_id row \<notin> br_id ` set rs \<Longrightarrow> map (\<lambda>r. if br_id r = br_id row then row else r) rs = rs"
  by (induction rs) auto

lemma distinct_replace_pattern:
  assumes "distinct (map br_id rs)" and "distinct (map br_pattern rs)"
    and "\<forall>r \<in> set rs. br_pattern r = br_pattern row \<longrightarrow> br_id r = br_id row"
  shows "distinct (map br_pattern (map (\<lambda>r. if br_id r = br_id row then row else r) rs))"
  using assms
proof (induction rs)
  case (Cons r rs)
  show ?case
  proof (cases "br_id r = br_id row")
    case True
    with Cons.prems(1) have "br_id row \<notin> br_id ` set rs" by simp
    moreover from this Cons.prems(3) have "br_pattern row \<notin> br_pattern ` set rs" by (auto dest: sym)
    ultimately show ?thesis using True Cons.prems(2) by (simp add: map_replace_absent del: map_map)
  next
    case False
    then have "br_pattern r \<noteq> br_pattern row" using Cons.prems(3) by auto
    with Cons.prems(2) have "br_pattern r \<notin> br_pattern ` set (map (\<lambda>r. if br_id r = br_id row then row else r) rs)"
      by auto
    with False Cons show ?thesis by (simp del: map_map)
  qed
qed simp

lemma wf_other_tables:
  "wf_files (blocked_rules_update g d) = wf_files d" "wf_metadata (blocked_rules_update g d) = wf_metadata d"
  "wf_origins (blocked_rules_update g d) = wf_origins d" "wf_accepted (blocked_rules_update g d) = wf_accepted d"
  "wf_audit (blocked_rules_update g d) = wf_audit d" "wf_pairs (blocked_rules_update g d) = wf_pairs d"
  "wf_cache (blocked_rules_update g d) = wf_cache d" "wf_terminal (blocked_rules_update g d) = wf_terminal d"
  "wf_idem (blocked_rules_update g d) = wf_idem d"
  by (simp_all add: wf_files_def wf_metadata_def wf_origins_def wf_accepted_def wf_audit_def wf_pairs_def
      wf_cache_def wf_terminal_def wf_idem_def file_known_def)

lemma wf_db_rules: "wf_db d \<Longrightarrow> wf_db (blocked_rules_update g d) \<longleftrightarrow> wf_rules (blocked_rules_update g d)"
  by (simp add: wf_db_def wf_other_tables)

lemma wf_replace_rule:
  assumes "wf_db d" shows "wf_db (snd (replace_rule row d))"
proof -
  have "distinct (map br_id (blocked_rules d))"
    using assms by (auto simp: wf_db_def wf_rules_def increasing_ids_def intro: strict_sorted_iff [THEN iffD1, THEN conjunct2])
  with assms have "wf_rules (snd (replace_rule row d))"
    using distinct_replace_pattern [of "blocked_rules d" row]
    by (auto simp: wf_db_def wf_rules_def replace_rule_def rule_type_ok_def list_all_iff list_ex_iff map_replace_id)
  with assms show ?thesis by (auto simp: replace_rule_def wf_db_rules)
qed

lemma wf_remove_rule:
  assumes "wf_db d" shows "wf_db (remove_rule rule_id d)"
proof -
  have "wf_rules (remove_rule rule_id d)"
    using assms sorted_wrt_less_filter [of br_id "blocked_rules d" "\<lambda>r. int (br_id r) \<noteq> rule_id"]
    by (auto simp: wf_db_def wf_rules_def remove_rule_def increasing_ids_def list_all_iff distinct_map_filter)
  with assms show ?thesis by (simp add: remove_rule_def wf_db_rules)
qed

text \<open>
  What the API writes leave alone: the registry stays well-formed, no audit row and no file record
  disappears.
\<close>

definition api_frame :: "registry_db \<Rightarrow> registry_db \<Rightarrow> bool" where
  "api_frame d d' \<longleftrightarrow> db_frame d d' \<and> (wf_db d \<longrightarrow> wf_db d')"

interpretation af: step_frame api_frame
  using dbf.frame_refl dbf.frame_trans by unfold_locales (auto simp: api_frame_def)

lemma api_frameI:
  "files d' = files d \<Longrightarrow> audit_log d' = audit_log d \<Longrightarrow> (wf_db d \<Longrightarrow> wf_db d') \<Longrightarrow> api_frame d d'"
  by (simp add: api_frame_def frame_defs file_known_def)

lemma api_frame_insert_rule: "api_frame d (snd (insert_rule now p d))"
  by (rule api_frameI) (simp_all add: wf_insert_rule, simp_all add: insert_rule_def Let_def)

lemma api_frame_replace_rule: "api_frame d (snd (replace_rule row d))"
  by (rule api_frameI) (simp_all add: wf_replace_rule, simp_all add: replace_rule_def)

lemma api_frame_remove_rule: "api_frame d (remove_rule rule_id d)"
  by (rule api_frameI) (simp_all add: wf_remove_rule, simp_all add: remove_rule_def)

lemma api_frame_persist: "api_frame d (snd (persist_with enc k a i st r c x d))"
  unfolding persist_with_def by (rule api_frameI) (simp_all add: wf_put_idempotency)

text \<open>
  A relation between databases that the four statements of the rule service respect is respected
  by its three handlers, whichever of their branches is taken.
\<close>

locale rule_methods = step_frame D for D :: "registry_db \<Rightarrow> registry_db \<Rightarrow> bool" +
  assumes m_insert_rule: "D d (snd (insert_rule now p d))"
    and m_replace_rule: "D d (snd (replace_rule row d))"
    and m_remove_rule: "D d (remove_rule rule_id d)"
    and m_persist_rule: "D d (snd (persist_with rule_enc k a i st r c x d))"
    and m_persist_delete: "D d (snd (persist_with delete_enc k a i st r' c x d))"
begin

lemma frame_persist_step:
  assumes enc: "\<And>d c x. D d (snd (persist_with enc key action item status r c x d))" and "D d0 (db w)"
  shows "D d0 (db (snd (persist_step E enc d0 handler key action item status r w)))"
proof -
  obtain x w' where p: "persist_step E enc d0 handler key action item status r w = (x, w')" by fastforce
  then show ?thesis
  proof (cases rule: persist_step_cases)
    case (failed e)
    with p show ?thesis by (simp add: frame_refl)
  next
    case (stored c ex)
    with enc [of "db w" c ex] p
    have "D (db w) (db w')" by simp
    with assms p show ?thesis by (auto intro: frame_trans)
  qed
qed

lemma frame_answer_once:
  assumes "D (db w) (db (snd (work w)))"
  shows "D (db w) (db (snd (answer_once replay work w)))"
  using assms by (auto simp: answer_once_def frame_refl split: sum.split option.split)

lemma frame_create_rule: "D (db w) (db (snd (create_rule E p key w)))"
  unfolding create_rule_def
proof (rule frame_answer_once, goal_cases)
  case 1
  let ?n = "iso E (clock E (ticks w))"
  obtain x d where ins: "insert_rule ?n p (db w) = (x, d)" by fastforce
  then have "D (db w) d" using m_insert_rule [of "db w" ?n p] by simp
  with ins show ?case
    by (cases x) (simp_all add: draw_time_def Let_def frame_persist_step m_persist_rule frame_refl)
qed

lemma frame_update_rule: "D (db w) (db (snd (update_rule E rule_id p key w)))"
  unfolding update_rule_def
proof (rule frame_answer_once, goal_cases)
  case 1
  show ?case
  proof (cases "rule_of_id (db w) rule_id")
    case None
    then show ?thesis by (simp add: frame_refl)
  next
    case (Some cur)
    let ?row = "updated_rule (iso E (clock E (ticks w))) p cur"
    obtain x d where rep: "replace_rule ?row (db w) = (x, d)" by fastforce
    then have "D (db w) d" using m_replace_rule [of "db w" ?row] by simp
    with rep Some show ?thesis
      by (cases x) (simp_all add: draw_time_def Let_def frame_persist_step m_persist_rule frame_refl)
  qed
qed

lemma frame_delete_rule: "D (db w) (db (snd (delete_rule E rule_id key w)))"
  unfolding delete_rule_def
  by (rule frame_answer_once)
    (auto simp: frame_refl m_remove_rule m_persist_delete intro!: frame_persist_step split: option.split)

end

interpretation ap: rule_methods api_frame
  by unfold_locales (rule api_frame_insert_rule api_frame_replace_rule api_frame_remove_rule api_frame_persist)+

interpretation fk: rule_methods "\<lambda>d d'. files d' = files d"
  by unfold_locales (simp_all add: insert_rule_def replace_rule_def remove_rule_def persist_with_def
      put_idempotency_def Let_def split: option.split)

lemma api_frame_add_audit: "api_frame d (add_audit sha ac action reason det actor now d)"
  by (auto simp: api_frame_def frame_defs intro: wf_add_audit)

lemma api_frame_triage_apply:
  assumes "validate_status st"
  shows "api_frame d (snd (triage_apply now ex st action item key actor reason ip d))"
proof -
  let ?d1 = "update_file item (\<lambda>r. r\<lparr>f_status := st, f_updated_at := now\<rparr>) d"
  have "api_frame d ?d1" using assms by (auto simp: api_frame_def frame_defs intro!: wf_update_file)
  let ?d2 = "add_audit (Some item) (resolve_account_name ?d1 item) (''triage_'' @ action @ ''_applied'') reason
      (Some (triage_details [(''item_id'', JText item), (''state'', JText st), (''phase'', JText ''applied'')] ip)) actor now ?d1"
  let ?r = "\<lparr>tr_action_correlation_id = key, tr_item_id = item, tr_state = st\<rparr>"
  have d2: "api_frame d ?d2" by (rule af.frame_trans [OF \<open>api_frame d ?d1\<close> api_frame_add_audit])
  obtain x d3 where p: "triage_persist_idempotency key action item 200 ?r now ex ?d2 = (x, d3)" by fastforce
  then have "api_frame ?d2 d3"
    using api_frame_persist [of ?d2 triage_enc key action item 200 ?r now ex] by (simp add: triage_persist_idempotency_def)
  with d2 have "api_frame d d3" by (rule af.frame_trans)
  with p show ?thesis by (cases x) (simp_all add: triage_apply_def Let_def af.frame_refl)
qed

lemma ACTION_TO_STATE_valid: "map_of ACTION_TO_STATE action = Some st \<Longrightarrow> validate_status st"
  by (auto simp: ACTION_TO_STATE_def split: if_splits)

lemma api_frame_triage: "api_frame (db w) (db (snd (triage_execute E cache action item key reason actor ip w)))"
  unfolding triage_execute_def
proof (rule ap.frame_answer_once, goal_cases)
  case 1
  show ?case
  proof (cases "map_of ACTION_TO_STATE action")
    case None
    then show ?thesis by (simp add: triage_work_def af.frame_refl)
  next
    case (Some st)
    let ?now = "clock E (ticks w)"
    let ?d1 = "write_triage_requested_event (now_iso E (w\<lparr>ticks := Suc (ticks w)\<rparr>)) action item actor reason ip (db w)"
    obtain x d where ap: "triage_apply (iso E ?now) (iso E (?now + 86400000000)) st action item key actor reason ip ?d1 = (x, d)"
      by fastforce
    have "api_frame (db w) ?d1" by (simp add: write_triage_requested_event_def api_frame_add_audit)
    moreover have "api_frame ?d1 d"
      using api_frame_triage_apply [OF ACTION_TO_STATE_valid [OF Some]] ap by (metis snd_conv)
    ultimately have d: "api_frame (db w) d" by (rule af.frame_trans)
    have "api_frame d (write_triage_compensating_event n action item actor reason ip d)" for n
      by (simp add: write_triage_compensating_event_def api_frame_add_audit)
    with d Some ap show ?thesis
      by (cases x) (auto simp: triage_work_def draw_time_def Let_def intro: af.frame_trans)
  qed
qed

end
