(* ===== verification/System.thy ===== *)
theory System
  imports Ingest_Props Reject_Props Blocklist
begin

section \<open>The system\<close>

text \<open>
  The processes that share one registry: the poller (batches, replay, staging upkeep), the
  operator commands and the web API.  They run one after the other on the world; between them
  files, journals and the clock change at will.  A step carries the hash a human decision accepts,
  if it is one.
\<close>

inductive system_step :: "env \<Rightarrow> app_config \<Rightarrow> world \<Rightarrow> string option \<Rightarrow> world \<Rightarrow> bool" for E C where
  batch: "system_step E C w None (snd (process_batch E jc P cs version 1 size_aware h w))"
| replay: "system_step E C w None (snd (replay_interrupted_operations E jc w))"
| cleanup: "system_step E C w None (snd (cleanup_staging_tmp_files E dir ttl w))"
| reconcile: "system_step E C w None (snd (reconcile_staging_drift E sd qd t1 t2 t3 thr w))"
| reject: "system_step E C w None (snd (reject_sha256 E C sha reason actor w))"
| trash: "system_step E C w None (snd (process_trash E C w))"
| purge: "system_step E C w None (snd (purge_sha256 E C sha reason actor w))"
| accept: "system_step E C w (Some (normalize_sha sha)) (snd (accept_sha256 E C sha reason actor w))"
| triage: "system_step E C w (if action = ''accept'' then Some item else None)
    (snd (triage_execute E cache action item key reason actor ip w))"
| rule_create: "system_step E C w None (snd (create_rule E p key w))"
| rule_update: "system_step E C w None (snd (update_rule E rule_id u key w))"
| rule_delete: "system_step E C w None (snd (delete_rule E rule_id key w))"
| thumbnails: "system_step E C w None (snd (garbage_collect cache w))"
| outside: "system_step E C w None (w\<lparr>fsys := f, jfiles := j, ticks := n\<rparr>)"

inductive system_run :: "env \<Rightarrow> app_config \<Rightarrow> world \<Rightarrow> string option list \<Rightarrow> world \<Rightarrow> bool" for E C where
  idle: "system_run E C w [] w"
| more: "system_step E C w l w1 \<Longrightarrow> system_run E C w1 ls w2 \<Longrightarrow> system_run E C w (l # ls) w2"

subsection \<open>Who accepts\<close>

text \<open>The audit log and the records are kept, and only the given hashes may turn accepted.\<close>

definition accepts_within :: "string set \<Rightarrow> registry_db \<Rightarrow> registry_db \<Rightarrow> bool" where
  "accepts_within A d d' \<longleftrightarrow> db_frame d d' \<and>
     (\<forall>sha. status_of d' sha = Some ''accepted'' \<longrightarrow> status_of d sha = Some ''accepted'' \<or> sha \<in> A)"

definition waccepts_within :: "string set \<Rightarrow> world \<Rightarrow> world \<Rightarrow> bool" where
  "waccepts_within A w w' \<longleftrightarrow> accepts_within A (db w) (db w')"

interpretation awf: step_frame "accepts_within A" for A
  using dbf.frame_refl dbf.frame_trans by unfold_locales (fastforce simp: accepts_within_def)+

interpretation waw: step_frame "waccepts_within A" for A
  using awf.frame_refl awf.frame_trans by unfold_locales (auto simp: waccepts_within_def)

lemma accepts_withinI:
  assumes "db_frame d d'" and "\<And>sha. status_of d' sha \<noteq> status_of d sha \<Longrightarrow> status_of d' sha \<noteq> Some ''accepted'' \<or> sha \<in> A"
  shows "accepts_within A d d'"
  using assms unfolding accepts_within_def by metis

lemma accepts_within_ingest: "ingest_frame d d' \<Longrightarrow> accepts_within A d d'"
  by (auto simp: accepts_within_def ingest_frame_def no_new_accepted_def)

interpretation ww: world_frame "waccepts_within A" "accepts_within A" for A
  by unfold_locales (simp add: waccepts_within_def)

lemma status_transition_status:
  "status_of (snd (transition_status now sha st reason actor d)) =
     (if validate_status st \<and> file_known d sha then (status_of d)(sha \<mapsto> st) else status_of d)"
  by (simp add: transition_status_def guard_def status_of_update_status)

lemma accepts_transition_rejected: "accepts_within A d (snd (transition_status now sha ''rejected'' reason actor d))"
  by (rule accepts_withinI, rule frame_intros) (simp add: status_transition_status split: if_splits)

lemma accepts_pairs: "accepts_within A d (live_photo_pairs_update g d)"
  by (rule accepts_withinI, rule frame_intros) simp

lemma accepts_pair_status:
  "accepts_within A d (snd (apply_live_photo_pair_status n1 n2 n3 pid ''rejected'' reason actor d))"
  unfolding apply_live_photo_pair_status_def
  by (intro awf.frame_guard)
    (auto split: option.split intro!: awf.frame_and_then accepts_transition_rejected accepts_pairs awf.frame_refl)

lemma status_initialize: "status_of (snd (initialize d)) = status_of d"
  by (auto simp: initialize_def run_migrations_def ensure_external_hash_cache_h1_schema_def
      fr.status_of_def get_file_def)

interpretation rj: rejecting_methods "waccepts_within A" "accepts_within A" for A
proof (unfold_locales, goal_cases)
  case 1
  show ?case by (rule accepts_within_ingest, rule frame_intros)
next
  case 2
  show ?case by (rule accepts_withinI, rule frame_intros) (simp add: status_initialize)
next
  case 3
  show ?case by (rule accepts_within_ingest, rule frame_intros) simp
next
  case 4
  show ?case
    by (rule accepts_withinI, rule frame_intros) (simp add: clear_current_path_def status_of_update_path)
next
  case 5
  show ?case
    by (rule accepts_withinI, rule frame_intros) (simp add: update_current_path_def status_of_update_path)
next
  case 6
  show ?case by (rule accepts_transition_rejected)
next
  case 7
  show ?case by (rule accepts_pair_status)
next
  case (8 d now sha reason actor)
  have "status_of (snd (finalize_purge_from_rejected now sha reason actor d)) \<in>
      {status_of d, (status_of d)(sha \<mapsto> ''purged'')}"
    using refines_purge [of now sha reason actor d]
    by (auto simp: refines_step_def split: prod.splits sum.splits if_splits)
  then show ?case by (intro accepts_withinI frame_intros) (auto split: if_splits)
qed

interpretation ra: operator_methods "waccepts_within {target}" "accepts_within {target}" target for target
proof (unfold_locales, goal_cases)
  case (1 d now p account source actor reason)
  have "status_of (snd (finalize_accept_from_pending now target p account source actor reason d)) \<in>
      {status_of d, (status_of d)(target \<mapsto> ''accepted'')}"
    using refines_accept [of now target p account source actor reason d]
    by (auto simp: refines_step_def split: prod.splits sum.splits if_splits)
  then show ?case by (intro accepts_withinI frame_intros) (auto split: if_splits)
qed


lemma status_triage_apply:
  "status_of (snd (triage_apply now ex st action item key actor reason ip d)) \<in>
     {status_of d, (status_of d)(item \<mapsto> st)}"
  by (auto simp: triage_apply_def Let_def triage_persist_idempotency_def persist_with_def put_idempotency_def
      status_of_update_status file_known_get split: option.split)

lemma status_triage:
  "status_of (db (snd (triage_execute E cache action item key reason actor ip w))) \<in>
     insert (status_of (db w)) ((\<lambda>st. (status_of (db w))(item \<mapsto> st)) ` set_option (map_of ACTION_TO_STATE action))"
proof (cases "map_of ACTION_TO_STATE action")
  case None
  then show ?thesis
    by (auto simp: triage_execute_def answer_once_def triage_work_def split: sum.split option.split)
next
  case (Some st)
  let ?now = "clock E (ticks w)"
  let ?d1 = "write_triage_requested_event (now_iso E (w\<lparr>ticks := Suc (ticks w)\<rparr>)) action item actor reason ip (db w)"
  obtain x d where ap: "triage_apply (iso E ?now) (iso E (?now + 86400000000)) st action item key actor reason ip ?d1 = (x, d)"
    by fastforce
  have "status_of ?d1 = status_of (db w)" by (simp add: write_triage_requested_event_def)
  with status_triage_apply [of "iso E ?now" "iso E (?now + 86400000000)" st action item key actor reason ip ?d1] ap
  have "status_of d \<in> {status_of (db w), (status_of (db w))(item \<mapsto> st)}" by simp
  moreover have "status_of (write_triage_compensating_event n action item actor reason ip d) = status_of d" for n
    by (simp add: write_triage_compensating_event_def)
  ultimately show ?thesis using Some ap
    by (cases x) (auto simp: triage_execute_def answer_once_def triage_work_def draw_time_def Let_def
        split: sum.split option.split)
qed

lemma accepts_triage:
  "waccepts_within (set_option (if action = ''accept'' then Some item else None)) w
     (snd (triage_execute E cache action item key reason actor ip w))"
  unfolding waccepts_within_def
proof (rule accepts_withinI)
  show "db_frame (db w) (db (snd (triage_execute E cache action item key reason actor ip w)))"
    using api_frame_triage by (simp add: api_frame_def)
next
  fix sha
  assume "status_of (db (snd (triage_execute E cache action item key reason actor ip w))) sha \<noteq> status_of (db w) sha"
  with status_triage [of E cache action item key reason actor ip w]
  show "status_of (db (snd (triage_execute E cache action item key reason actor ip w))) sha \<noteq> Some ''accepted'' \<or>
      sha \<in> set_option (if action = ''accept'' then Some item else None)"
    by (auto simp: ACTION_TO_STATE_def split: if_splits)
qed

subsection \<open>What every run keeps\<close>

lemma accepts_ingest: "wingest_frame w w' \<Longrightarrow> waccepts_within A w w'"
  by (simp add: wingest_frame_def waccepts_within_def accepts_within_ingest)

lemma accepts_same_files:
  assumes "api_frame (db w) (db w')" and "files (db w') = files (db w)"
  shows "waccepts_within A w w'"
  using assms unfolding waccepts_within_def
  by (intro accepts_withinI) (auto simp: api_frame_def fr.status_of_def get_file_def)

lemma db_gc_loop: "db (snd (gc_loop root ps w)) = db w"
  by (induction root ps w rule: gc_loop.induct)
    (auto simp: and_then_def fs_call_def Let_def split: prod.splits sum.splits)

lemma db_garbage_collect: "db (snd (garbage_collect cache w)) = db w"
  using db_gc_loop by (auto simp: garbage_collect_def and_then_def split: prod.splits sum.splits) (metis snd_conv)+

lemma system_step_accepts: "system_step E C w l w' \<Longrightarrow> waccepts_within (set_option l) w w'"
proof (induction rule: system_step.induct)
  case (accept w sha reason actor)
  show ?case using ra.frame_accept [OF refl] by simp
next
  case (triage w action item cache key reason actor ip)
  show ?case by (rule accepts_triage)
qed (auto intro: accepts_ingest gi.frame_process_batch gi.frame_replay gi.frame_cleanup gi.frame_reconcile
    rj.frame_reject rj.frame_process_trash rj.frame_purge ww.frame_same_db accepts_same_files
    ap.frame_create_rule ap.frame_update_rule ap.frame_delete_rule
    fk.frame_create_rule fk.frame_update_rule fk.frame_delete_rule simp: db_garbage_collect)

lemma api_wf_kept: "api_frame (db w) (db w') \<Longrightarrow> wf_kept w w'"
  by (simp add: api_frame_def wf_kept_def)

lemma system_step_wf: "system_step E C w l w' \<Longrightarrow> wf_kept w w'"
  by (induction rule: system_step.induct)
    (auto intro: gk.frame_process_batch gk.frame_replay gk.frame_cleanup gk.frame_reconcile
      gw.frame_reject gw.frame_process_trash gw.frame_purge gw.frame_accept [OF refl] wk.frame_same_db api_wf_kept
      api_frame_triage ap.frame_create_rule ap.frame_update_rule ap.frame_delete_rule simp: db_garbage_collect)

lemma system_run_frame:
  "system_run E C w ls w' \<Longrightarrow> waccepts_within {sha. Some sha \<in> set ls} w w' \<and> wf_kept w w'"
proof (induction rule: system_run.induct)
  case (idle w)
  then show ?case by (simp add: waw.frame_refl wfk.frame_refl)
next
  case (more w l w1 ls w2)
  let ?A = "{sha. Some sha \<in> set (l # ls)}"
  have mono: "waccepts_within A u v \<Longrightarrow> A \<subseteq> ?A \<Longrightarrow> waccepts_within ?A u v" for A u v
    unfolding waccepts_within_def accepts_within_def by blast
  from mono [OF system_step_accepts [OF more.hyps(1)]] mono [OF conjunct1 [OF more.IH]]
  have "waccepts_within ?A w w1" "waccepts_within ?A w1 w2" by auto
  with system_step_wf [OF more.hyps(1)] more.IH show ?case
    using waw.frame_trans wfk.frame_trans by blast
qed


definition accepted_by_triage :: world where
  "accepted_by_triage = snd (triage_execute triage_env None ''accept'' ''ab'' ''key-0001'' None ''api'' None (thumb_world triage_db))"


subsection \<open>Block rules reach the ingest\<close>

lemma created_rule_present:
  assumes "create_rule E p key w = (Inr (n, row), w1)" and "key_owner (db w) key = None"
  shows "row \<in> set (blocked_rules (db w1)) \<and> br_pattern row = bc_pattern p \<and> br_rule_type row = bc_rule_type p \<and>
    br_enabled row = bc_enabled p \<and> status_of (db w1) = status_of (db w)"
proof -
  have "rule_replay_if_present key ''blocklist_create'' (bc_pattern p) (db w) = Inr None"
    by (rule ri.fresh [OF assms(2)])
  moreover have "status_of (db w1) = status_of (db w)"
    using fk.frame_create_rule [of E p key w] assms(1) by (simp add: fr.status_of_def get_file_def fun_eq_iff)
  ultimately show ?thesis
    using assms(1)
    by (auto simp: create_rule_def answer_once_def draw_time_def Let_def insert_rule_def persist_step_def
        persist_with_def put_idempotency_def split: if_splits option.splits prod.splits sum.splits)
qed

definition rule_matches :: "env \<Rightarrow> string \<Rightarrow> string \<Rightarrow> string \<Rightarrow> bool" where
  "rule_matches E rule_type pattern filename \<longleftrightarrow>
     rule_type = ''filename'' \<and> fn_match E filename pattern \<or>
     rule_type = ''regex'' \<and> re_search E pattern filename = Some True"

lemma first_block_match_some:
  "r \<in> set rs \<Longrightarrow> rule_matches E (br_rule_type r) (br_pattern r) name \<Longrightarrow> first_block_match E name rs \<noteq> None"
  by (induction rs) (auto simp: rule_matches_def)


definition jpg_rule :: block_rule_create where
  "jpg_rule = \<lparr>bc_pattern = ''a.jpg'', bc_rule_type = ''filename'', bc_reason = None, bc_enabled = True\<rparr>"

lemma jpg_rule_created:
  "\<exists>row w1. create_rule pair_env jpg_rule ''key-0001'' (demo_world empty_db) = (Inr (201, row), w1) \<and>
     fsys w1 = fsys (demo_world empty_db) \<and> metadata_index (db w1) = []"
  by (simp add: create_rule_def answer_once_def rule_replay_if_present_def replay_with_def demo_world_def empty_db_def
      draw_time_def insert_rule_def jpg_rule_def rule_type_ok_def Let_def persist_step_def persist_with_def put_idempotency_def)


end
