(* ===== verification/Library_Files.thy ===== *)
theory Library_Files
  imports Storage World Py_Text
begin

section \<open>The photo library and its hash caches\<close>

text \<open>
  What \<open>hash_import.py\<close> and \<open>sync_import.py\<close> share: the listing of a directory, the regular
  expressions of the cache lines as executable readers, and the two digests of a file.  \<open>SHA-1\<close>,
  \<open>SHA-256\<close> and the text \<open>find\<close> prints for a modification time are in \<open>lib_env\<close>.
\<close>

record lib_env =
  le_sha1 :: "string \<Rightarrow> string"
  le_sha256 :: "string \<Rightarrow> string"
  le_time_text :: "int \<Rightarrow> string"

subsection \<open>Directory listings\<close>

definition entry :: "path \<Rightarrow> string \<Rightarrow> path" where
  "entry dir name = Path (is_absolute dir) (segs dir @ [name])"

definition file_names :: "fs \<Rightarrow> path \<Rightarrow> string list" where
  "file_names f dir = map last (filter (\<lambda>k. butlast k = fs_key f dir) (key_files_below (fs_key f dir) f))"

definition dirs_below :: "fs \<Rightarrow> path \<Rightarrow> string list list" where
  "dirs_below f dir =
     (let root = fs_key f dir in
      map (drop (length root)) (map fst (filter (\<lambda>(k, n). strict_prefix root k \<and> n = Dir) (nodes f))))"

definition below :: "path \<Rightarrow> string list \<Rightarrow> path" where
  "below dir rel = Path (is_absolute dir) (segs dir @ rel)"

text \<open>\<open>Path.relative_to\<close> for a path below the root; \<open>None\<close> stands for its \<open>ValueError\<close>.\<close>

definition relative_to :: "path \<Rightarrow> path \<Rightarrow> string option" where
  "relative_to p root =
     (if is_absolute p = is_absolute root \<and> prefix (segs root) (segs p)
      then Some (path_str (Path False (drop (length (segs root)) (segs p)))) else None)"

definition sha1_file :: "lib_env \<Rightarrow> path \<Rightarrow> fs \<Rightarrow> string res" where
  "sha1_file L p f = fst (sha256_file (le_sha1 L) p f)"

subsection \<open>Cache lines\<close>

definition is_hex :: "char \<Rightarrow> bool" where
  "is_hex c \<longleftrightarrow> c \<in> set ''0123456789abcdefABCDEF''"

definition hex_text :: "nat \<Rightarrow> string \<Rightarrow> bool" where
  "hex_text n s \<longleftrightarrow> length s = n \<and> list_all is_hex s"

text \<open>\<open>^DIRECTORY_HASH\s+([0-9a-fA-F]{40})$\<close>, with the group.\<close>

definition directory_hash_header :: "string \<Rightarrow> string option" where
  "directory_hash_header s =
     (let t = drop 14 s; h = dropWhile py_space t in
      if prefix ''DIRECTORY_HASH'' s \<and> length h < length t \<and> hex_text 40 h then Some h else None)"

text \<open>
  \<open>^([0-9a-fA-F]{40})\s+[ *](.+)$\<close>: the white space is matched greedily and given back until a
  blank or a star and a non-empty rest follow.
\<close>

definition sha1_row :: "string \<Rightarrow> (string \<times> string) option" where
  "sha1_row s =
     (let h = take 40 s; t = drop 40 s; n = length (takeWhile py_space t) in
      if \<not> hex_text 40 h then None
      else (case find (\<lambda>k. k < length t \<and> t ! k \<in> {CHR '' '', CHR ''*''} \<and> drop (Suc k) t \<noteq> [] \<and>
                        CHR 0x0A \<notin> set (drop (Suc k) t)) (rev [1..<Suc n]) of
              None \<Rightarrow> None
            | Some k \<Rightarrow> Some (h, drop (Suc k) t)))"

lemma hex_no_space: "is_hex c \<Longrightarrow> \<not> py_space c"
  by (auto simp: is_hex_def py_space_def)

lemma sha1_row_plain:
  assumes "hex_text 40 h" and "p \<noteq> []" and "\<not> py_space (hd p)" and "hd p \<noteq> CHR ''*''" and "CHR 0x0A \<notin> set p"
  shows "sha1_row (h @ ''  '' @ p) = Some (h, p)"
proof -
  obtain c q where p: "p = c # q" using assms(2) by (cases p) auto
  have sp: "py_space (CHR '' '')" by (simp add: py_space_def)
  have t: "take 40 (h @ ''  '' @ p) = h" "drop 40 (h @ ''  '' @ p) = ''  '' @ p"
    using assms(1) by (simp_all add: hex_text_def)
  have "length (takeWhile py_space (''  '' @ p)) = 2" using assms(3) sp p by simp
  moreover have "rev [1..<Suc 2] = [2, 1 :: nat]" by (simp add: upt_rec)
  ultimately show ?thesis
    unfolding sha1_row_def t Let_def using assms(1,3,4,5) p
    by (auto simp: py_space_def)
qed

lemma directory_hash_header_plain:
  assumes "hex_text 40 h"
  shows "directory_hash_header (''DIRECTORY_HASH '' @ h) = Some h"
proof -
  have sp: "py_space (CHR '' '')" by (simp add: py_space_def)
  have "\<forall>c \<in> set h. \<not> py_space c"
    using assms hex_no_space by (auto simp: hex_text_def list_all_iff)
  then have "dropWhile py_space h = h" by (cases h) auto
  with assms sp show ?thesis by (simp add: directory_hash_header_def Let_def)
qed

end
