(* ===== verification/Hash_Import.thy ===== *)
theory Hash_Import
  imports Library_Files Registry_Spec
begin

section \<open>Hash import (\<open>hash_import.py\<close>, \<open>hash_import_cli.py\<close>)\<close>

text \<open>
  The import of the permanent library: one plan per directory, from a current \<open>.hashes.v2\<close> cache,
  from a legacy cache or by hashing, then the insertion of all hashes in chunks.  The library is only
  read.  The pipeline \<open>find | sort | sha1sum\<close> that fingerprints a directory is written out on the file
  store; durations and printed output are left out.
\<close>

definition CACHE_SCHEMA_HEADER :: string where
  "CACHE_SCHEMA_HEADER = ''CACHE_SCHEMA v2''"

definition HASHFILE_V2_NAME :: string where
  "HASHFILE_V2_NAME = ''.hashes.v2''"

definition HASHFILE_V1_NAMES :: "string list" where
  "HASHFILE_V1_NAMES = [''.hashes.sha1'', ''.hashes.v1'']"

definition is_ignored_file :: "string \<Rightarrow> bool" where
  "is_ignored_file name \<longleftrightarrow> name \<in> set (HASHFILE_V2_NAME # HASHFILE_V1_NAMES) \<or> py_lower name = ''thumbs.db''"

record hash_import_row =
  hr_sha1 :: string
  hr_sha256 :: string
  hr_path :: path

record hash_import_plan =
  hp_directory :: path
  hp_source :: string
  hp_sha256_values :: "string list"
  hp_replaced :: bool

record hash_import_summary =
  hs_directories_processed :: nat
  hs_recomputes_performed :: nat
  hs_valid_caches_consumed :: nat
  hs_stale_invalid_caches_replaced :: nat
  hs_total_imported :: nat
  hs_total_skipped :: nat
  hs_chunk_results :: "chunk_result list"

subsection \<open>Reading a cache\<close>

fun parse_v2_rows :: "string \<Rightarrow> nat \<Rightarrow> string list \<Rightarrow> (string \<times> string \<times> string) list res" where
  "parse_v2_rows source n [] = Inr []"
| "parse_v2_rows source n (line # ls) =
     (case split_on (CHR 0x09) line of
        [sha1_value, sha256_value, path_value] \<Rightarrow>
          if \<not> hex_text 40 sha1_value then Inl (HashImportParseError source n ''invalid SHA-1 value in column 1'')
          else if \<not> hex_text 64 sha256_value then Inl (HashImportParseError source n ''invalid SHA-256 value in column 2'')
          else if path_value = [] then Inl (HashImportParseError source n ''empty path in column 3'')
          else (case parse_v2_rows source (Suc n) ls of
                  Inl e \<Rightarrow> Inl e
                | Inr rows \<Rightarrow> Inr ((py_lower sha1_value, py_lower sha256_value, path_value) # rows))
      | _ \<Rightarrow> Inl (HashImportParseError source n ''expected exactly 3 tab-separated fields''))"

definition parse_hashes_v2_lines :: "string \<Rightarrow> string \<Rightarrow> (string \<times> (string \<times> string \<times> string) list) res" where
  "parse_hashes_v2_lines contents source =
     (case splitlines contents of
        [] \<Rightarrow> Inl (HashImportParseError source 1 (''expected exact header '' @ py_quote CACHE_SCHEMA_HEADER))
      | first # lines \<Rightarrow>
          if first \<noteq> CACHE_SCHEMA_HEADER
          then Inl (HashImportParseError source 1 (''expected exact header '' @ py_quote CACHE_SCHEMA_HEADER))
          else (case lines of
                  [] \<Rightarrow> Inl (HashImportParseError source 2 ''missing DIRECTORY_HASH header'')
                | second # rows \<Rightarrow>
                    (case directory_hash_header second of
                       None \<Rightarrow> Inl (HashImportParseError source 2 ''invalid DIRECTORY_HASH header'')
                     | Some h \<Rightarrow>
                         (case parse_v2_rows source 3 rows of
                            Inl e \<Rightarrow> Inl e
                          | Inr rs \<Rightarrow> Inr (py_lower h, rs)))))"

definition parse_hashes_v2_text :: "string \<Rightarrow> string \<Rightarrow> string list res" where
  "parse_hashes_v2_text contents source =
     (case parse_hashes_v2_lines contents source of
        Inl e \<Rightarrow> Inl e | Inr (_, rows) \<Rightarrow> Inr (map (\<lambda>(_, h, _). h) rows))"

definition read_text_file :: "path \<Rightarrow> fs \<Rightarrow> string res" where
  "read_text_file p f =
     (case fst (fs_read p f) of
        Inl e \<Rightarrow> Inl (HashImportParseError (path_str p) 0 ''unable to read file'')
      | Inr c \<Rightarrow> Inr c)"

definition parse_hashes_v2_file :: "path \<Rightarrow> fs \<Rightarrow> string list res" where
  "parse_hashes_v2_file p f =
     (case read_text_file p f of Inl e \<Rightarrow> Inl e | Inr c \<Rightarrow> parse_hashes_v2_text c (path_str p))"

subsection \<open>Directories\<close>

definition iter_importable_files :: "path \<Rightarrow> fs \<Rightarrow> path list res" where
  "iter_importable_files dir f =
     (if fs_is_dir f dir
      then Inr (map (entry dir) (sort (filter (\<lambda>n. \<not> is_ignored_file n) (file_names f dir))))
      else Inl (HashImportError (''unable to list directory '' @ path_str dir)))"

definition directory_has_hash_import_inputs :: "path \<Rightarrow> fs \<Rightarrow> bool res" where
  "directory_has_hash_import_inputs dir f =
     (if fs_is_dir f dir
      then Inr (list_ex (\<lambda>n. n = HASHFILE_V2_NAME \<or> n \<in> set HASHFILE_V1_NAMES \<or> \<not> is_ignored_file n) (file_names f dir))
      else Inl (HashImportError (''unable to list directory '' @ path_str dir)))"

text \<open>Root first, then the directories below it by the text of their relative path.\<close>

definition candidate_paths :: "path \<Rightarrow> fs \<Rightarrow> path list" where
  "candidate_paths root_path f = root_path # map (below root_path) (sort_key (join_with ''/'') (dirs_below f root_path))"

fun filter_res :: "('a \<Rightarrow> bool res) \<Rightarrow> 'a list \<Rightarrow> 'a list res" where
  "filter_res p [] = Inr []"
| "filter_res p (x # xs) =
     (case p x of Inl e \<Rightarrow> Inl e
      | Inr b \<Rightarrow> (case filter_res p xs of Inl e \<Rightarrow> Inl e | Inr ys \<Rightarrow> Inr (if b then x # ys else ys)))"

definition iter_candidate_directories :: "path \<Rightarrow> fs \<Rightarrow> path list res" where
  "iter_candidate_directories root_path f =
     filter_res (\<lambda>d. directory_has_hash_import_inputs d f) (candidate_paths root_path f)"

definition find_v1_cache_path :: "path \<Rightarrow> fs \<Rightarrow> path option" where
  "find_v1_cache_path dir f = find (\<lambda>p. fs_exists f p) (map (entry dir) HASHFILE_V1_NAMES)"

text \<open>
  What \<open>find\<close> prints, sorted by lines, digested.  \<open>find\<close> excludes the same names as
  \<open>is_ignored_file\<close> and fails on a path that does not exist.
\<close>

definition unlines :: "string list \<Rightarrow> string" where
  "unlines ls = concat (map (\<lambda>l. l @ [CHR 0x0A]) ls)"

definition find_lines :: "lib_env \<Rightarrow> path \<Rightarrow> fs \<Rightarrow> string list" where
  "find_lines L dir f =
     map (\<lambda>n. n @ '' '' @ int_str (fs_size f (entry dir n)) @ '' '' @ le_time_text L (fs_mtime f (entry dir n)))
       (filter (\<lambda>n. \<not> is_ignored_file n) (file_names f dir))"

definition compute_directory_hash :: "lib_env \<Rightarrow> path \<Rightarrow> fs \<Rightarrow> string res" where
  "compute_directory_hash L dir f =
     (if fs_is_dir f dir
      then Inr (le_sha1 L (unlines (sort (butlast (split_on (CHR 0x0A) (unlines (find_lines L dir f)))))))
      else Inl (HashImportError (''failed to compute directory hash for '' @ path_str dir)))"

subsection \<open>Validation and plans\<close>

definition validate_cache_row_path :: "string \<Rightarrow> nat \<Rightarrow> path \<Rightarrow> path \<Rightarrow> fs \<Rightarrow> unit res" where
  "validate_cache_row_path source n p dir f =
     (if \<not> is_absolute p then Inl (HashImportParseError source n ''path must be absolute'')
      else if path_parent p \<noteq> dir then Inl (HashImportParseError source n ''path must belong to cache directory'')
      else if is_ignored_file (path_name p) then Inl (HashImportParseError source n ''path references ignored file'')
      else if \<not> fs_is_file f p then Inl (HashImportParseError source n ''path does not exist as a file'')
      else Inr ())"

definition validate_required_rows :: "string \<Rightarrow> path list \<Rightarrow> path \<Rightarrow> fs \<Rightarrow> unit res" where
  "validate_required_rows source seen dir f =
     (case iter_importable_files dir f of
        Inl e \<Rightarrow> Inl e
      | Inr actual \<Rightarrow>
          if set actual \<noteq> set seen
          then Inl (HashImportParseError source 0 ''cache rows do not match current directory contents'') else Inr ())"

fun check_v2_rows :: "string \<Rightarrow> nat \<Rightarrow> path \<Rightarrow> fs \<Rightarrow> (string \<times> string \<times> string) list \<Rightarrow> hash_import_row list res" where
  "check_v2_rows source n dir f [] = Inr []"
| "check_v2_rows source n dir f ((sha1_value, sha256_value, path_value) # rows) =
     (case validate_cache_row_path source n (path_of path_value) dir f of
        Inl e \<Rightarrow> Inl e
      | Inr _ \<Rightarrow>
          (case check_v2_rows source (Suc n) dir f rows of
             Inl e \<Rightarrow> Inl e
           | Inr rs \<Rightarrow> Inr (\<lparr>hr_sha1 = sha1_value, hr_sha256 = sha256_value, hr_path = path_of path_value\<rparr> # rs)))"

definition parse_hashes_v2_cache :: "path \<Rightarrow> path \<Rightarrow> string \<Rightarrow> fs \<Rightarrow> hash_import_row list res" where
  "parse_hashes_v2_cache cache_path dir expected f =
     (case read_text_file cache_path f of
        Inl e \<Rightarrow> Inl e
      | Inr c \<Rightarrow>
          (case parse_hashes_v2_lines c (path_str cache_path) of
             Inl e \<Rightarrow> Inl e
           | Inr (stored, rows) \<Rightarrow>
               if stored \<noteq> expected then Inl (HashImportParseError (path_str cache_path) 2 ''stale DIRECTORY_HASH header'')
               else (case check_v2_rows (path_str cache_path) 3 dir f rows of
                       Inl e \<Rightarrow> Inl e
                     | Inr rs \<Rightarrow>
                         (case validate_required_rows (path_str cache_path) (map hr_path rs) dir f of
                            Inl e \<Rightarrow> Inl e | Inr _ \<Rightarrow> Inr rs))))"

text \<open>The text without trailing line feeds; a line of \<open>splitlines\<close> has none.\<close>

definition rstrip_newline :: "string \<Rightarrow> string" where
  "rstrip_newline s = rev (dropWhile (\<lambda>c. c = CHR 0x0A) (rev s))"

fun check_v1_rows :: "string \<Rightarrow> nat \<Rightarrow> path \<Rightarrow> fs \<Rightarrow> string list \<Rightarrow> (string \<times> path) list res" where
  "check_v1_rows source n dir f [] = Inr []"
| "check_v1_rows source n dir f (line # ls) =
     (case sha1_row (rstrip_newline line) of
        None \<Rightarrow> Inl (HashImportParseError source n ''invalid v1 cache row'')
      | Some (h, t) \<Rightarrow>
          (case validate_cache_row_path source n (path_of t) dir f of
             Inl e \<Rightarrow> Inl e
           | Inr _ \<Rightarrow>
               (case check_v1_rows source (Suc n) dir f ls of
                  Inl e \<Rightarrow> Inl e | Inr rs \<Rightarrow> Inr ((py_lower h, path_of t) # rs))))"

definition parse_hashes_v1_cache :: "path \<Rightarrow> path \<Rightarrow> string \<Rightarrow> fs \<Rightarrow> (string \<times> path) list res" where
  "parse_hashes_v1_cache cache_path dir expected f =
     (let source = path_str cache_path in
      case read_text_file cache_path f of
        Inl e \<Rightarrow> Inl e
      | Inr c \<Rightarrow>
          (case splitlines c of
             [] \<Rightarrow> Inl (HashImportParseError source 1 ''missing DIRECTORY_HASH header'')
           | first # lines \<Rightarrow>
               (case directory_hash_header (py_strip first) of
                  None \<Rightarrow> Inl (HashImportParseError source 1 ''invalid DIRECTORY_HASH header'')
                | Some h \<Rightarrow>
                    if py_lower h \<noteq> expected then Inl (HashImportParseError source 1 ''stale DIRECTORY_HASH header'')
                    else (case check_v1_rows source 2 dir f lines of
                            Inl e \<Rightarrow> Inl e
                          | Inr rs \<Rightarrow>
                              (case validate_required_rows source (map snd rs) dir f of
                                 Inl e \<Rightarrow> Inl e | Inr _ \<Rightarrow> Inr rs)))))"

definition backfill_v2_rows_from_v1 :: "lib_env \<Rightarrow> path \<Rightarrow> path \<Rightarrow> string \<Rightarrow> fs \<Rightarrow> hash_import_row list res" where
  "backfill_v2_rows_from_v1 L cache_path dir expected f =
     (case parse_hashes_v1_cache cache_path dir expected f of
        Inl e \<Rightarrow> Inl e
      | Inr rows \<Rightarrow> map_res (\<lambda>(h, p). case fst (sha256_file (le_sha256 L) p f) of
          Inl e \<Rightarrow> Inl e | Inr d \<Rightarrow> Inr \<lparr>hr_sha1 = h, hr_sha256 = d, hr_path = p\<rparr>) rows)"

definition rehash_row :: "lib_env \<Rightarrow> fs \<Rightarrow> path \<Rightarrow> hash_import_row res" where
  "rehash_row L f p =
     (case (sha1_file L p f, fst (sha256_file (le_sha256 L) p f)) of
        (Inr a, Inr b) \<Rightarrow> Inr \<lparr>hr_sha1 = a, hr_sha256 = b, hr_path = p\<rparr>
      | (Inl e, _) \<Rightarrow> Inl e
      | (_, Inl e) \<Rightarrow> Inl e)"

definition rehash_directory_rows :: "lib_env \<Rightarrow> path \<Rightarrow> fs \<Rightarrow> hash_import_row list res" where
  "rehash_directory_rows L dir f =
     (case iter_importable_files dir f of Inl e \<Rightarrow> Inl e | Inr ps \<Rightarrow> map_res (rehash_row L f) ps)"

definition plan_of :: "path \<Rightarrow> string \<Rightarrow> bool \<Rightarrow> hash_import_row list res \<Rightarrow> hash_import_plan res" where
  "plan_of dir source replaced rows =
     (case rows of
        Inl e \<Rightarrow> Inl e
      | Inr rs \<Rightarrow> Inr \<lparr>hp_directory = dir, hp_source = source, hp_sha256_values = map hr_sha256 rs, hp_replaced = replaced\<rparr>)"

text \<open>A cache that does not parse is replaced by hashing; any other exception goes through.\<close>

definition plan_from_cache ::
  "lib_env \<Rightarrow> path \<Rightarrow> string \<Rightarrow> hash_import_row list res \<Rightarrow> fs \<Rightarrow> hash_import_plan res" where
  "plan_from_cache L dir source rows f =
     (case rows of
        Inl (HashImportParseError s n m) \<Rightarrow> plan_of dir ''recompute'' True (rehash_directory_rows L dir f)
      | _ \<Rightarrow> plan_of dir source False rows)"

definition build_hash_import_directory_plan :: "lib_env \<Rightarrow> path \<Rightarrow> fs \<Rightarrow> hash_import_plan res" where
  "build_hash_import_directory_plan L dir f =
     (case compute_directory_hash L dir f of
        Inl e \<Rightarrow> Inl e
      | Inr current \<Rightarrow>
          if fs_exists f (entry dir HASHFILE_V2_NAME)
          then plan_from_cache L dir ''cache_v2'' (parse_hashes_v2_cache (entry dir HASHFILE_V2_NAME) dir current f) f
          else (case find_v1_cache_path dir f of
                  Some v1 \<Rightarrow> plan_from_cache L dir ''backfill_v1'' (backfill_v2_rows_from_v1 L v1 dir current f) f
                | None \<Rightarrow> plan_of dir ''recompute'' False (rehash_directory_rows L dir f)))"

definition collect_hash_import_plans :: "lib_env \<Rightarrow> path \<Rightarrow> fs \<Rightarrow> hash_import_plan list res" where
  "collect_hash_import_plans L root_path f =
     (if \<not> fs_exists f root_path then Inl (HashImportError (''hash-import root does not exist: '' @ path_str root_path))
      else if \<not> fs_is_dir f root_path then Inl (HashImportError (''hash-import root is not a directory: '' @ path_str root_path))
      else (case iter_candidate_directories root_path f of
              Inl e \<Rightarrow> Inl e
            | Inr dirs \<Rightarrow> map_res (\<lambda>d. build_hash_import_directory_plan L d f) dirs))"

subsection \<open>Chunks\<close>

fun simulate_chunk :: "string list \<Rightarrow> string list \<Rightarrow> nat \<Rightarrow> nat \<Rightarrow> nat \<times> nat \<times> string list" where
  "simulate_chunk [] seen imported skipped = (imported, skipped, seen)"
| "simulate_chunk (h # hs) seen imported skipped =
     (if h \<in> set seen then simulate_chunk hs seen imported (Suc skipped)
      else simulate_chunk hs (h # seen) (Suc imported) skipped)"

function chunks_of :: "nat \<Rightarrow> 'a list \<Rightarrow> 'a list list" where
  "chunks_of n xs = (if n = 0 \<or> xs = [] then [] else take n xs # chunks_of n (drop n xs))"
  by pat_completeness auto
termination by (relation "measure (\<lambda>(n, xs). length xs)") auto

declare chunks_of.simps [simp del]

text \<open>The lookup of 500 hashes at a time.\<close>

definition existing_in_chunk :: "registry_db \<Rightarrow> string list \<Rightarrow> string list" where
  "existing_in_chunk d chunk =
     map (\<lambda>(k, r). hc_hash_value r) (filter (\<lambda>(k, r). hc_account_name r = ''__hash_import__'' \<and>
       hc_source_relpath r = None \<and> hc_hash_algo r = ''sha256'' \<and> hc_hash_value r \<in> set chunk) (external_hash_cache d))"

definition fetch_existing_hash_import_hashes :: "registry_db \<Rightarrow> string list \<Rightarrow> string list" where
  "fetch_existing_hash_import_hashes d hashes =
     concat (map (existing_in_chunk d) (chunks_of 500 (sort (remdups hashes))))"

fun dry_chunks :: "nat \<Rightarrow> string list list \<Rightarrow> string list \<Rightarrow> chunk_result list" where
  "dry_chunks idx [] seen = []"
| "dry_chunks idx (hs # cs) seen =
     (case simulate_chunk hs seen 0 0 of (imported, skipped, seen') \<Rightarrow>
        \<lparr>cr_chunk_index = idx, cr_imported = imported, cr_skipped_existing = skipped\<rparr> # dry_chunks (Suc idx) cs seen')"

fun import_loop :: "env \<Rightarrow> nat \<Rightarrow> string list list \<Rightarrow> world \<Rightarrow> chunk_result list res \<times> world" where
  "import_loop E idx [] w = (Inr [], w)"
| "import_loop E idx (hs # cs) w =
     and_then (reg_call E (\<lambda>now. bulk_insert_hash_import now hs (int (length hs))) w) (\<lambda>rs w.
       (case rs of
          [] \<Rightarrow> (Inl (LookupError ''tuple index out of range''), w)
        | r # _ \<Rightarrow>
            and_then (import_loop E (Suc idx) cs w) (\<lambda>reports w.
              (Inr (\<lparr>cr_chunk_index = idx, cr_imported = cr_imported r, cr_skipped_existing = cr_skipped_existing r\<rparr> # reports), w))))"

definition execute_hash_import_chunks ::
  "env \<Rightarrow> string list \<Rightarrow> int \<Rightarrow> bool \<Rightarrow> world \<Rightarrow> chunk_result list res \<times> world" where
  "execute_hash_import_chunks E hashes chunk_size dry_run w =
     guard (chunk_size > 0) (HashImportError ''chunk_size must be > 0'') w (\<lambda>w.
       if hashes = [] then (Inr [], w)
       else let cs = chunks_of (nat chunk_size) hashes in
         if dry_run then (Inr (dry_chunks 1 cs (fetch_existing_hash_import_hashes (db w) hashes)), w)
         else import_loop E 1 cs w)"

definition build_hash_import_summary :: "hash_import_plan list \<Rightarrow> chunk_result list \<Rightarrow> hash_import_summary" where
  "build_hash_import_summary plans rs =
     \<lparr>hs_directories_processed = length plans,
      hs_recomputes_performed = length (filter (\<lambda>p. hp_source p \<noteq> ''cache_v2'') plans),
      hs_valid_caches_consumed = length (filter (\<lambda>p. hp_source p = ''cache_v2'') plans),
      hs_stale_invalid_caches_replaced = length (filter hp_replaced plans),
      hs_total_imported = sum_list (map cr_imported rs), hs_total_skipped = sum_list (map cr_skipped_existing rs),
      hs_chunk_results = rs\<rparr>"

definition run_hash_import_command ::
  "env \<Rightarrow> lib_env \<Rightarrow> path \<Rightarrow> int \<Rightarrow> bool \<Rightarrow> world \<Rightarrow> hash_import_summary res \<times> world" where
  "run_hash_import_command E L root_path chunk_size dry_run w =
     and_then (lift_res (collect_hash_import_plans L root_path (fsys w)) w) (\<lambda>plans w.
     and_then (execute_hash_import_chunks E (concat (map hp_sha256_values plans)) chunk_size dry_run w) (\<lambda>rs w.
     (Inr (build_hash_import_summary plans rs), w)))"

definition run_hash_import :: "env \<Rightarrow> lib_env \<Rightarrow> path \<Rightarrow> int \<Rightarrow> world \<Rightarrow> hash_import_summary res \<times> world" where
  "run_hash_import E L root_path chunk_size w = run_hash_import_command E L root_path chunk_size False w"

text \<open>The chunk size of the command line, or of the configuration.\<close>

definition resolve_hash_import_chunk_size :: "int \<Rightarrow> int option \<Rightarrow> int res" where
  "resolve_hash_import_chunk_size configured cli =
     (case cli of
        Some n \<Rightarrow> if n \<le> 0 then Inl (ValueError ''hash-import chunk size must be > 0'') else Inr n
      | None \<Rightarrow> Inr configured)"

subsection \<open>A dry run reports what the import does\<close>

lemma chunks_of_parts:
  assumes "0 < n"
  shows "concat (chunks_of n xs) = xs \<and> [] \<notin> set (chunks_of n xs)"
  using assms
proof (induction n xs rule: chunks_of.induct)
  case (1 n xs)
  then show ?case using chunks_of.simps [of n xs] by (cases "xs = []") simp_all
qed

lemmas chunks_concat = conjunct1 [OF chunks_of_parts] and chunks_nonempty = conjunct2 [OF chunks_of_parts]

lemma existing_hashes:
  assumes "wf_cache d"
  shows "set (fetch_existing_hash_import_hashes d hs) = imported_hashes d \<inter> set hs"
proof -
  let ?cs = "chunks_of 500 (sort (remdups hs))" and ?t = "external_hash_cache d"
  have key: "(k, r) \<in> set ?t \<Longrightarrow> k = import_key h \<longleftrightarrow> hc_account_name r = ''__hash_import__'' \<and> hc_source_relpath r = None \<and>
      hc_hash_algo r = ''sha256'' \<and> hc_hash_value r = h" for k r h
    using assms by (auto simp: wf_cache_def list_all_iff import_key_def HASH_IMPORT_ACCOUNT_def)
  have chunk: "(\<exists>c \<in> set ?cs. x \<in> set c) \<longleftrightarrow> x \<in> set hs" for x
    using arg_cong [OF chunks_concat [of 500 "sort (remdups hs)"], of set] by auto
  have im: "h \<in> imported_hashes d \<longleftrightarrow> (\<exists>r. (import_key h, r) \<in> set ?t)" for h
    by (force simp: imported_hashes_def map_of_eq_None_iff)
  have "x \<in> set (existing_in_chunk d c) \<longleftrightarrow> x \<in> imported_hashes d \<and> x \<in> set c" for x c
  proof
    assume "x \<in> set (existing_in_chunk d c)"
    then obtain k r where "(k, r) \<in> set ?t" "hc_account_name r = ''__hash_import__'' \<and> hc_source_relpath r = None \<and>
      hc_hash_algo r = ''sha256'' \<and> hc_hash_value r = x" "x \<in> set c" by (auto simp: existing_in_chunk_def)
    then show "x \<in> imported_hashes d \<and> x \<in> set c" using key [of k r x] im [of x] by blast
  next
    assume "x \<in> imported_hashes d \<and> x \<in> set c"
    then obtain r where "(import_key x, r) \<in> set ?t" "x \<in> set c" using im by blast
    with key [of "import_key x" r x] show "x \<in> set (existing_in_chunk d c)"
      by (auto simp: existing_in_chunk_def image_iff import_key_def) blast
  qed
  with chunk show ?thesis by (auto simp: fetch_existing_hash_import_hashes_def)
qed

lemma simulate_chunk_counts:
  "\<exists>seen'. simulate_chunk hs seen i s = (i + card (set hs - set seen), s + (length hs - card (set hs - set seen)), seen') \<and>
     set seen' = set hs \<union> set seen"
proof (induction hs arbitrary: seen i s)
  case (Cons h hs)
  have le: "card (set hs - A) \<le> length hs" for A by (meson card_length card_mono finite_Diff2 finite_set Diff_subset le_trans)
  show ?case
  proof (cases "h \<in> set seen")
    case True
    then have "set (h # hs) - set seen = set hs - set seen" by auto
    with Cons.IH [of seen i "Suc s"] True le [of "set seen"] show ?thesis by (auto simp: Suc_diff_le)
  next
    case False
    then have "set (h # hs) - set seen = insert h (set hs - set (h # seen))" by auto
    then have "card (set (h # hs) - set seen) = Suc (card (set hs - set (h # seen)))" by simp
    with Cons.IH [of "h # seen" "Suc i" s] False show ?thesis by auto
  qed
qed simp

lemma one_chunk:
  assumes "hs \<noteq> []" and "\<not> relpath_notnull d"
  shows "bulk_insert_hash_import now hs (int (length hs)) d =
    (Inr [\<lparr>cr_chunk_index = 1, cr_imported = card (set hs - imported_hashes d),
        cr_skipped_existing = length hs - card (set hs - imported_hashes d)\<rparr>], fold (insert_import_hash now) hs d)"
  using assms import_chunks.simps [of now "length hs" 1 hs d] import_chunks.simps [of now "length hs" "Suc 1" "[]"]
  by (simp add: bulk_insert_hash_import_def import_chunk_def Let_def fold_import_length)

text \<open>The cache table is all of the registry that an import changes.\<close>

definition only_cache :: "world \<Rightarrow> world \<Rightarrow> bool" where
  "only_cache w w' \<longleftrightarrow> fsys w' = fsys w \<and> jfiles w' = jfiles w \<and> (db w')\<lparr>external_hash_cache := []\<rparr> = (db w)\<lparr>external_hash_cache := []\<rparr>"

interpretation oc: step_frame only_cache
  by unfold_locales (auto simp: only_cache_def)

lemma fold_import_cache:
  "(fold (insert_import_hash now) hs d)\<lparr>external_hash_cache := []\<rparr> = d\<lparr>external_hash_cache := []\<rparr>"
  by (induction hs arbitrary: d) (simp_all add: insert_import_hash_def)

lemma only_cache_relpath: "only_cache w w' \<Longrightarrow> relpath_notnull (db w') = relpath_notnull (db w)"
  by (auto simp: only_cache_def dest: arg_cong [of _ _ relpath_notnull])

lemma import_loop_predicted:
  assumes "\<not> relpath_notnull (db w)" and "[] \<notin> set cs"
    and "\<forall>h \<in> set (concat cs). h \<in> set seen \<longleftrightarrow> h \<in> imported_hashes (db w)"
  shows "\<exists>w'. import_loop E idx cs w = (Inr (dry_chunks idx cs seen), w') \<and> only_cache w w' \<and>
    imported_hashes (db w') = set (concat cs) \<union> imported_hashes (db w)"
  using assms
proof (induction cs arbitrary: idx seen w)
  case (Cons hs cs)
  obtain now w1 where r: "reg_call E (\<lambda>now. bulk_insert_hash_import now hs (int (length hs))) w =
      (Inr [\<lparr>cr_chunk_index = 1, cr_imported = card (set hs - imported_hashes (db w)),
        cr_skipped_existing = length hs - card (set hs - imported_hashes (db w))\<rparr>], w1)"
    and d1: "db w1 = fold (insert_import_hash now) hs (db w)" and w1: "fsys w1 = fsys w" "jfiles w1 = jfiles w"
    using one_chunk [of hs "db w"] Cons.prems(1,2) by (auto simp: reg_call_def)
  have oc1: "only_cache w w1" using fold_import_cache [of now hs "db w"] d1 w1 by (simp add: only_cache_def)
  then have nn: "\<not> relpath_notnull (db w1)" using Cons.prems(1) only_cache_relpath by blast
  obtain seen' where sim: "simulate_chunk hs seen 0 0 =
      (card (set hs - set seen), length hs - card (set hs - set seen), seen')" and seen': "set seen' = set hs \<union> set seen"
    using simulate_chunk_counts [of hs seen 0 0] by auto
  have same: "set hs - set seen = set hs - imported_hashes (db w)" using Cons.prems(3) by auto
  have im1: "imported_hashes (db w1) = set hs \<union> imported_hashes (db w)"
    unfolding d1 by (rule fold_import_keys [OF Cons.prems(1)])
  have "\<forall>h \<in> set (concat cs). h \<in> set seen' \<longleftrightarrow> h \<in> imported_hashes (db w1)"
    using Cons.prems(3) by (auto simp: seen' im1)
  with Cons.IH [OF nn _ this, of "Suc idx"] Cons.prems(2) obtain w' where
    "import_loop E (Suc idx) cs w1 = (Inr (dry_chunks (Suc idx) cs seen'), w')" "only_cache w1 w'"
    "imported_hashes (db w') = set (concat cs) \<union> imported_hashes (db w1)" by auto
  with r sim same im1 oc.frame_trans [OF oc1] show ?case by auto
qed (use oc.frame_refl in auto)

text \<open>
  C38: a dry run of the hash import changes nothing and reports exactly what the import would report,
  chunk by chunk, whatever the caches and the chunk size.  The import itself leaves the library and
  every other table alone, and afterwards the cache holds the hashes it held and the planned ones.
\<close>

theorem dry_run_predicts_import:
  assumes "wf_db (db w)" and "\<not> relpath_notnull (db w)"
    and "run_hash_import_command E L root_path n True w = (planned, wd)"
    and "run_hash_import_command E L root_path n False w = (actual, w')"
  shows "wd = w \<and> actual = planned \<and> only_cache w w' \<and>
    (\<forall>summary. actual = Inr summary \<longrightarrow> (\<exists>plans. collect_hash_import_plans L root_path (fsys w) = Inr plans \<and>
       imported_hashes (db w') = set (concat (map hp_sha256_values plans)) \<union> imported_hashes (db w)))"
proof (cases "collect_hash_import_plans L root_path (fsys w)")
  case (Inl e)
  with assms(3,4) show ?thesis by (auto simp: run_hash_import_command_def lift_res_def oc.frame_refl)
next
  case (Inr plans)
  define hs where "hs = concat (map hp_sha256_values plans)"
  have runs: "run_hash_import_command E L root_path n dry w =
      and_then (execute_hash_import_chunks E hs n dry w) (\<lambda>rs w. (Inr (build_hash_import_summary plans rs), w))" for dry
    by (simp add: run_hash_import_command_def lift_res_def Inr hs_def)
  show ?thesis
  proof (cases "n > 0 \<and> hs \<noteq> []")
    case False
    with assms(3,4) Inr show ?thesis
      by (auto simp: runs hs_def execute_hash_import_chunks_def guard_def oc.frame_refl split: if_splits)
  next
    case True
    then have n: "0 < nat n" by simp
    have "wf_cache (db w)" using assms(1) by (simp add: wf_db_def)
    then have "\<forall>h \<in> set (concat (chunks_of (nat n) hs)).
        h \<in> set (fetch_existing_hash_import_hashes (db w) hs) \<longleftrightarrow> h \<in> imported_hashes (db w)"
      by (simp add: existing_hashes chunks_concat [OF n] del: set_concat)
    from import_loop_predicted [OF assms(2) chunks_nonempty [OF n] this, of E 1] obtain w2 where
      loop: "import_loop E 1 (chunks_of (nat n) hs) w =
        (Inr (dry_chunks 1 (chunks_of (nat n) hs) (fetch_existing_hash_import_hashes (db w) hs)), w2)"
      and w2: "only_cache w w2" "imported_hashes (db w2) = set hs \<union> imported_hashes (db w)"
      unfolding chunks_concat [OF n] by blast
    have "execute_hash_import_chunks E hs n True w =
        (Inr (dry_chunks 1 (chunks_of (nat n) hs) (fetch_existing_hash_import_hashes (db w) hs)), w)"
      "execute_hash_import_chunks E hs n False w =
        (Inr (dry_chunks 1 (chunks_of (nat n) hs) (fetch_existing_hash_import_hashes (db w) hs)), w2)"
      using True loop by (simp_all add: execute_hash_import_chunks_def Let_def)
    with assms(3,4) w2 Inr show ?thesis by (auto simp: runs hs_def)
  qed
qed

subsection \<open>What a plan holds\<close>

definition content :: "fs \<Rightarrow> path \<Rightarrow> string" where
  "content f p = (case fs_node f p of Some (Reg c t) \<Rightarrow> c | _ \<Rightarrow> [])"

lemma sha256_file_content: "fst (sha256_file h p f) = Inr d \<Longrightarrow> d = h (content f p)"
  by (auto simp: sha256_file_def fs_read_def content_def split: option.splits node.splits)

lemma rehash_values:
  assumes "rehash_directory_rows L dir f = Inr rs"
  shows "\<exists>ps. iter_importable_files dir f = Inr ps \<and> map hr_sha256 rs = map (\<lambda>p. le_sha256 L (content f p)) ps"
proof -
  from assms obtain ps where ps: "iter_importable_files dir f = Inr ps" and m: "map (rehash_row L f) ps = map Inr rs"
    by (auto simp: rehash_directory_rows_def map_res_Inr split: sum.splits)
  have row: "rehash_row L f p = Inr r \<Longrightarrow> hr_sha256 r = le_sha256 L (content f p)" for p r
    by (auto simp: rehash_row_def sha256_file_content split: sum.splits)
  have "map hr_sha256 rs = map (\<lambda>p. le_sha256 L (content f p)) ps"
    using m row by (auto simp: list_eq_iff_nth_eq)
  with ps show ?thesis by blast
qed

lemma backfill_values:
  assumes "backfill_v2_rows_from_v1 L v1 dir current f = Inr rs"
  shows "\<exists>ps. iter_importable_files dir f = Inr ps \<and> hr_sha256 ` set rs = (\<lambda>p. le_sha256 L (content f p)) ` set ps"
proof -
  let ?g = "\<lambda>(h, p). case fst (sha256_file (le_sha256 L) p f) of Inl e \<Rightarrow> Inl e | Inr d \<Rightarrow> Inr \<lparr>hr_sha1 = h, hr_sha256 = d, hr_path = p\<rparr>"
  from assms obtain rows where rows: "parse_hashes_v1_cache v1 dir current f = Inr rows" and m: "map ?g rows = map Inr rs"
    by (auto simp: backfill_v2_rows_from_v1_def map_res_Inr split: sum.splits)
  from rows obtain ps where ps: "iter_importable_files dir f = Inr ps" "set ps = set (map snd rows)"
    by (auto simp: parse_hashes_v1_cache_def validate_required_rows_def Let_def split: sum.splits list.splits option.splits if_splits)
  have "?g x = Inr r \<Longrightarrow> hr_sha256 r = le_sha256 L (content f (snd x))" for x r
    by (auto simp: sha256_file_content split: sum.splits prod.splits)
  then have "map hr_sha256 rs = map (\<lambda>x. le_sha256 L (content f (snd x))) rows"
    using m by (auto simp: list_eq_iff_nth_eq simp del: split_paired_All)
  then have "hr_sha256 ` set rs = (\<lambda>x. le_sha256 L (content f (snd x))) ` set rows" by (metis list.set_map)
  with ps show ?thesis by (auto simp: image_image)
qed

lemma hex_lower: "hex_text n s \<Longrightarrow> hex_text n (py_lower s)"
proof -
  have "list_all (\<lambda>c. is_hex (lower_char c)) ''0123456789abcdefABCDEF''" by code_simp
  then have "is_hex c \<Longrightarrow> is_hex (lower_char c)" for c unfolding is_hex_def [of c] list_all_iff by blast
  then show "hex_text n s \<Longrightarrow> hex_text n (py_lower s)"
    by (auto simp: hex_text_def list_all_iff py_lower_def)
qed

lemma parse_v2_hex: "parse_v2_rows source n ls = Inr rows \<Longrightarrow> list_all (\<lambda>(_, h, _). hex_text 64 h) rows"
  by (induction source n ls arbitrary: rows rule: parse_v2_rows.induct)
    (auto split: list.splits if_splits sum.splits intro: hex_lower)

lemma check_v2_values:
  "check_v2_rows source n dir f rows = Inr rs \<Longrightarrow>
    map hr_sha256 rs = map (\<lambda>(_, h, _). h) rows \<and> map hr_path rs = map (\<lambda>(_, _, t). path_of t) rows"
  by (induction source n dir f rows arbitrary: rs rule: check_v2_rows.induct) (auto split: sum.splits)

lemma cache_values:
  assumes "parse_hashes_v2_cache cache dir current f = Inr rs"
  shows "\<exists>ps rows. iter_importable_files dir f = Inr ps \<and> set (map (\<lambda>(_, _, t). path_of t) rows) = set ps \<and>
    parse_hashes_v2_lines (content f cache) (path_str cache) = Inr (current, rows) \<and>
    map hr_sha256 rs = map (\<lambda>(_, h, _). h) rows \<and> list_all (hex_text 64) (map hr_sha256 rs)"
proof -
  from assms obtain c rows where c: "fst (fs_read cache f) = Inr c"
    and l: "parse_hashes_v2_lines c (path_str cache) = Inr (current, rows)"
    and v: "check_v2_rows (path_str cache) 3 dir f rows = Inr rs"
      "validate_required_rows (path_str cache) (map hr_path rs) dir f = Inr ()"
    by (auto simp: parse_hashes_v2_cache_def read_text_file_def split: sum.splits if_splits)
  have "c = content f cache" using c by (auto simp: fs_read_def content_def split: option.splits node.splits)
  moreover have "list_all (\<lambda>(_, h, _). hex_text 64 h) rows"
    using l parse_v2_hex by (auto simp: parse_hashes_v2_lines_def split: list.splits if_splits option.splits sum.splits)
  then have "list_all (hex_text 64) (map (\<lambda>(_, h, _). h) rows)" by (auto simp: list_all_iff)
  ultimately show ?thesis
    using l v(2) check_v2_values [OF v(1)]
    by (auto simp: validate_required_rows_def simp del: set_map split: sum.splits if_splits)
qed

text \<open>
  C39: the plan of a directory holds the hashes of its present files.  Hashed anew or completed from
  a legacy cache they are the digests of the contents; taken from a \<open>.hashes.v2\<close> cache they are the
  cached ones, but only when the stored fingerprint is that of the directory as it is, there is a row
  for each present file and for no other, and every hash is well-formed.  A cache that was discarded
  is always replaced by hashing.
\<close>

theorem plan_hashes_are_current:
  assumes "build_hash_import_directory_plan L dir f = Inr plan"
  shows "\<exists>ps. iter_importable_files dir f = Inr ps \<and> hp_source plan \<in> {''recompute'', ''backfill_v1'', ''cache_v2''} \<and>
    (hp_replaced plan \<longrightarrow> hp_source plan = ''recompute'') \<and>
    (hp_source plan = ''recompute'' \<longrightarrow> hp_sha256_values plan = map (\<lambda>p. le_sha256 L (content f p)) ps) \<and>
    (hp_source plan = ''backfill_v1'' \<longrightarrow> set (hp_sha256_values plan) = (\<lambda>p. le_sha256 L (content f p)) ` set ps) \<and>
    (hp_source plan = ''cache_v2'' \<longrightarrow> (\<exists>h rows. compute_directory_hash L dir f = Inr h \<and>
       parse_hashes_v2_lines (content f (entry dir HASHFILE_V2_NAME)) (path_str (entry dir HASHFILE_V2_NAME)) = Inr (h, rows) \<and>
       hp_sha256_values plan = map (\<lambda>(_, v, _). v) rows \<and> set (map (\<lambda>(_, _, t). path_of t) rows) = set ps \<and>
       list_all (hex_text 64) (hp_sha256_values plan)))"
proof -
  obtain current where cur: "compute_directory_hash L dir f = Inr current"
    using assms by (auto simp: build_hash_import_directory_plan_def split: sum.splits)
  let ?v2 = "entry dir HASHFILE_V2_NAME"
  have again: ?thesis if "plan_of dir ''recompute'' b (rehash_directory_rows L dir f) = Inr plan" for b
    using that rehash_values by (auto simp: plan_of_def split: sum.splits)
  show ?thesis
  proof (cases "fs_exists f ?v2")
    case True
    with assms cur have "plan_from_cache L dir ''cache_v2'' (parse_hashes_v2_cache ?v2 dir current f) f = Inr plan"
      by (simp add: build_hash_import_directory_plan_def)
    then consider rs where "parse_hashes_v2_cache ?v2 dir current f = Inr rs"
        "plan = \<lparr>hp_directory = dir, hp_source = ''cache_v2'', hp_sha256_values = map hr_sha256 rs, hp_replaced = False\<rparr>"
      | "plan_of dir ''recompute'' True (rehash_directory_rows L dir f) = Inr plan"
      by (auto simp: plan_from_cache_def plan_of_def split: sum.splits exn.splits)
    then show ?thesis
    proof cases
      case 1
      from cache_values [OF 1(1)] obtain ps rows where c: "iter_importable_files dir f = Inr ps"
        "set (map (\<lambda>(_, _, t). path_of t) rows) = set ps" "map hr_sha256 rs = map (\<lambda>(_, h, _). h) rows"
        "parse_hashes_v2_lines (content f ?v2) (path_str ?v2) = Inr (current, rows)" "list_all (hex_text 64) (map hr_sha256 rs)"
        by blast
      have "hp_source plan = ''cache_v2''" "\<not> hp_replaced plan" "hp_sha256_values plan = map hr_sha256 rs" using 1(2) by simp_all
      with c cur show ?thesis by (intro exI [of _ ps] conjI impI exI [of _ current] exI [of _ rows]) simp_all
    qed (rule again)
  next
    case nov2: False
    show ?thesis
    proof (cases "find_v1_cache_path dir f")
      case None
      with assms cur nov2 have "plan_of dir ''recompute'' False (rehash_directory_rows L dir f) = Inr plan"
        by (simp add: build_hash_import_directory_plan_def)
      then show ?thesis by (rule again)
    next
      case (Some v1)
      with assms cur nov2 have "plan_from_cache L dir ''backfill_v1'' (backfill_v2_rows_from_v1 L v1 dir current f) f = Inr plan"
        by (simp add: build_hash_import_directory_plan_def)
      then consider rs where "backfill_v2_rows_from_v1 L v1 dir current f = Inr rs"
          "plan = \<lparr>hp_directory = dir, hp_source = ''backfill_v1'', hp_sha256_values = map hr_sha256 rs, hp_replaced = False\<rparr>"
        | "plan_of dir ''recompute'' True (rehash_directory_rows L dir f) = Inr plan"
        by (auto simp: plan_from_cache_def plan_of_def split: sum.splits exn.splits)
      then show ?thesis
      proof cases
        case 1
        from backfill_values [OF 1(1)] 1(2) show ?thesis by auto
      qed (rule again)
    qed
  qed
qed

subsection \<open>An example\<close>

definition demo_lib :: lib_env where
  "demo_lib = \<lparr>le_sha1 = (\<lambda>s. replicate 40 (CHR ''a'')), le_sha256 = (\<lambda>s. replicate 64 (CHR ''b'')), le_time_text = int_str\<rparr>"

definition demo_tree :: fs where
  "demo_tree = \<lparr>nodes = [([''lib''], Dir), ([''lib'', ''x.jpg''], Reg ''abc'' 1),
     ([''lib'', ''.hashes.v2''], Reg ''junk'' 1)], fs_cwd = [], fs_dev = (\<lambda>_. 0)\<rparr>"

definition demo_library :: path where
  "demo_library = Path True [''lib'']"

lemma demo_nodes:
  "fs_is_dir demo_tree demo_library" "file_names demo_tree demo_library = [''x.jpg'', ''.hashes.v2'']"
  "fs_node demo_tree (Path True [''lib'', ''x.jpg'']) = Some (Reg ''abc'' 1)"
  "fs_node demo_tree (Path True [''lib'', ''.hashes.v2'']) = Some (Reg ''junk'' 1)"
  by (simp_all add: fs_is_dir_def fs_node_def fs_key_def resolve_def node_at_def demo_tree_def demo_library_def file_names_def
      key_files_below_def is_reg_def strict_prefix_def)

lemma demo_files: "iter_importable_files demo_library demo_tree = Inr [Path True [''lib'', ''x.jpg'']]"
  using demo_nodes(1,2)
  by (simp add: iter_importable_files_def entry_def demo_library_def is_ignored_file_def HASHFILE_V2_NAME_def HASHFILE_V1_NAMES_def
      py_lower_def lower_char_def ascii_upper_def)

lemma demo_plan:
  "build_hash_import_directory_plan demo_lib demo_library demo_tree =
     Inr \<lparr>hp_directory = demo_library, hp_source = ''recompute'', hp_sha256_values = [replicate 64 (CHR ''b'')], hp_replaced = True\<rparr>"
  using demo_nodes demo_files
  by (simp add: build_hash_import_directory_plan_def compute_directory_hash_def fs_exists_def HASHFILE_V2_NAME_def entry_def
      demo_library_def plan_from_cache_def parse_hashes_v2_cache_def read_text_file_def fs_read_def parse_hashes_v2_lines_def
      splitlines.simps [of "''junk''"] line_break_def CACHE_SCHEMA_HEADER_def plan_of_def rehash_directory_rows_def rehash_row_def
      sha1_file_def sha256_file_def demo_lib_def)

theorem plan_hashes_are_current_witness:
  "\<exists>plan. build_hash_import_directory_plan demo_lib demo_library demo_tree = Inr plan \<and> hp_replaced plan \<and>
     hp_sha256_values plan = map (\<lambda>p. le_sha256 demo_lib (content demo_tree p)) [Path True [''lib'', ''x.jpg'']]"
  using plan_hashes_are_current [OF demo_plan] demo_plan demo_files by auto

definition demo_world :: world where
  "demo_world = \<lparr>db = empty_db, fsys = demo_tree, jfiles = \<lparr>j_active = None, j_rotated = None\<rparr>, ticks = 0\<rparr>"

theorem dry_run_predicts_import_witness:
  "\<exists>planned w'. run_hash_import_command plain_env demo_lib demo_library 10 True demo_world = (planned, demo_world) \<and>
    run_hash_import_command plain_env demo_lib demo_library 10 False demo_world = (planned, w') \<and> fsys w' = demo_tree"
proof -
  have wf: "wf_db (db demo_world)" "\<not> relpath_notnull (db demo_world)" and f: "fsys demo_world = demo_tree"
    by (simp_all add: demo_world_def empty_db_def wf_db_def wf_defs increasing_ids_def)
  obtain planned wd where d: "run_hash_import_command plain_env demo_lib demo_library 10 True demo_world = (planned, wd)" by fastforce
  obtain actual w' where r: "run_hash_import_command plain_env demo_lib demo_library 10 False demo_world = (actual, w')" by fastforce
  have "wd = demo_world" "actual = planned" "fsys w' = demo_tree"
    using dry_run_predicts_import [OF wf d r] f by (simp_all add: only_cache_def)
  with d r show ?thesis by blast
qed

end
