(* ===== verification/Sync_Import.thy ===== *)
theory Sync_Import
  imports Library_Files Registry_Spec
begin

section \<open>Sync import (\<open>sync_import.py\<close>)\<close>

text \<open>
  The advisory import of the SHA-1 caches a companion script leaves in the library: one plan per
  directory, from its cache file or by hashing, then one cache row and one audit event per new entry.
  The library is only read.
\<close>

definition EXTERNAL_HASH_CACHE_SCOPE :: string where
  "EXTERNAL_HASH_CACHE_SCOPE = ''__library__''"

definition sync_is_ignored_file :: "string \<Rightarrow> bool" where
  "sync_is_ignored_file name \<longleftrightarrow> name = ''.hashes.sha1'' \<or> py_lower name = ''thumbs.db''"

record imported_hash_entry =
  ie_source_relpath :: string
  ie_sha1 :: string

record directory_import_plan =
  dp_directory :: path
  dp_entries :: "imported_hash_entry list"
  dp_source :: string
  dp_invalid_line_count :: nat

record sync_import_summary =
  ss_directories_scanned :: nat
  ss_cache_files_used :: nat
  ss_directories_rehashed :: nat
  ss_imported_rows :: nat
  ss_skipped_rows :: nat
  ss_invalid_lines :: nat
  ss_dry_run :: bool

subsection \<open>The plan of a directory\<close>

definition sync_iter_importable_files :: "path \<Rightarrow> fs \<Rightarrow> path list res" where
  "sync_iter_importable_files dir f =
     (if fs_is_dir f dir
      then Inr (map (entry dir) (sort (filter (\<lambda>n. \<not> sync_is_ignored_file n) (file_names f dir))))
      else Inl (OSError ''ENOTDIR''))"

definition entry_for :: "path \<Rightarrow> path \<Rightarrow> string \<Rightarrow> imported_hash_entry res" where
  "entry_for root_path p h =
     (case relative_to p root_path of
        None \<Rightarrow> Inl (ValueError (py_quote (path_str p) @ '' is not in the subpath of '' @ py_quote (path_str root_path)))
      | Some rel \<Rightarrow> Inr \<lparr>ie_source_relpath = rel, ie_sha1 = h\<rparr>)"

definition sync_row_valid :: "path \<Rightarrow> path \<Rightarrow> fs \<Rightarrow> bool" where
  "sync_row_valid p dir f \<longleftrightarrow>
     is_absolute p \<and> path_parent p = dir \<and> \<not> sync_is_ignored_file (path_name p) \<and> fs_exists f p \<and> fs_is_file f p"

text \<open>\<open>None\<close> at the first line that does not fit; \<open>Some\<close> the entries with the paths seen.\<close>

fun parse_sha1_rows :: "path \<Rightarrow> path \<Rightarrow> fs \<Rightarrow> string list \<Rightarrow> (imported_hash_entry list \<times> path list) option res" where
  "parse_sha1_rows root_path dir f [] = Inr (Some ([], []))"
| "parse_sha1_rows root_path dir f (line # ls) =
     (case sha1_row (rev (dropWhile (\<lambda>c. c = CHR 0x0A) (rev line))) of
        None \<Rightarrow> Inr None
      | Some (h, t) \<Rightarrow>
          if \<not> sync_row_valid (path_of t) dir f then Inr None
          else (case entry_for root_path (path_of t) (py_lower h) of
                  Inl e \<Rightarrow> Inl e
                | Inr en \<Rightarrow>
                    (case parse_sha1_rows root_path dir f ls of
                       Inl e \<Rightarrow> Inl e
                     | Inr None \<Rightarrow> Inr None
                     | Inr (Some (es, seen)) \<Rightarrow> Inr (Some (en # es, path_of t # seen)))))"

definition parse_hash_cache_file :: "path \<Rightarrow> path \<Rightarrow> path \<Rightarrow> fs \<Rightarrow> (imported_hash_entry list option \<times> nat) res" where
  "parse_hash_cache_file cache_path root_path dir f =
     (case fst (fs_read cache_path f) of
        Inl e \<Rightarrow> Inr (None, 1)
      | Inr c \<Rightarrow>
          (case splitlines c of
             [] \<Rightarrow> Inr (None, 1)
           | first # lines \<Rightarrow>
               if directory_hash_header (py_strip first) = None then Inr (None, 1)
               else (case parse_sha1_rows root_path dir f lines of
                       Inl e \<Rightarrow> Inl e
                     | Inr None \<Rightarrow> Inr (None, 1)
                     | Inr (Some (es, seen)) \<Rightarrow>
                         (case sync_iter_importable_files dir f of
                            Inl e \<Rightarrow> Inl e
                          | Inr actual \<Rightarrow> if set actual \<noteq> set seen then Inr (None, 1) else Inr (Some es, 0)))))"

definition rehash_directory_entries :: "lib_env \<Rightarrow> path \<Rightarrow> path \<Rightarrow> fs \<Rightarrow> imported_hash_entry list res" where
  "rehash_directory_entries L root_path dir f =
     (case sync_iter_importable_files dir f of
        Inl e \<Rightarrow> Inl e
      | Inr ps \<Rightarrow> map_res (\<lambda>p. case sha1_file L p f of Inl e \<Rightarrow> Inl e | Inr h \<Rightarrow> entry_for root_path p h) ps)"

definition rehash_plan :: "lib_env \<Rightarrow> path \<Rightarrow> path \<Rightarrow> nat \<Rightarrow> fs \<Rightarrow> directory_import_plan res" where
  "rehash_plan L root_path dir invalid f =
     (case rehash_directory_entries L root_path dir f of
        Inl e \<Rightarrow> Inl e
      | Inr es \<Rightarrow> Inr \<lparr>dp_directory = dir, dp_entries = es, dp_source = ''rehash'', dp_invalid_line_count = invalid\<rparr>)"

definition build_directory_import_plan :: "lib_env \<Rightarrow> path \<Rightarrow> path \<Rightarrow> string \<Rightarrow> fs \<Rightarrow> directory_import_plan res" where
  "build_directory_import_plan L root_path dir hash_glob f =
     (if fs_exists f (child dir hash_glob)
      then (case parse_hash_cache_file (child dir hash_glob) root_path dir f of
              Inl e \<Rightarrow> Inl e
            | Inr (Some es, n) \<Rightarrow>
                Inr \<lparr>dp_directory = dir, dp_entries = es, dp_source = ''cache'', dp_invalid_line_count = n\<rparr>
            | Inr (None, n) \<Rightarrow> rehash_plan L root_path dir n f)
      else rehash_plan L root_path dir 0 f)"

subsection \<open>The import\<close>

definition external_hash_cache_row_exists :: "registry_db \<Rightarrow> string \<Rightarrow> string \<Rightarrow> bool" where
  "external_hash_cache_row_exists d relpath h \<longleftrightarrow>
     list_ex (\<lambda>(k, r). hc_account_name r = EXTERNAL_HASH_CACHE_SCOPE \<and> hc_source_relpath r = Some relpath \<and>
       hc_hash_algo r = ''sha1'' \<and> hc_hash_value r = h) (external_hash_cache d)"

definition sync_details :: "imported_hash_entry \<Rightarrow> string" where
  "sync_details en = json_dumps '', '' '': '' [(''hash_algo'', JText ''sha1''), (''source_relpath'', JText (ie_source_relpath en))]"

fun import_entries :: "env \<Rightarrow> bool \<Rightarrow> imported_hash_entry list \<Rightarrow> nat \<Rightarrow> nat \<Rightarrow> world \<Rightarrow> (nat \<times> nat) res \<times> world" where
  "import_entries E dry_run [] imported skipped w = (Inr (imported, skipped), w)"
| "import_entries E dry_run (en # es) imported skipped w =
     (if external_hash_cache_row_exists (db w) (ie_source_relpath en) (ie_sha1 en)
      then import_entries E dry_run es imported (Suc skipped) w
      else if dry_run then import_entries E dry_run es (Suc imported) skipped w
      else
        and_then (reg_call E (\<lambda>now. upsert_external_hash_cache now EXTERNAL_HASH_CACHE_SCOPE (Some (ie_source_relpath en))
            ''sha1'' (ie_sha1 en) None) w) (\<lambda>_ w.
        and_then (reg_call E (\<lambda>now. append_audit_event now None ''sync_import'' (Some ''library_hash_import'') ''sync_import''
            (Some EXTERNAL_HASH_CACHE_SCOPE) (Some (sync_details en))) w) (\<lambda>_ w.
        import_entries E dry_run es (Suc imported) skipped w)))"

fun import_directories ::
  "env \<Rightarrow> lib_env \<Rightarrow> bool \<Rightarrow> path \<Rightarrow> string \<Rightarrow> path list \<Rightarrow> sync_import_summary \<Rightarrow> world \<Rightarrow> sync_import_summary res \<times> world" where
  "import_directories E L dry_run root_path hash_glob [] acc w = (Inr acc, w)"
| "import_directories E L dry_run root_path hash_glob (dir # ds) acc w =
     and_then (lift_res (build_directory_import_plan L root_path dir hash_glob (fsys w)) w) (\<lambda>plan w.
     and_then (import_entries E dry_run (dp_entries plan) (ss_imported_rows acc) (ss_skipped_rows acc) w) (\<lambda>(imported, skipped) w.
     import_directories E L dry_run root_path hash_glob ds
       (acc\<lparr>ss_cache_files_used := ss_cache_files_used acc + (if dp_source plan = ''cache'' then 1 else 0),
            ss_directories_rehashed := ss_directories_rehashed acc + (if dp_source plan = ''rehash'' then 1 else 0),
            ss_invalid_lines := ss_invalid_lines acc + dp_invalid_line_count plan,
            ss_imported_rows := imported, ss_skipped_rows := skipped\<rparr>) w))"

definition library_directories :: "path \<Rightarrow> fs \<Rightarrow> path list" where
  "library_directories root_path f = root_path # map (below root_path) (sort (dirs_below f root_path))"

definition run_sync_import ::
  "env \<Rightarrow> lib_env \<Rightarrow> bool \<Rightarrow> path \<Rightarrow> string \<Rightarrow> bool \<Rightarrow> world \<Rightarrow> sync_import_summary res \<times> world" where
  "run_sync_import E L enabled root_path hash_glob dry_run w =
     guard enabled (SyncImportError ''sync-import is disabled in [core]'') w (\<lambda>w.
     guard (fs_exists (fsys w) root_path) (SyncImportError (''sync-import path does not exist: '' @ path_str root_path)) w (\<lambda>w.
     guard (fs_is_dir (fsys w) root_path) (SyncImportError (''sync-import path is not a directory: '' @ path_str root_path)) w (\<lambda>w.
     and_then (reg_call E (\<lambda>_. initialize) w) (\<lambda>_ w.
     (let ds = library_directories root_path (fsys w) in
      import_directories E L dry_run root_path hash_glob ds
        \<lparr>ss_directories_scanned = length ds, ss_cache_files_used = 0, ss_directories_rehashed = 0, ss_imported_rows = 0,
         ss_skipped_rows = 0, ss_invalid_lines = 0, ss_dry_run = dry_run\<rparr> w)))))"

subsection \<open>A second import changes nothing\<close>

abbreviation sync_key :: "imported_hash_entry \<Rightarrow> hash_key" where
  "sync_key en \<equiv> (EXTERNAL_HASH_CACHE_SCOPE, Some (ie_source_relpath en), ''sha1'', ie_sha1 en)"

abbreviation entry_known :: "world \<Rightarrow> imported_hash_entry \<Rightarrow> bool" where
  "entry_known w en \<equiv> external_hash_cache_row_exists (db w) (ie_source_relpath en) (ie_sha1 en)"

lemma row_exists_key:
  assumes "wf_cache d"
  shows "external_hash_cache_row_exists d rp h \<longleftrightarrow>
    tbl_get (external_hash_cache d) (EXTERNAL_HASH_CACHE_SCOPE, Some rp, ''sha1'', h) \<noteq> None"
proof -
  have row: "(k, r) \<in> set (external_hash_cache d) \<Longrightarrow>
      (hc_account_name r = EXTERNAL_HASH_CACHE_SCOPE \<and> hc_source_relpath r = Some rp \<and> hc_hash_algo r = ''sha1'' \<and> hc_hash_value r = h)
        = (k = (EXTERNAL_HASH_CACHE_SCOPE, Some rp, ''sha1'', h))" for k r
    using assms by (auto simp: wf_cache_def list_all_iff)
  then have "external_hash_cache_row_exists d rp h \<longleftrightarrow>
      (\<exists>r. ((EXTERNAL_HASH_CACHE_SCOPE, Some rp, ''sha1'', h), r) \<in> set (external_hash_cache d))"
    unfolding external_hash_cache_row_exists_def list_ex_iff by fastforce
  then show ?thesis by (force simp: map_of_eq_None_iff)
qed

text \<open>What an import keeps: the library, the records, the known entries and the integrity of the registry.\<close>

definition sync_kept :: "world \<Rightarrow> world \<Rightarrow> bool" where
  "sync_kept w w' \<longleftrightarrow> fsys w' = fsys w \<and> (wf_db (db w) \<longrightarrow>
     wf_db (db w') \<and> files (db w') = files (db w) \<and> user_version (db w') = user_version (db w) \<and>
     relpath_notnull (db w') = relpath_notnull (db w) \<and> (\<exists>as. audit_log (db w') = audit_log (db w) @ as) \<and>
     (\<forall>en. entry_known w en \<longrightarrow> entry_known w' en))"

interpretation sy: step_frame sync_kept
  by unfold_locales (auto simp: sync_kept_def)

lemma sync_kept_reg_call:
  assumes "wf_db (db w) \<Longrightarrow> wf_db (snd (m (now_iso E w) (db w)))" and "files (snd (m (now_iso E w) (db w))) = files (db w)"
    and "user_version (snd (m (now_iso E w) (db w))) = user_version (db w)"
    and "relpath_notnull (snd (m (now_iso E w) (db w))) = relpath_notnull (db w)"
    and "\<exists>as. audit_log (snd (m (now_iso E w) (db w))) = audit_log (db w) @ as"
    and "dom (tbl_get (external_hash_cache (db w))) \<subseteq> dom (tbl_get (external_hash_cache (snd (m (now_iso E w) (db w)))))"
  shows "sync_kept w (snd (reg_call E m w))"
proof -
  let ?d = "snd (m (now_iso E w) (db w))"
  have "wf_cache (db w) \<Longrightarrow> wf_cache ?d \<Longrightarrow> external_hash_cache_row_exists (db w) rp h \<Longrightarrow> external_hash_cache_row_exists ?d rp h" for rp h
    using assms(6) by (auto simp: row_exists_key dom_def)
  then show ?thesis
    using assms(1-5) unfolding sync_kept_def db_reg_call fsys_reg_call by (auto simp: wf_db_def)
qed

lemma upsert_sync:
  assumes "wf_db (db w)"
    and "reg_call E (\<lambda>now. upsert_external_hash_cache now EXTERNAL_HASH_CACHE_SCOPE (Some (ie_source_relpath en)) ''sha1'' (ie_sha1 en) None) w = (r, w')"
  shows "r = Inr () \<and> sync_kept w w' \<and> entry_known w' en"
proof -
  let ?m = "\<lambda>now. upsert_external_hash_cache now EXTERNAL_HASH_CACHE_SCOPE (Some (ie_source_relpath en)) ''sha1'' (ie_sha1 en) None"
  have d: "fst (?m now d) = Inr ()" "files (snd (?m now d)) = files d" "audit_log (snd (?m now d)) = audit_log d"
    "user_version (snd (?m now d)) = user_version d" "relpath_notnull (snd (?m now d)) = relpath_notnull d"
    "dom (tbl_get (external_hash_cache (snd (?m now d)))) = insert (sync_key en) (dom (tbl_get (external_hash_cache d)))" for now d
    by (simp_all add: upsert_external_hash_cache_def at.dom_upsert)
  have w': "w' = snd (reg_call E ?m w)" "db w' = snd (?m (now_iso E w) (db w))"
    using assms(2) db_reg_call [of E ?m w] by auto
  have "sync_kept w w'"
    unfolding w'(1) by (rule sync_kept_reg_call) (use d wf_upsert_external_hash_cache in auto)
  moreover have "wf_cache (db w')" using calculation assms(1) by (simp add: sync_kept_def wf_db_def)
  then have "entry_known w' en \<longleftrightarrow> sync_key en \<in> dom (tbl_get (external_hash_cache (db w')))"
    by (simp add: row_exists_key domIff)
  then have "entry_known w' en" unfolding w'(2) d(6) by simp
  moreover have "r = Inr ()" using assms(2) d(1) [of "now_iso E w" "db w"] by (auto simp: reg_call_def split: prod.splits)
  ultimately show ?thesis by simp
qed

lemma audit_sync:
  assumes "reg_call E (\<lambda>now. append_audit_event now None ''sync_import'' rs ''sync_import'' ac det) w = (r, w')"
  shows "(\<exists>n. r = Inr n) \<and> sync_kept w w'"
proof -
  let ?m = "\<lambda>now. append_audit_event now None ''sync_import'' rs ''sync_import'' ac det"
  have "sync_kept w (snd (reg_call E ?m w))"
    by (rule sync_kept_reg_call) (use wf_append_audit_event in \<open>auto simp: append_audit_event_def add_audit_def\<close>)
  with assms show ?thesis by (auto simp: reg_call_def append_audit_event_def)
qed

lemma import_entries_all:
  assumes "wf_db (db w)"
  shows "\<exists>i' s' w'. import_entries E False es i s w = (Inr (i', s'), w') \<and> sync_kept w w' \<and>
    i' + s' = i + s + length es \<and> (\<forall>en \<in> set es. entry_known w' en)"
  using assms
proof (induction es arbitrary: i s w)
  case (Cons en es)
  show ?case
  proof (cases "entry_known w en")
    case True
    from Cons.IH [OF Cons.prems, of i "Suc s"] obtain i' s' w' where
      "import_entries E False es i (Suc s) w = (Inr (i', s'), w')" "sync_kept w w'" "i' + s' = i + Suc s + length es"
      "\<forall>en \<in> set es. entry_known w' en" by blast
    with True Cons.prems show ?thesis by (auto simp: sync_kept_def)
  next
    case False
    obtain r1 w1 where u: "reg_call E (\<lambda>now. upsert_external_hash_cache now EXTERNAL_HASH_CACHE_SCOPE
        (Some (ie_source_relpath en)) ''sha1'' (ie_sha1 en) None) w = (r1, w1)" by fastforce
    note k1 = upsert_sync [OF Cons.prems u]
    obtain r2 w2 where a: "reg_call E (\<lambda>now. append_audit_event now None ''sync_import'' (Some ''library_hash_import'') ''sync_import''
        (Some EXTERNAL_HASH_CACHE_SCOPE) (Some (sync_details en))) w1 = (r2, w2)" by fastforce
    note k2 = audit_sync [OF a]
    have k: "sync_kept w w2" using k1 k2 sy.frame_trans by blast
    then have wf: "wf_db (db w2)" using Cons.prems by (simp add: sync_kept_def)
    from Cons.IH [OF wf, of "Suc i" s] obtain i' s' w' where r:
      "import_entries E False es (Suc i) s w2 = (Inr (i', s'), w')" "sync_kept w2 w'" "i' + s' = Suc i + s + length es"
      "\<forall>en \<in> set es. entry_known w' en" by blast
    have "entry_known w2 en" using k1 k2 Cons.prems by (auto simp: sync_kept_def)
    then have "entry_known w' en" using r(2) wf by (simp add: sync_kept_def)
    moreover have "import_entries E False (en # es) i s w = (Inr (i', s'), w')" using False u a k1 k2 r(1) by auto
    ultimately show ?thesis using r(2-4) sy.frame_trans [OF k r(2)] by auto
  qed
qed (simp add: sy.frame_refl)

lemma import_entries_known:
  "\<forall>en \<in> set es. entry_known w en \<Longrightarrow> import_entries E False es i s w = (Inr (i, s + length es), w)"
  by (induction es arbitrary: s) simp_all

text \<open>One run over the directories, and the next one.\<close>

lemma import_directories_twice:
  assumes "wf_db (db w)" and "import_directories E L False root_path g ds acc w = (Inr res, w1)"
  shows "sync_kept w w1 \<and> (\<forall>w2 acc2. fsys w2 = fsys w1 \<and> wf_db (db w2) \<and> (\<forall>en. entry_known w1 en \<longrightarrow> entry_known w2 en) \<longrightarrow>
    (\<exists>res2. import_directories E L False root_path g ds acc2 w2 = (Inr res2, w2) \<and> ss_imported_rows res2 = ss_imported_rows acc2 \<and>
       ss_skipped_rows res2 + ss_imported_rows acc + ss_skipped_rows acc =
         ss_skipped_rows acc2 + ss_imported_rows res + ss_skipped_rows res))"
  using assms
proof (induction ds arbitrary: acc w)
  case (Cons dir ds)
  from Cons.prems(2) obtain plan where plan: "build_directory_import_plan L root_path dir g (fsys w) = Inr plan"
    by (cases "build_directory_import_plan L root_path dir g (fsys w)") (auto simp: lift_res_def)
  obtain i s wa where en: "import_entries E False (dp_entries plan) (ss_imported_rows acc) (ss_skipped_rows acc) w = (Inr (i, s), wa)"
    and ka: "sync_kept w wa" and sum: "i + s = ss_imported_rows acc + ss_skipped_rows acc + length (dp_entries plan)"
    and known: "\<forall>en \<in> set (dp_entries plan). entry_known wa en"
    using import_entries_all [OF Cons.prems(1)] by blast
  let ?up = "\<lambda>(acc :: sync_import_summary) i s. acc\<lparr>ss_cache_files_used := ss_cache_files_used acc + (if dp_source plan = ''cache'' then 1 else 0),
            ss_directories_rehashed := ss_directories_rehashed acc + (if dp_source plan = ''rehash'' then 1 else 0),
            ss_invalid_lines := ss_invalid_lines acc + dp_invalid_line_count plan,
            ss_imported_rows := i, ss_skipped_rows := s\<rparr>"
  have rest: "import_directories E L False root_path g ds (?up acc i s) wa = (Inr res, w1)"
    using Cons.prems(2) plan en by (simp add: lift_res_def)
  have wfa: "wf_db (db wa)" using ka Cons.prems(1) by (simp add: sync_kept_def)
  note ih = Cons.IH [OF wfa rest]
  have k1: "sync_kept wa w1" and fs1: "fsys w1 = fsys w" and kn1: "\<forall>en \<in> set (dp_entries plan). entry_known w1 en"
    using ih ka known wfa by (auto simp: sync_kept_def)
  show ?case
  proof (intro conjI allI impI)
    show "sync_kept w w1" using ka k1 sy.frame_trans by blast
    fix w2 and acc2 :: sync_import_summary
    assume a: "fsys w2 = fsys w1 \<and> wf_db (db w2) \<and> (\<forall>en. entry_known w1 en \<longrightarrow> entry_known w2 en)"
    have e2: "import_entries E False (dp_entries plan) (ss_imported_rows acc2) (ss_skipped_rows acc2) w2 =
        (Inr (ss_imported_rows acc2, ss_skipped_rows acc2 + length (dp_entries plan)), w2)"
      using a kn1 by (intro import_entries_known) blast
    from ih a obtain res2 where r2: "import_directories E L False root_path g ds
        (?up acc2 (ss_imported_rows acc2) (ss_skipped_rows acc2 + length (dp_entries plan))) w2 = (Inr res2, w2)"
      "ss_imported_rows res2 = ss_imported_rows acc2"
      "ss_skipped_rows res2 + i + s = ss_skipped_rows acc2 + length (dp_entries plan) + ss_imported_rows res + ss_skipped_rows res"
      by fastforce
    have "import_directories E L False root_path g (dir # ds) acc2 w2 = (Inr res2, w2)"
      using a fs1 plan e2 r2(1) by (simp add: lift_res_def)
    with r2(2,3) sum show "\<exists>res2. import_directories E L False root_path g (dir # ds) acc2 w2 = (Inr res2, w2) \<and>
        ss_imported_rows res2 = ss_imported_rows acc2 \<and>
        ss_skipped_rows res2 + ss_imported_rows acc + ss_skipped_rows acc =
          ss_skipped_rows acc2 + ss_imported_rows res + ss_skipped_rows res" by auto
  qed
qed (auto simp: sy.frame_refl)

text \<open>
  C40: the advisory import is idempotent.  A successful run leaves the library and the file records as
  they are and only extends the audit log; running it again on the same library imports nothing,
  skips every entry of the first run and leaves the registry unchanged.
\<close>

theorem sync_import_is_idempotent:
  assumes "wf_db (db w)" and "run_sync_import E L enabled root_path g False w = (Inr s, w1)"
  shows "fsys w1 = fsys w \<and> files (db w1) = files (db w) \<and> (\<exists>as. audit_log (db w1) = audit_log (db w) @ as) \<and>
    (\<exists>s2 w2. run_sync_import E L enabled root_path g False w1 = (Inr s2, w2) \<and> db w2 = db w1 \<and> fsys w2 = fsys w1 \<and>
       ss_imported_rows s2 = 0 \<and> ss_skipped_rows s2 = ss_imported_rows s + ss_skipped_rows s)"
proof -
  let ?acc = "\<lambda>f. \<lparr>ss_directories_scanned = length (library_directories root_path f), ss_cache_files_used = 0,
      ss_directories_rehashed = 0, ss_imported_rows = 0, ss_skipped_rows = 0, ss_invalid_lines = 0, ss_dry_run = False\<rparr>"
  obtain r0 w0 where i: "reg_call E (\<lambda>_. initialize) w = (r0, w0)" by fastforce
  from assms(2) i have en: "enabled" "fs_exists (fsys w) root_path" "fs_is_dir (fsys w) root_path"
    and run: "import_directories E L False root_path g (library_directories root_path (fsys w0)) (?acc (fsys w0)) w0 = (Inr s, w1)"
    and r0: "r0 = Inr ()"
    by (auto simp: run_sync_import_def guard_def and_then_eq_Inr Let_def split: if_splits)
  have w0: "fsys w0 = fsys w" "db w0 = snd (initialize (db w))" "wf_db (db w0)"
    using i wf_initialize [OF assms(1)] by (auto simp: reg_call_def split: prod.splits)
  have "files (db w0) = files (db w)" "audit_log (db w0) = audit_log (db w)" "user_version (db w0) = LATEST_SCHEMA_VERSION"
    "\<not> relpath_notnull (db w0)"
    using i r0 unfolding w0(2)
    by (auto simp: reg_call_def initialize_def run_migrations_def ensure_external_hash_cache_h1_schema_def LATEST_SCHEMA_VERSION_def
        split: prod.splits if_splits)
  note tw = import_directories_twice [OF w0(3) run]
  have k: "fsys w1 = fsys w" "wf_db (db w1)" "files (db w1) = files (db w)" "\<exists>as. audit_log (db w1) = audit_log (db w) @ as"
    "user_version (db w1) = LATEST_SCHEMA_VERSION" "\<not> relpath_notnull (db w1)"
    using tw w0 \<open>files (db w0) = files (db w)\<close> \<open>audit_log (db w0) = audit_log (db w)\<close>
      \<open>user_version (db w0) = LATEST_SCHEMA_VERSION\<close> \<open>\<not> relpath_notnull (db w0)\<close> by (auto simp: sync_kept_def)
  let ?w = "w1\<lparr>ticks := Suc (ticks w1)\<rparr>"
  have init: "reg_call E (\<lambda>_. initialize) w1 = (Inr (), ?w)"
    using k(5,6) by (simp add: reg_call_def initialize_def run_migrations_def ensure_external_hash_cache_h1_schema_def LATEST_SCHEMA_VERSION_def)
  from mp [OF spec [OF spec [OF conjunct2 [OF tw], of ?w], of "?acc (fsys w0)"]] k(2) obtain s2 where
    "import_directories E L False root_path g (library_directories root_path (fsys w0)) (?acc (fsys w0)) ?w = (Inr s2, ?w)"
    "ss_imported_rows s2 = 0" "ss_skipped_rows s2 = ss_imported_rows s + ss_skipped_rows s" by auto
  then have "run_sync_import E L enabled root_path g False w1 = (Inr s2, ?w)"
    using en init k(1) w0(1) by (simp add: run_sync_import_def Let_def)
  with \<open>ss_imported_rows s2 = 0\<close> \<open>ss_skipped_rows s2 = ss_imported_rows s + ss_skipped_rows s\<close> k show ?thesis by auto
qed

subsection \<open>The stored fingerprint is not compared\<close>

text \<open>Another content or time of a file leaves the listings and the kinds of all nodes as they are.\<close>

lemma rewritten_nodes:
  assumes "node_at f k = Some (Reg c t)" and "g = key_put k (Reg c' t') f"
  shows "fs_key g p = fs_key f p" and "fs_exists g p = fs_exists f p" and "fs_is_dir g p = fs_is_dir f p"
    and "fs_is_file g p = fs_is_file f p" and "fs_key f p \<noteq> k \<Longrightarrow> fs_node g p = fs_node f p"
    and "file_names g p = file_names f p"
proof -
  have k: "k \<noteq> []" using assms(1) node_at_Some_Reg by blast
  show key: "fs_key g p = fs_key f p" by (simp add: assms(2) fs_key_def)
  have at: "node_at g k' = (if k' = k then Some (Reg c' t') else node_at f k')" for k'
    unfolding assms(2) using k by simp
  show "fs_exists g p = fs_exists f p" "fs_is_dir g p = fs_is_dir f p" "fs_is_file g p = fs_is_file f p"
    "fs_key f p \<noteq> k \<Longrightarrow> fs_node g p = fs_node f p"
    using assms(1) by (auto simp: fs_exists_def fs_is_dir_def fs_is_file_def fs_node_def key at)
  have "map_of (nodes f) k = Some (Reg c t)" using assms(1) k by (simp add: node_at_def)
  moreover have "map_of ns k = Some (Reg c t) \<Longrightarrow>
      map fst (filter (\<lambda>(k, n). strict_prefix r k \<and> is_reg (Some n)) (AList.update k (Reg c' t') ns)) =
      map fst (filter (\<lambda>(k, n). strict_prefix r k \<and> is_reg (Some n)) ns)" for r ns
    by (induction ns) (auto simp: is_reg_def)
  ultimately have "key_files_below r g = key_files_below r f" for r
    unfolding key_files_below_def assms(2) key_put_def by simp
  then show "file_names g p = file_names f p" by (simp add: file_names_def key)
qed

lemma sync_listing_rewritten:
  assumes "node_at f k = Some (Reg c t)" and "g = key_put k (Reg c' t') f"
  shows "sync_iter_importable_files dir g = sync_iter_importable_files dir f"
    and "parse_sha1_rows root_path dir g ls = parse_sha1_rows root_path dir f ls"
proof -
  note n = rewritten_nodes [OF assms]
  show "sync_iter_importable_files dir g = sync_iter_importable_files dir f"
    by (simp add: sync_iter_importable_files_def n(3,6))
  have valid: "sync_row_valid p dir g = sync_row_valid p dir f" for p by (simp add: sync_row_valid_def n(2,4))
  show "parse_sha1_rows root_path dir g ls = parse_sha1_rows root_path dir f ls"
  proof (induction ls)
    case (Cons a ls)
    show ?case unfolding parse_sha1_rows.simps valid Cons ..
  qed simp
qed

text \<open>
  The advisory import takes a cache for current however the files of the directory have
  changed since: as long as the names are the same, new contents and times of any file but the cache
  itself lead to the very same plan, with the old hashes.
\<close>

theorem stale_cache_is_imported:
  assumes "build_directory_import_plan L root_path dir g f = Inr plan" and "dp_source plan = ''cache''"
    and "fs_node f p = Some (Reg c t)" and "fs_key f p \<noteq> fs_key f (child dir g)"
  shows "build_directory_import_plan L root_path dir g (key_put (fs_key f p) (Reg c' t') f) = Inr plan"
proof -
  let ?f = "key_put (fs_key f p) (Reg c' t') f"
  have k: "node_at f (fs_key f p) = Some (Reg c t)" using assms(3) by (simp add: fs_node_def)
  note n = rewritten_nodes [OF k refl [of ?f]] and l = sync_listing_rewritten [OF k refl [of ?f]]
  have "fst (fs_read (child dir g) ?f) = fst (fs_read (child dir g) f)"
    using n(5) [of "child dir g"] assms(4) by (simp add: fs_read_def split: option.splits node.splits)
  then have "parse_hash_cache_file (child dir g) root_path dir ?f = parse_hash_cache_file (child dir g) root_path dir f"
    unfolding parse_hash_cache_file_def l by simp
  with assms(1,2) n(2) show ?thesis
    by (auto simp: build_directory_import_plan_def rehash_plan_def split: if_splits sum.splits option.splits)
qed

subsection \<open>An example\<close>

definition synced_env :: lib_env where
  "synced_env = \<lparr>le_sha1 = (\<lambda>s. replicate 40 (CHR ''b'')), le_sha256 = (\<lambda>s. s), le_time_text = int_str\<rparr>"

definition synced_cache :: string where
  "synced_cache = ''DIRECTORY_HASH '' @ replicate 40 (CHR ''a'') @ [CHR 0x0A] @ replicate 40 (CHR ''c'') @ ''  /lib/x.jpg'' @ [CHR 0x0A]"

definition synced_tree :: fs where
  "synced_tree = \<lparr>nodes = [([''lib''], Dir), ([''lib'', ''x.jpg''], Reg ''abc'' 1), ([''lib'', ''.hashes.sha1''], Reg synced_cache 1)],
     fs_cwd = [], fs_dev = (\<lambda>_. 0)\<rparr>"

definition synced_world :: world where
  "synced_world = \<lparr>db = empty_db, fsys = synced_tree, jfiles = \<lparr>j_active = None, j_rotated = None\<rparr>, ticks = 0\<rparr>"

lemma synced_plan:
  "build_directory_import_plan synced_env (Path True [''lib'']) (Path True [''lib'']) ''.hashes.sha1'' synced_tree =
     Inr \<lparr>dp_directory = Path True [''lib''], dp_entries = [\<lparr>ie_source_relpath = ''x.jpg'', ie_sha1 = replicate 40 (CHR ''c'')\<rparr>],
       dp_source = ''cache'', dp_invalid_line_count = 0\<rparr>"
  by code_simp

theorem stale_cache_is_imported_witness:
  "\<exists>plan. build_directory_import_plan synced_env (Path True [''lib'']) (Path True [''lib'']) ''.hashes.sha1'' synced_tree = Inr plan \<and>
     build_directory_import_plan synced_env (Path True [''lib'']) (Path True [''lib'']) ''.hashes.sha1''
       (key_put [''lib'', ''x.jpg''] (Reg ''changed'' 2) synced_tree) = Inr plan"
proof -
  let ?p = "Path True [''lib'', ''x.jpg'']"
  have "fs_node synced_tree ?p = Some (Reg ''abc'' 1)" "fs_key synced_tree ?p = [''lib'', ''x.jpg'']"
    "fs_key synced_tree ?p \<noteq> fs_key synced_tree (child (Path True [''lib'']) ''.hashes.sha1'')"
    by (simp_all add: synced_tree_def fs_node_def fs_key_def resolve_def node_at_def child_def joinpath_def path_of_def)
  with stale_cache_is_imported [OF synced_plan, of ?p "''abc''" 1 "''changed''" 2] synced_plan show ?thesis by simp
qed

lemma synced_run:
  "\<exists>s w1. run_sync_import plain_env synced_env True (Path True [''lib'']) ''.hashes.sha1'' False synced_world = (Inr s, w1)"
proof -
  obtain w0 where i: "reg_call plain_env (\<lambda>_. initialize) synced_world = (Inr (), w0)" and w0: "fsys w0 = synced_tree" "wf_db (db w0)"
    by (auto simp: reg_call_def initialize_def run_migrations_def ensure_external_hash_cache_h1_schema_def LATEST_SCHEMA_VERSION_def
        synced_world_def empty_db_def wf_db_def wf_defs increasing_ids_def file_known_def)
  have n: "fs_exists synced_tree (Path True [''lib''])" "fs_is_dir synced_tree (Path True [''lib''])" "fsys synced_world = synced_tree"
    "library_directories (Path True [''lib'']) synced_tree = [Path True [''lib'']]"
    by (simp_all add: synced_tree_def synced_world_def fs_exists_def fs_is_dir_def fs_node_def fs_key_def resolve_def node_at_def
        library_directories_def dirs_below_def strict_prefix_def)
  have "\<exists>s w1. import_directories plain_env synced_env False (Path True [''lib'']) ''.hashes.sha1'' [Path True [''lib'']] acc w0 = (Inr s, w1)"
    for acc
  proof -
    obtain i s w1 where "import_entries plain_env False [\<lparr>ie_source_relpath = ''x.jpg'', ie_sha1 = replicate 40 (CHR ''c'')\<rparr>]
        (ss_imported_rows acc) (ss_skipped_rows acc) w0 = (Inr (i, s), w1)"
      using import_entries_all [OF w0(2)] by blast
    then show ?thesis using w0(1) synced_plan by (simp add: lift_res_def del: import_entries.simps)
  qed
  with i n w0 show ?thesis by (simp add: run_sync_import_def Let_def del: import_directories.simps)
qed

theorem sync_import_is_idempotent_witness:
  "\<exists>s w1 s2 w2. run_sync_import plain_env synced_env True (Path True [''lib'']) ''.hashes.sha1'' False synced_world = (Inr s, w1) \<and>
     run_sync_import plain_env synced_env True (Path True [''lib'']) ''.hashes.sha1'' False w1 = (Inr s2, w2) \<and>
     ss_imported_rows s2 = 0 \<and> db w2 = db w1"
proof -
  have wf: "wf_db (db synced_world)" by (simp add: synced_world_def empty_db_def wf_db_def wf_defs increasing_ids_def)
  obtain s w1 where run: "run_sync_import plain_env synced_env True (Path True [''lib'']) ''.hashes.sha1'' False synced_world = (Inr s, w1)"
    using synced_run by blast
  with sync_import_is_idempotent [OF wf run] show ?thesis by blast
qed

end
