(* ===== verification/Cli.thy ===== *)
theory Cli
  imports Workers Discovery Ini_Write System Hash_Import Sync_Import
begin

section \<open>The command line (\<open>cli.py\<close>, \<open>hash_import_cli.py\<close>, \<open>status.py\<close>)\<close>

text \<open>
  The handlers of the commands, from the loaded configuration to the exit code and the status
  file.  A handler returns its exit code, or raises what it does not catch (\<open>Inl\<close>).  Argument
  parsing, log output and prompts are left out; what the operator answers is an argument, and so are
  the machine's name, the version, SQLite's image of a database and the duration the poll reports.  The
  running ingest totals the poll adds to its report are left out of the recorded details.
\<close>

record 'c cli_env =
  ce_net :: net
  ce_msal :: "'c msal"
  ce_lib :: lib_env
  ce_busy :: "nat \<Rightarrow> path \<Rightarrow> bool"
  ce_clk :: "nat \<Rightarrow> rat"
  ce_host :: string
  ce_version :: string
  ce_image :: "registry_db \<Rightarrow> string"
  ce_stamp :: "int \<Rightarrow> string"
  ce_duration :: string

abbreviation ce_env :: "'c cli_env \<Rightarrow> env" where
  "ce_env X \<equiv> outside (ce_net X)"

subsection \<open>The status file\<close>

definition STATUS_FILE_PATH :: path where
  "STATUS_FILE_PATH = path_of ''/run/nightfall-status.d/photo-ingress.json''"

datatype detail = DVal jval | DTexts "string list" | DNum string

fun detail_text :: "detail \<Rightarrow> string" where
  "detail_text (DVal v) = json_val v"
| "detail_text (DTexts ts) = ''['' @ join_with '', '' (map json_str ts) @ '']''"
| "detail_text (DNum t) = t"

text \<open>\<open>json.dumps(payload, sort_keys=True)\<close> of the payload, whose details are one object more.\<close>

definition details_text :: "(string \<times> detail) list \<Rightarrow> string" where
  "details_text ds = ''{'' @ join_with '', '' (map (\<lambda>(k, v). json_str k @ '': '' @ detail_text v) (sort_key fst ds)) @ ''}''"

definition snapshot_text :: "'c cli_env \<Rightarrow> string \<Rightarrow> string \<Rightarrow> string \<Rightarrow> bool \<Rightarrow> (string \<times> detail) list \<Rightarrow> string" where
  "snapshot_text X now state command success ds =
     ''{'' @ join_with '', '' (map (\<lambda>(k, t). json_str k @ '': '' @ t)
       [(''command'', json_str command), (''details'', details_text ds), (''host'', json_str (ce_host X)),
        (''schema_version'', json_val (JInt 1)), (''service'', json_str ''photo-ingress''),
        (''state'', json_str state), (''success'', json_val (JBool success)),
        (''updated_at'', json_str now), (''version'', json_str (ce_version X))]) @ ''}''"

definition write_status_snapshot ::
  "'c cli_env \<Rightarrow> path \<Rightarrow> string \<Rightarrow> string \<Rightarrow> bool \<Rightarrow> (string \<times> detail) list \<Rightarrow> world \<Rightarrow> path res \<times> world" where
  "write_status_snapshot X file state command success ds w =
     (case draw_time (ce_env X) w of (now, w) \<Rightarrow>
      let tmp = with_suffix file (path_suffix file @ ''.tmp'') in
      and_then (fs_call (fs_mkdirs (path_parent file)) w) (\<lambda>_ w.
      and_then (fs_call (fs_write tmp (snapshot_text X (iso (ce_env X) now) state command success ds) now) w) (\<lambda>_ w.
      and_then (fs_call (fs_rename tmp file) w) (\<lambda>_ w. (Inr file, w)))))"

definition emit_status_snapshot ::
  "'c cli_env \<Rightarrow> string \<Rightarrow> string \<Rightarrow> bool \<Rightarrow> (string \<times> detail) list \<Rightarrow> world \<Rightarrow> unit res \<times> world" where
  "emit_status_snapshot X state command success ds w =
     (case write_status_snapshot X STATUS_FILE_PATH state command success ds w of
        (Inl (OSError m), w) \<Rightarrow> (Inr (), w)
      | (Inl e, w) \<Rightarrow> (Inl e, w)
      | (Inr file, w) \<Rightarrow> (Inr (), w))"

subsection \<open>The frame of a handler\<close>

fun exn_text :: "exn \<Rightarrow> string" where
  "exn_text (RegistryError m) = m"
| "exn_text (StorageError m) = m"
| "exn_text (RejectFlowError m) = m"
| "exn_text (IngestError m) = m"
| "exn_text (LivePhotoError m) = m"
| "exn_text (IntegrityError m) = m"
| "exn_text (OSError m) = m"
| "exn_text (ValueError m) = m"
| "exn_text (LookupError m) = m"
| "exn_text (AttributeError m) = m"
| "exn_text (ThumbnailNotFoundError m) = m"
| "exn_text (ThumbnailGenerationError m) = m"
| "exn_text (GraphError m c st) = m"
| "exn_text (GraphResyncRequired u) = ''Graph delta cursor is no longer valid and requires resync''"
| "exn_text (DownloadError m c st) = m"
| "exn_text (AuthError m) = m"
| "exn_text (HashImportError m) = m"
| "exn_text (HashImportParseError f n m) = m"
| "exn_text (SyncImportError m) = m"
| "exn_text (ConfigError m) = m"
| "exn_text (ParserError m) = m"
| "exn_text (TypeError m) = m"
| "exn_text (HTTPException st m) = m"

text \<open>\<open>except ValueError\<close>: \<open>ConfigError\<close> is a \<open>ValueError\<close>, the errors of \<open>configparser\<close> are not.\<close>

fun value_error :: "exn \<Rightarrow> bool" where
  "value_error (ValueError m) = True"
| "value_error (ConfigError m) = True"
| "value_error e = False"

fun flow_caught :: "exn \<Rightarrow> bool" where
  "flow_caught (RejectFlowError m) = True"
| "flow_caught e = value_error e"

fun sync_caught :: "exn \<Rightarrow> bool" where
  "sync_caught (SyncImportError m) = True"
| "sync_caught e = value_error e"

fun hash_caught :: "exn \<Rightarrow> bool" where
  "hash_caught (HashImportError m) = True"
| "hash_caught (RegistryError m) = True"
| "hash_caught e = value_error e"

fun prune_caught :: "exn \<Rightarrow> bool" where
  "prune_caught (RegistryError m) = True"
| "prune_caught e = value_error e"

definition error_detail :: "exn \<Rightarrow> (string \<times> detail) list" where
  "error_detail e = [(''error'', DVal (JText (exn_text e)))]"

definition run_command ::
  "'c cli_env \<Rightarrow> string \<Rightarrow> string \<Rightarrow> (exn \<Rightarrow> bool) \<Rightarrow> ('a \<Rightarrow> (string \<times> detail) list) \<Rightarrow> (exn \<Rightarrow> (string \<times> detail) list)
     \<Rightarrow> 'a res \<times> world \<Rightarrow> int res \<times> world" where
  "run_command X command failed caught details details_error r =
     (case r of
        (Inr x, w) \<Rightarrow> and_then (emit_status_snapshot X ''healthy'' command True (details x) w) (\<lambda>_ w. (Inr 0, w))
      | (Inl e, w) \<Rightarrow>
          if caught e
          then and_then (emit_status_snapshot X failed command False (details_error e) w) (\<lambda>_ w. (Inr 2, w))
          else (Inl e, w))"

definition cli_config :: "'c cli_env \<Rightarrow> path \<Rightarrow> world \<Rightarrow> AppConfig res \<times> world" where
  "cli_config X file w = fs_call (load_config (read_float (ce_net X)) (loads (ce_net X)) file) w"

definition flow_config :: "CoreConfig \<Rightarrow> app_config" where
  "flow_config c = \<lparr>cf_pending_path = pending_path c, cf_accepted_path = accepted_path c,
     cf_rejected_path = rejected_path c, cf_trash_path = trash_path c, cf_storage_template = storage_template c,
     cf_accepted_storage_template = accepted_storage_template c\<rparr>"

definition arg_or_empty :: "string option \<Rightarrow> string" where
  "arg_or_empty a = (case a of None \<Rightarrow> [] | Some s \<Rightarrow> s)"

subsection \<open>Operator commands\<close>

definition cmd_reject :: "'c cli_env \<Rightarrow> path \<Rightarrow> string option \<Rightarrow> string option \<Rightarrow> world \<Rightarrow> int res \<times> world" where
  "cmd_reject X file sha reason w =
     run_command X ''reject'' ''ingest_error'' flow_caught
       (\<lambda>r. [(''sha256'', DVal (JText (rj_sha256 r))), (''action'', DVal (JText (rj_action r)))]) error_detail
       (and_then (cli_config X file w) (\<lambda>cfg w.
          reject_sha256 (ce_env X) (flow_config (app_core cfg)) (arg_or_empty sha) reason ''cli'' w))"

definition cmd_accept :: "'c cli_env \<Rightarrow> path \<Rightarrow> string option \<Rightarrow> string option \<Rightarrow> world \<Rightarrow> int res \<times> world" where
  "cmd_accept X file sha reason w =
     run_command X ''accept'' ''ingest_error'' flow_caught
       (\<lambda>r. [(''sha256'', DVal (JText (al_sha256 r))), (''action'', DVal (JText (al_action r)))]) error_detail
       (and_then (cli_config X file w) (\<lambda>cfg w.
          accept_sha256 (ce_env X) (flow_config (app_core cfg)) (arg_or_empty sha) reason ''cli'' w))"

definition cmd_purge :: "'c cli_env \<Rightarrow> path \<Rightarrow> string option \<Rightarrow> string option \<Rightarrow> world \<Rightarrow> int res \<times> world" where
  "cmd_purge X file sha reason w =
     run_command X ''purge'' ''ingest_error'' flow_caught
       (\<lambda>r. [(''sha256'', DVal (JText (pg_sha256 r))), (''action'', DVal (JText (pg_action r)))]) error_detail
       (and_then (cli_config X file w) (\<lambda>cfg w.
          purge_sha256 (ce_env X) (flow_config (app_core cfg)) (arg_or_empty sha) reason ''cli'' w))"

abbreviation DNat :: "nat \<Rightarrow> detail" where
  "DNat n \<equiv> DVal (JInt (int n))"

definition cmd_process_trash :: "'c cli_env \<Rightarrow> path \<Rightarrow> world \<Rightarrow> int res \<times> world" where
  "cmd_process_trash X file w =
     run_command X ''process-trash'' ''ingest_error'' flow_caught
       (\<lambda>r. [(''processed_files'', DNat (tr_processed_files r)), (''rejected_files'', DNat (tr_rejected_files r)),
          (''noop_files'', DNat (tr_noop_files r)), (''unknown_files'', DNat (tr_unknown_files r))]) error_detail
       (and_then (cli_config X file w) (\<lambda>cfg w. process_trash (ce_env X) (flow_config (app_core cfg)) w))"

definition cmd_sync_import :: "'c cli_env \<Rightarrow> path \<Rightarrow> bool \<Rightarrow> world \<Rightarrow> int res \<times> world" where
  "cmd_sync_import X file dry_run w =
     run_command X ''sync-import'' ''ingest_error'' sync_caught
       (\<lambda>s. [(''dry_run'', DVal (JBool (ss_dry_run s))), (''directories_scanned'', DNat (ss_directories_scanned s)),
          (''cache_files_used'', DNat (ss_cache_files_used s)), (''directories_rehashed'', DNat (ss_directories_rehashed s)),
          (''imported_rows'', DNat (ss_imported_rows s)), (''skipped_rows'', DNat (ss_skipped_rows s)),
          (''invalid_lines'', DNat (ss_invalid_lines s))]) error_detail
       (and_then (cli_config X file w) (\<lambda>cfg w.
          run_sync_import (ce_env X) (ce_lib X) (sync_hash_import_enabled (app_core cfg)) (sync_hash_import_path (app_core cfg))
            (sync_hash_import_glob (app_core cfg)) dry_run w))"

definition cmd_hash_import ::
  "'c cli_env \<Rightarrow> path \<Rightarrow> string \<Rightarrow> int option \<Rightarrow> bool \<Rightarrow> bool \<Rightarrow> world \<Rightarrow> int res \<times> world" where
  "cmd_hash_import X file root_arg cli_chunk_size dry_run stop_on_error w =
     run_command X ''hash-import'' ''ingest_error'' hash_caught
       (\<lambda>(chunk_size, s). [(''dry_run'', DVal (JBool dry_run)), (''chunk_size'', DVal (JInt chunk_size)),
          (''directories_processed'', DNat (hs_directories_processed s)), (''recomputes_performed'', DNat (hs_recomputes_performed s)),
          (''valid_caches_consumed'', DNat (hs_valid_caches_consumed s)),
          (''stale_invalid_caches_replaced'', DNat (hs_stale_invalid_caches_replaced s)),
          (''total_imported'', DNat (hs_total_imported s)), (''total_skipped'', DNat (hs_total_skipped s)),
          (''root_path'', DVal (JText root_arg)), (''stop_on_error'', DVal (JBool stop_on_error))])
       (\<lambda>e. error_detail e @ [(''root_path'', DVal (JText root_arg))])
       (and_then (cli_config X file w) (\<lambda>cfg w.
        and_then (db_call initialize w) (\<lambda>_ w.
        and_then (case cli_chunk_size of
                    Some n \<Rightarrow> lift_res (resolve_hash_import_chunk_size 0 (Some n)) w
                  | None \<Rightarrow> and_then (cli_config X file w) (\<lambda>cfg w. (Inr (chunk_size (app_import cfg)), w))) (\<lambda>n w.
        and_then (run_hash_import_command (ce_env X) (ce_lib X) (path_of root_arg) n dry_run w) (\<lambda>s w.
        (Inr (n, s), w))))))"

definition cmd_config_check :: "'c cli_env \<Rightarrow> path \<Rightarrow> string \<Rightarrow> world \<Rightarrow> int res \<times> world" where
  "cmd_config_check X file arg w =
     and_then (fs_call (validate_config_file (read_float (ce_net X)) (loads (ce_net X)) file) w) (\<lambda>errors w.
     if errors = []
     then and_then (emit_status_snapshot X ''healthy'' ''config-check'' True [(''path'', DVal (JText arg))] w) (\<lambda>_ w. (Inr 0, w))
     else and_then (emit_status_snapshot X ''degraded'' ''config-check'' False
            [(''path'', DVal (JText arg)), (''errors'', DTexts errors)] w) (\<lambda>_ w. (Inr 2, w)))"

text \<open>\<open>Registry.backup_to\<close>; the pruning comes after it.\<close>

definition backup_to :: "'c cli_env \<Rightarrow> path \<Rightarrow> world \<Rightarrow> path res \<times> world" where
  "backup_to X dest w =
     and_then (fs_call (fs_mkdirs (path_parent dest)) w) (\<lambda>_ w.
     (case draw_time (ce_env X) w of (now, w) \<Rightarrow>
      and_then (fs_call (fs_write dest (ce_image X (db w)) now) w) (\<lambda>_ w. (Inr dest, w))))"

definition backup_path :: "'c cli_env \<Rightarrow> path \<Rightarrow> string option \<Rightarrow> world \<Rightarrow> path \<times> world" where
  "backup_path X registry arg w =
     (case arg of
        Some (c # s) \<Rightarrow> (path_of (c # s), w)
      | _ \<Rightarrow> (case draw_time (ce_env X) w of (now, w) \<Rightarrow>
               (with_suffix registry (''.auth-failure-prune-'' @ ce_stamp X now @ ''.bak''), w)))"

definition prune_work ::
  "'c cli_env \<Rightarrow> path \<Rightarrow> string option \<Rightarrow> int \<Rightarrow> world \<Rightarrow> (path \<times> path \<times> nat) res \<times> world" where
  "prune_work X file backup_arg keep_latest w =
     and_then (cli_config X file w) (\<lambda>cfg w.
     and_then (db_call initialize w) (\<lambda>_ w.
     guard (keep_latest \<ge> 0) (ValueError ''--keep-latest must be >= 0'') w (\<lambda>w.
     (case backup_path X (registry_path (app_core cfg)) backup_arg w of (backup, w) \<Rightarrow>
      and_then (backup_to X backup w) (\<lambda>_ w.
      and_then (db_call (prune_auth_failure_audit_backlog keep_latest) w) (\<lambda>n w.
      (Inr (registry_path (app_core cfg), backup, n), w)))))))"

definition cmd_prune_auth_failures :: "'c cli_env \<Rightarrow> path \<Rightarrow> string option \<Rightarrow> int \<Rightarrow> world \<Rightarrow> int res \<times> world" where
  "cmd_prune_auth_failures X file backup_arg keep_latest w =
     run_command X ''prune-auth-failures'' ''degraded'' prune_caught
       (\<lambda>(registry, backup, n). [(''registry_path'', DVal (JText (path_str registry))), (''backup_path'', DVal (JText (path_str backup))),
          (''keep_latest'', DVal (JInt keep_latest)), (''pruned_count'', DNat n)]) error_detail
       (prune_work X file backup_arg keep_latest w)"

subsection \<open>The poll command\<close>

definition staged_of :: "downloaded_handoff \<Rightarrow> staged_candidate" where
  "staged_of row = \<lparr>sc_account_name = dh_account_name row, sc_onedrive_id = dh_onedrive_id row,
     sc_original_filename = dh_original_filename row, sc_relative_path = dh_relative_path row,
     sc_modified_time = dh_modified_time row,
     sc_size_bytes = (case dh_size_bytes row of JInt n \<Rightarrow> Some n | _ \<Rightarrow> None),
     sc_staging_path = dh_staging_path row\<rparr>"

definition poll_ingest_params :: "CoreConfig \<Rightarrow> ingest_params" where
  "poll_ingest_params c = \<lparr>ip_pending_root = pending_path c, ip_storage_template = storage_template c,
     ip_staging_on_same_pool = staging_on_same_pool c, ip_pre_hash_size_verify = True, ip_zero_byte_policy = ''allow'',
     ip_quarantine_dir = None, ip_collision_max_attempts = 10000\<rparr>"

text \<open>The engine of the command has no journal.\<close>

definition process_page_handoff :: "env \<Rightarrow> CoreConfig \<Rightarrow> handoff_processor" where
  "process_page_handoff E c account rows w =
     (if rows = [] then (Inr (), w)
      else and_then (process_batch E None (poll_ingest_params c) (map staged_of rows) INGEST_INPUT_SCHEMA_VERSION 1 True None w)
             (\<lambda>_ w. (Inr (), w)))"

fun graph_error :: "exn \<Rightarrow> string option" where
  "graph_error (GraphError m c st) = Some c"
| "graph_error (GraphResyncRequired u) = Some ''graph_resync_required''"
| "graph_error (DownloadError m c st) = Some c"
| "graph_error e = None"

fun poll_caught :: "exn \<Rightarrow> bool" where
  "poll_caught (AuthError m) = True"
| "poll_caught (IngestError m) = True"
| "poll_caught (RegistryError m) = True"
| "poll_caught e = value_error e"

definition poll_report :: "'c cli_env \<Rightarrow> account_poll_result list \<Rightarrow> (string \<times> detail) list" where
  "poll_report X rs =
     [(''accounts'', DTexts (map ar_account_name rs)),
      (''candidate_count'', DNat (sum_list (map ar_candidate_count rs))),
      (''downloaded_count'', DNat (sum_list (map (\<lambda>r. length (ar_downloaded_paths r)) rs))),
      (''poll_duration_s'', DNum (ce_duration X))]"

definition on_world :: "(world \<Rightarrow> 'a \<times> world) \<Rightarrow> fleet \<Rightarrow> 'a \<times> fleet" where
  "on_world m s = (case m (fleet_world s) of (r, w) \<Rightarrow> (r, s\<lparr>fl_net := (fl_net s)\<lparr>pl_world := w\<rparr>\<rparr>))"

definition end_poll :: "'c cli_env \<Rightarrow> string \<Rightarrow> bool \<Rightarrow> (string \<times> detail) list \<Rightarrow> int \<Rightarrow> fleet \<Rightarrow> int res \<times> fleet" where
  "end_poll X state success ds code s =
     and_then (on_world (emit_status_snapshot X state ''poll'' success ds) s) (\<lambda>_ s. (Inr code, s))"

definition poll_work :: "'c cli_env \<Rightarrow> string list \<Rightarrow> path \<Rightarrow> string option \<Rightarrow> fleet \<Rightarrow> account_poll_result list res \<times> fleet" where
  "poll_work X scopes file account s =
     and_then (on_world (cli_config X file) s) (\<lambda>cfg s.
     and_then (on_world (db_call initialize) s) (\<lambda>_ s.
     poll_accounts (ce_net X) (ce_msal X) scopes (ce_busy X) DEFAULT_POLICY (ce_clk X) cfg account
       (Some (process_page_handoff (ce_env X) (app_core cfg))) s))"

definition cmd_poll :: "'c cli_env \<Rightarrow> string list \<Rightarrow> path \<Rightarrow> string option \<Rightarrow> fleet \<Rightarrow> int res \<times> fleet" where
  "cmd_poll X scopes file account s =
     (case poll_work X scopes file account s of
        (Inr rs, s) \<Rightarrow> end_poll X ''healthy'' True (poll_report X rs) 0 s
      | (Inl e, s) \<Rightarrow>
          (case graph_error e of
             Some code \<Rightarrow>
               if code \<in> {''delta_runtime_limit_exceeded'', ''drift_threshold_critical''}
               then end_poll X ''degraded'' True [(''warning'', DVal (JText (exn_text e))), (''warning_code'', DVal (JText code))] 0 s
               else end_poll X ''ingest_error'' False [(''error'', DVal (JText (exn_text e))), (''error_code'', DVal (JText code))] 2 s
           | None \<Rightarrow>
               if poll_caught e then end_poll X ''ingest_error'' False (error_detail e) 2 s
               else (Inl e, s)))"


subsection \<open>Authentication and discovery\<close>

definition resolve_target_account :: "AppConfig \<Rightarrow> string option \<Rightarrow> AccountConfig res" where
  "resolve_target_account cfg requested =
     (let enabled = ordered_enabled_accounts cfg in
      if requested \<noteq> None \<and> requested \<noteq> Some []
      then (case find (\<lambda>a. Some (acc_name a) = requested) enabled of
              Some a \<Rightarrow> Inr a
            | None \<Rightarrow> Inl (ValueError (''Enabled account not found: '' @ arg_or_empty requested)))
      else if length enabled = 1 then Inr (hd enabled)
      else Inl (ValueError ''Multiple enabled accounts found; pass --account''))"

record operator =
  op_prompt_policy :: string
  op_at_terminal :: bool
  op_answer :: string

definition confirm_config_writeback :: "operator \<Rightarrow> bool" where
  "confirm_config_writeback P =
     (let policy = py_lower (py_strip (op_prompt_policy P)) in
      if policy = ''assume-yes'' then True
      else if policy = ''assume-no'' \<or> policy = ''assume-default'' then False
      else if \<not> op_at_terminal P then False
      else py_lower (py_strip (op_answer P)) \<in> {''y'', ''yes''})"

text \<open>Opening a file that can not be read or written ends quietly; an ill-formed file does not.\<close>

definition write_account_onedrive_root :: "path \<Rightarrow> string \<Rightarrow> string \<Rightarrow> int \<Rightarrow> fs \<Rightarrow> bool res \<times> fs" where
  "write_account_onedrive_root file name discovered now f =
     (case fst (fs_read file f) of
        Inl (OSError m) \<Rightarrow> (Inr False, f)
      | Inl e \<Rightarrow> (Inl e, f)
      | Inr body \<Rightarrow>
          (case read_ini body of
             Inl e \<Rightarrow> (Inl e, f)
           | Inr I \<Rightarrow>
               if ''account.'' @ name \<notin> set (section_names I) then (Inr False, f)
               else (case fs_write file (write_ini (set_option (''account.'' @ name) ''onedrive_root'' discovered I)) now f of
                       (Inl (OSError m), f) \<Rightarrow> (Inr False, f)
                     | (Inl e, f) \<Rightarrow> (Inl e, f)
                     | (Inr u, f) \<Rightarrow> (Inr True, f))))"

definition unless_graph :: "'a \<Rightarrow> 'a res \<times> fleet \<Rightarrow> 'a res \<times> fleet" where
  "unless_graph d r =
     (case r of
        (Inl e, s) \<Rightarrow> if graph_error e \<noteq> None then (Inr d, s) else (Inl e, s)
      | (Inr x, s) \<Rightarrow> (Inr x, s))"

definition take_over_root ::
  "'c cli_env \<Rightarrow> operator \<Rightarrow> path \<Rightarrow> AccountConfig \<Rightarrow> path_resolution \<Rightarrow> fleet \<Rightarrow> unit res \<times> fleet" where
  "take_over_root X P file A r s =
     and_then (on_auth (persist_onboarding_root (ce_env X) A (effective_path r)) s) (\<lambda>_ s.
     case rs_suggested_path r of
       None \<Rightarrow> (Inr (), s)
     | Some q \<Rightarrow>
         if confirm_config_writeback P
         then and_then (on_world (\<lambda>w. fs_call (write_account_onedrive_root file (acc_name A) q (clock (ce_env X) (ticks w))) w) s)
                (\<lambda>_ s. (Inr (), s))
         else (Inr (), s))"

definition run_discovery ::
  "'c cli_env \<Rightarrow> operator \<Rightarrow> path \<Rightarrow> AccountConfig \<Rightarrow> string \<Rightarrow> fleet \<Rightarrow> int res \<times> fleet" where
  "run_discovery X P file A token s =
     (let N = (ce_net X)\<lparr>refresh_token := None\<rparr> in
      and_then (unless_graph None (on_poller (detect_account_locale N DEFAULT_POLICY token) s)) (\<lambda>_ s.
      and_then (unless_graph () (
          and_then (on_poller (resolve_camera_roll_path_for_onboarding N DEFAULT_POLICY token (acc_onedrive_root A)) s) (\<lambda>r s.
          take_over_root X P file A r s))) (\<lambda>_ s.
      (Inr 0, s))))"

fun auth_caught :: "exn \<Rightarrow> bool" where
  "auth_caught (AuthError m) = True"
| "auth_caught e = value_error e"

definition end_auth :: "int res \<times> fleet \<Rightarrow> int res \<times> fleet" where
  "end_auth r = (case r of (Inl e, s) \<Rightarrow> if auth_caught e then (Inr 2, s) else (Inl e, s) | (Inr c, s) \<Rightarrow> (Inr c, s))"

definition cmd_auth_setup ::
  "'c cli_env \<Rightarrow> operator \<Rightarrow> string list \<Rightarrow> path \<Rightarrow> string option \<Rightarrow> bool \<Rightarrow> fleet \<Rightarrow> int res \<times> fleet" where
  "cmd_auth_setup X P scopes file account skip_discovery s =
     end_auth (
       and_then (on_world (cli_config X file) s) (\<lambda>cfg s.
       and_then (resolve_target_account cfg account, s) (\<lambda>A s.
       and_then (on_auth (auth_setup (ce_env X) (ce_msal X) scopes A) s) (\<lambda>token s.
       if skip_discovery then (Inr 0, s) else run_discovery X P file A token s))))"

definition cmd_discover_paths ::
  "'c cli_env \<Rightarrow> operator \<Rightarrow> string list \<Rightarrow> path \<Rightarrow> string option \<Rightarrow> fleet \<Rightarrow> int res \<times> fleet" where
  "cmd_discover_paths X P scopes file account s =
     end_auth (
       and_then (on_world (cli_config X file) s) (\<lambda>cfg s.
       and_then (resolve_target_account cfg account, s) (\<lambda>A s.
       and_then (on_auth (acquire_access_token (ce_env X) (ce_msal X) scopes A) s) (\<lambda>token s.
       run_discovery X P file A token s))))"


subsection \<open>The status file is replaced as a whole\<close>

definition status_key :: "string list" where
  "status_key = [''run'', ''nightfall-status.d'', ''photo-ingress.json'']"

lemma status_keys:
  "fs_key f STATUS_FILE_PATH = status_key"
  "fs_key f (path_parent STATUS_FILE_PATH) = [''run'', ''nightfall-status.d'']"
  "fs_key f (with_suffix STATUS_FILE_PATH (path_suffix STATUS_FILE_PATH @ ''.tmp'')) =
     [''run'', ''nightfall-status.d'', ''photo-ingress.json.tmp'']"
  by (simp_all add: fs_key_def) code_simp+

abbreviation status_node :: "world \<Rightarrow> node option" where
  "status_node w \<equiv> node_at (fsys w) status_key"

lemma fs_errors:
  "fst (fs_mkdirs p f) = Inl e \<Longrightarrow> \<exists>m. e = OSError m" "fst (fs_write p c t f) = Inl e \<Longrightarrow> \<exists>m. e = OSError m"
  "fst (fs_rename p q f) = Inl e \<Longrightarrow> \<exists>m. e = OSError m"
  by (auto simp: fs_mkdirs_def key_mkdirs_def fs_write_def fs_rename_def key_rename_def split: if_splits option.splits node.splits)

lemma fs_call_eq: "fs_call m w = (fst (m (fsys w)), w\<lparr>fsys := snd (m (fsys w))\<rparr>)"
  by (simp add: fs_call_def split: prod.split)

lemma write_status_outcome:
  assumes "write_status_snapshot X STATUS_FILE_PATH state command success ds w = (r, w')"
  shows "db w' = db w \<and>
    (case r of
       Inr file \<Rightarrow> status_node w' = Some (Reg (snapshot_text X (iso (ce_env X) (clock (ce_env X) (ticks w))) state command success ds)
                     (clock (ce_env X) (ticks w)))
     | Inl e \<Rightarrow> (\<exists>m. e = OSError m) \<and> status_node w' = status_node w)"
proof -
  let ?now = "clock (ce_env X) (ticks w)" and ?tmp = "with_suffix STATUS_FILE_PATH (path_suffix STATUS_FILE_PATH @ ''.tmp'')"
  let ?t = "snapshot_text X (iso (ce_env X) ?now) state command success ds"
  let ?f0 = "fsys w"
  let ?f1 = "snd (fs_mkdirs (path_parent STATUS_FILE_PATH) ?f0)"
  let ?f2 = "snd (fs_write ?tmp ?t ?now ?f1)"
  let ?f3 = "snd (fs_rename ?tmp STATUS_FILE_PATH ?f2)"
  have n1: "node_at ?f1 status_key = node_at ?f0 status_key"
    by (simp add: fs_mkdirs_def status_keys key_mkdirs_def key_prefixes_def add_dir_def status_key_def)
  have n2: "node_at ?f2 status_key = node_at ?f1 status_key"
    by (simp add: fs_write_def status_keys status_key_def)
  have tmp: "node_at ?f2 [''run'', ''nightfall-status.d'', ''photo-ingress.json.tmp''] = Some (Reg ?t ?now)"
    if "fst (fs_write ?tmp ?t ?now ?f1) = Inr u" for u
    using that by (auto simp: fs_write_def status_keys split: if_splits)
  have n3: "if isl (fst (fs_rename ?tmp STATUS_FILE_PATH ?f2)) then node_at ?f3 status_key = node_at ?f2 status_key
      else node_at ?f3 status_key = Some (Reg ?t ?now)"
    if "fst (fs_write ?tmp ?t ?now ?f1) = Inr u" for u
    using tmp [OF that] by (simp add: fs_rename_def status_keys key_rename_def status_key_def)
  show ?thesis
    using assms n1 n2 n3 fs_errors(1) [of "path_parent STATUS_FILE_PATH" ?f0] fs_errors(2) [of ?tmp ?t ?now ?f1]
      fs_errors(3) [of ?tmp STATUS_FILE_PATH ?f2]
    by (auto simp: write_status_snapshot_def draw_time_def Let_def and_then_def fs_call_eq split: sum.splits)
qed

definition status_says :: "'c cli_env \<Rightarrow> string \<Rightarrow> string \<Rightarrow> bool \<Rightarrow> world \<Rightarrow> bool" where
  "status_says X state command success w \<longleftrightarrow>
     (\<exists>now ds t. status_node w = Some (Reg (snapshot_text X now state command success ds) t))"

lemma emit_outcome:
  "\<exists>w'. emit_status_snapshot X state command success ds w = (Inr (), w') \<and> db w' = db w \<and>
     (status_node w' = status_node w \<or> status_says X state command success w')"
proof -
  obtain r w' where w: "write_status_snapshot X STATUS_FILE_PATH state command success ds w = (r, w')" by fastforce
  from write_status_outcome [OF w] show ?thesis
    unfolding status_says_def by (cases r) (auto simp: emit_status_snapshot_def w)
qed

text \<open>
  The status file is replaced as a whole: when the report can not be written to the end the old
  one is still there, and when it can the file holds exactly the new one.
\<close>

theorem status_file_is_never_torn:
  assumes "write_status_snapshot X STATUS_FILE_PATH state command success ds w = (r, w')"
  shows "case r of
      Inl e \<Rightarrow> status_node w' = status_node w
    | Inr file \<Rightarrow> \<exists>now t. status_node w' = Some (Reg (snapshot_text X now state command success ds) t)"
  using write_status_outcome [OF assms] by (cases r) auto

text \<open>
  The exit code of an operator command tells how it ended: zero exactly when its work was
  done, two when it failed with an error it knows; and the status file holds this outcome, unless it
  could not be written.  Any other error leaves the status file as it was.
\<close>

theorem exit_code_matches_status:
  assumes "run_command X command failed caught details details_error (r, w) = (c, w')"
  shows "case c of
      Inl e \<Rightarrow> r = Inl e \<and> \<not> caught e \<and> w' = w
    | Inr code \<Rightarrow> code \<in> {0, 2} \<and> (code = 0 \<longleftrightarrow> (\<exists>x. r = Inr x)) \<and>
        (status_node w' = status_node w \<or>
         status_says X (if code = 0 then ''healthy'' else failed) command (code = 0) w')"
proof (cases r)
  case (Inl e)
  with assms emit_outcome [of X failed command False "details_error e" w] show ?thesis
    by (cases "caught e") (auto simp: run_command_def and_then_def)
next
  case (Inr x)
  with assms emit_outcome [of X "''healthy''" command True "details x" w] show ?thesis
    by (auto simp: run_command_def and_then_def)
qed


subsection \<open>The poll command\<close>

lemma end_poll_outcome:
  "\<exists>s'. end_poll X state success ds code s = (Inr code, s') \<and> db (fleet_world s') = db (fleet_world s) \<and>
     (status_node (fleet_world s') = status_node (fleet_world s) \<or> status_says X state ''poll'' success (fleet_world s'))"
  using emit_outcome [of X state "''poll''" success ds "fleet_world s"]
  by (auto simp: end_poll_def on_world_def and_then_def)

lemma end_poll_code: "fst (end_poll X state success ds code s) = Inr code"
  using end_poll_outcome [of X state success ds code s] by auto


interpretation pa: handoff_frame "waccepts_within A" "accepts_within A" "process_page_handoff E c" for A E c
proof unfold_locales
  fix w account rows
  have "waccepts_within A w (snd (process_batch E None P cs v 1 True None w))" for P cs v
    using gi.frame_process_batch [of w E None P cs v 1 True None] by (simp add: waccepts_within_def wingest_frame_def accepts_within_ingest)
  then show "waccepts_within A w (snd (process_page_handoff E c account rows w))"
    by (auto simp: process_page_handoff_def waw.frame_refl intro!: waw.frame_and_then)
qed

interpretation pk: handoff_frame wf_kept "\<lambda>d d'. wf_db d \<longrightarrow> wf_db d'" "process_page_handoff E c" for E c
proof unfold_locales
  fix w account rows
  show "wf_kept w (snd (process_page_handoff E c account rows w))"
    by (auto simp: process_page_handoff_def wfk.frame_refl intro!: wfk.frame_and_then gk.frame_process_batch)
qed

lemma poll_steps_frame:
  assumes "\<And>w w'. db w' = db w \<Longrightarrow> R w w'" and "\<And>u v w. R u v \<Longrightarrow> R v w \<Longrightarrow> R u w"
    and "\<And>w. R w (snd (db_call initialize w))"
    and "\<And>c s cfg clk. R (fleet_world s) (fleet_world (snd (poll_accounts (ce_net X) (ce_msal X) scopes (ce_busy X) DEFAULT_POLICY
        clk cfg account (Some (process_page_handoff (ce_env X) c)) s)))"
  shows "R (fleet_world s) (fleet_world (snd (cmd_poll X scopes file account s)))"
proof -
  have t: "R (fleet_world s0) (fleet_world (snd (and_then r k)))"
    if "R (fleet_world s0) (fleet_world (snd r))" "\<And>x s. R (fleet_world s) (fleet_world (snd (k x s)))"
    for s0 and r :: "'x res \<times> fleet" and k :: "'x \<Rightarrow> fleet \<Rightarrow> 'y res \<times> fleet"
    using that assms(2) by (cases r; cases "fst r") (auto simp: and_then_def)
  have w: "R (fleet_world s) (fleet_world (snd (on_world m s)))" if "\<And>w. R w (snd (m w))" for s and m :: "world \<Rightarrow> 'x \<times> world"
    using that [of "fleet_world s"] by (auto simp: on_world_def split: prod.split)
  have "R (fleet_world s) (fleet_world (snd (poll_work X scopes file account s)))"
    unfolding poll_work_def by (intro t w assms(3,4)) (simp add: cli_config_def assms(1) fs_call_eq)
  moreover obtain r s1 where p: "poll_work X scopes file account s = (r, s1)" by fastforce
  moreover have "R (fleet_world s1) (fleet_world (snd (end_poll X state success ds code s1)))" for state success ds code
    using end_poll_outcome [of X state success ds code s1] by (auto intro: assms(1))
  moreover have "R (fleet_world s1) (fleet_world s1)" by (rule assms(1)) simp
  ultimately show ?thesis
    by (cases r) (auto simp: cmd_poll_def intro: assms(2) split: option.split)
qed



subsection \<open>Pruning\<close>

lemma fs_write_node:
  assumes "fs_write p c t f = (Inr u, f')" shows "fs_node f' p = Some (Reg c t)"
proof -
  from assms have "fs_node f p \<noteq> Some Dir" and f: "f' = key_put (fs_key f p) (Reg c t) f"
    by (auto simp: fs_write_def split: if_splits)
  then have "fs_key f p \<noteq> []" by (auto simp: fs_node_def)
  with f show ?thesis by (simp add: fs_node_def fs_key_def)
qed

lemma fs_write_done: "fst (fs_write p c t f) = Inr u \<Longrightarrow> fs_node (snd (fs_write p c t f)) p = Some (Reg c t)"
  by (rule fs_write_node [of p c t f u]) (simp add: prod_eq_iff)

text \<open>
  When the old sign-in failures are pruned, the registry has been saved before: the backup
  file holds the registry as it was opened, and what is pruned is taken from just that state.
\<close>

theorem backup_precedes_pruning:
  assumes "prune_work X file backup_arg keep_latest w = (Inr (registry, backup, n), w')"
  shows "\<exists>d t. initialize (db w) = (Inr (), d) \<and>
    fs_node (fsys w') backup = Some (Reg (ce_image X d) t) \<and>
    prune_auth_failure_audit_backlog keep_latest d = (Inr n, db w')"
proof -
  from assms obtain cfg w1 w2 b w3 w4 where c: "cli_config X file w = (Inr cfg, w1)"
    and i: "db_call initialize w1 = (Inr (), w2)" and p: "backup_path X (registry_path (app_core cfg)) backup_arg w2 = (backup, w3)"
    and s: "backup_to X backup w3 = (Inr b, w4)" and pr: "db_call (prune_auth_failure_audit_backlog keep_latest) w4 = (Inr n, w')"
    by (auto simp: prune_work_def and_then_eq_Inr guard_def split: if_splits prod.splits)
  have "db w1 = db w" using c by (auto simp: cli_config_def fs_call_eq)
  moreover have d2: "initialize (db w1) = (Inr (), db w2)" using i by (auto simp: db_call_def split: prod.splits)
  moreover have "db w3 = db w2" using p by (auto simp: backup_path_def draw_time_def split: option.splits list.splits)
  moreover have "db w4 = db w3" and "\<exists>t. fs_node (fsys w4) backup = Some (Reg (ce_image X (db w3)) t)"
    using s by (auto simp: backup_to_def and_then_eq_Inr draw_time_def fs_call_eq dest!: fs_write_done)
  moreover have "fsys w' = fsys w4" "prune_auth_failure_audit_backlog keep_latest (db w4) = (Inr n, db w')"
    using pr by (auto simp: db_call_def split: prod.splits)
  ultimately show ?thesis by auto
qed

subsection \<open>The discovered folder in the configuration\<close>

text \<open>
  C28: Writing the discovered folder into the configuration changes just that option of just that
  account: read again, every other option of every section has its value (for a file whose values are
  single lines).
\<close>

theorem writeback_changes_one_option:
  assumes "write_account_onedrive_root file name discovered now f = (Inr True, f')"
    and "read_config_file file f = Inr I" and "plain_ini I" and "plain_value discovered"
  shows "\<exists>J. read_config_file file f' = Inr J \<and> section_names J = section_names I \<and>
    (\<forall>s k. option_value J s k =
       (if s = ''account.'' @ name \<and> k = ''onedrive_root'' then Some discovered else option_value I s k))"
proof -
  let ?J = "set_option (''account.'' @ name) ''onedrive_root'' discovered I"
  from assms(2) obtain body where b: "fst (fs_read file f) = Inr body" and I: "read_ini body = Inr I"
    by (auto simp: read_config_file_def split: sum.splits exn.splits if_splits)
  from assms(1) b I have s: "''account.'' @ name \<in> set (section_names I)" and
    w: "fs_write file (write_ini ?J) now f = (Inr (), f')"
    by (auto simp: write_account_onedrive_root_def split: if_splits prod.splits sum.splits exn.splits)
  have "plain_key ''onedrive_root''" by code_simp
  then have "plain_ini ?J" using assms(3,4) by (intro plain_set_option)
  then have "read_ini (write_ini ?J) = Inr ?J" by (rule read_ini_write)
  moreover have "fst (fs_read file f') = Inr (write_ini ?J)" using fs_write_node [OF w] by (simp add: fs_read_def)
  ultimately have "read_config_file file f' = Inr ?J" by (simp add: read_config_file_def)
  moreover have "section_names ?J = section_names I"
    using s by (auto simp: set_option_def section_names_def tbl_update_def update_keys dom_map_of_conv_image_fst [symmetric] split: option.split)
  ultimately show ?thesis using option_value_set_option [OF s] by auto
qed


subsection \<open>Examples\<close>

definition desk :: "string cli_env" where
  "desk = \<lparr>ce_net = flaky_net, ce_msal = one_account, ce_lib = demo_lib, ce_busy = (\<lambda>_ _. False), ce_clk = (\<lambda>_. 0),
     ce_host = ''h'', ce_version = ''1'', ce_image = (\<lambda>_. ''image''), ce_stamp = int_str, ce_duration = ''0.0''\<rparr>"

definition desk_world :: "fs \<Rightarrow> world" where
  "desk_world f = \<lparr>db = empty_db, fsys = f, jfiles = \<lparr>j_active = None, j_rotated = None\<rparr>, ticks = 0\<rparr>"

definition conf_path :: path where
  "conf_path = path_of ''/etc/photo.conf''"

theorem status_file_is_never_torn_witness:
  "\<exists>file w' now t. write_status_snapshot desk STATUS_FILE_PATH ''healthy'' ''poll'' True [] (desk_world empty_fs) = (Inr file, w') \<and>
     status_node w' = Some (Reg (snapshot_text desk now ''healthy'' ''poll'' True []) t)"
proof -
  let ?r = "write_status_snapshot desk STATUS_FILE_PATH ''healthy'' ''poll'' True [] (desk_world empty_fs)"
  have "isl (fst ?r) = False" by code_simp
  then obtain p w' where r: "?r = (Inr p, w')" by (cases ?r; cases "fst ?r") auto
  from status_file_is_never_torn [OF r] r show ?thesis by auto
qed

theorem exit_code_matches_status_witness:
  "\<exists>w'. run_command desk ''reject'' ''ingest_error'' flow_caught (\<lambda>_. []) error_detail
      (Inl (RejectFlowError ''x'') :: unit res, desk_world empty_fs) = (Inr 2, w') \<and>
    (status_node w' = status_node (desk_world empty_fs) \<or> status_says desk ''ingest_error'' ''reject'' False w')"
proof -
  let ?r = "run_command desk ''reject'' ''ingest_error'' flow_caught (\<lambda>_. []) error_detail
      (Inl (RejectFlowError ''x'') :: unit res, desk_world empty_fs)"
  have "fst ?r = Inr 2" by code_simp
  then obtain w' where r: "?r = (Inr 2, w')" by (cases ?r) auto
  from exit_code_matches_status [OF r] r show ?thesis by auto
qed

definition desk_fleet :: "fs \<Rightarrow> fleet" where
  "desk_fleet f = \<lparr>fl_net = fresh_poller f, fl_mode = (\<lambda>_. 0),
     fl_files = (\<lambda>_. \<lparr>af_cursor = None, af_cooldown_until = None, af_loop_incidents = 0, af_marker = None\<rparr>)\<rparr>"



theorem backup_precedes_pruning_witness:
  "\<exists>registry n w' t. prune_work desk conf_path (Some ''/etc/backup'') 0 (desk_world sample_store) =
      (Inr (registry, path_of ''/etc/backup'', n), w') \<and>
    fs_node (fsys w') (path_of ''/etc/backup'') = Some (Reg ''image'' t)"
proof -
  let ?r = "prune_work desk conf_path (Some ''/etc/backup'') 0 (desk_world sample_store)"
  have "map_sum id (\<lambda>(registry, backup, n). backup) (fst ?r) = Inr (path_of ''/etc/backup'')" by code_simp
  then obtain registry n w' where r: "?r = (Inr (registry, path_of ''/etc/backup'', n), w')"
    by (cases ?r; cases "fst ?r") auto
  from backup_precedes_pruning [OF r] r show ?thesis by (auto simp: desk_def)
qed

definition sample_ini_store :: fs where
  "sample_ini_store = \<lparr>nodes = [([''etc''], Dir), ([''etc'', ''photo.conf''], Reg (write_ini sample_ini) 0)],
     fs_cwd = [], fs_dev = (\<lambda>_. 0)\<rparr>"

theorem writeback_changes_one_option_witness:
  "\<exists>f' J. write_account_onedrive_root conf_path ''anna'' ''/Photos'' 0 sample_ini_store = (Inr True, f') \<and>
     read_config_file conf_path f' = Inr J \<and> option_value J ''account.anna'' ''onedrive_root'' = Some ''/Photos''"
proof -
  let ?r = "write_account_onedrive_root conf_path ''anna'' ''/Photos'' 0 sample_ini_store"
  have "fst ?r = Inr True" by code_simp
  then obtain f' where r: "?r = (Inr True, f')" by (cases ?r) auto
  have "fst (fs_read conf_path sample_ini_store) = Inr (write_ini sample_ini)" by code_simp
  then have i: "read_config_file conf_path sample_ini_store = Inr sample_ini"
    using read_ini_write [of sample_ini] sample_plain by (simp add: read_config_file_def)
  have "plain_value ''/Photos''" by code_simp
  from writeback_changes_one_option [OF r i sample_plain this] r show ?thesis by auto
qed

end
