(* ===== verification/Pages.thy ===== *)
theory Pages
  imports Registry_Inv Delta Paths Py_Text
begin

section \<open>Paged listings (\<open>api/services/audit_service.py\<close>, \<open>api/services/staging_service.py\<close>)\<close>

text \<open>
  The two listings of the web API that are read page by page with a cursor: the audit log, newest
  first, and the pending queue by hash.  Both fetch one row more than the page holds to see whether
  there are more.  The locale \<open>paged_rows\<close> proves once what following the cursors gives; the
  routers bound the limit to at least 1.  The rows a query returns are those of the registry model;
  \<open>json.loads\<close> of the stored details and SQLite's \<open>DATE\<close> are arguments.
\<close>

subsection \<open>One page and the walk over all pages\<close>

definition fetch_page :: "('r \<Rightarrow> bool) \<Rightarrow> nat \<Rightarrow> 'r list \<Rightarrow> 'r list \<times> bool" where
  "fetch_page after limit rows =
     (let got = take (Suc limit) (filter after rows) in
      if length got > limit then (take limit got, True) else (got, False))"

text \<open>A client that follows the cursors, for at most so many pages.\<close>

fun follow_pages ::
  "('k option \<Rightarrow> 'r \<Rightarrow> bool) \<Rightarrow> ('r \<Rightarrow> 'k) \<Rightarrow> nat \<Rightarrow> 'r list \<Rightarrow> nat \<Rightarrow> 'k option \<Rightarrow> 'r list" where
  "follow_pages after key limit rows 0 c = []"
| "follow_pages after key limit rows (Suc n) c =
     (case fetch_page (after c) limit rows of
        (page, False) \<Rightarrow> page
      | (page, True) \<Rightarrow>
          if page = [] then [] else page @ follow_pages after key limit rows n (Some (key (last page))))"

definition after_key :: "('k \<Rightarrow> 'k \<Rightarrow> bool) \<Rightarrow> ('r \<Rightarrow> 'k) \<Rightarrow> 'k option \<Rightarrow> 'r \<Rightarrow> bool" where
  "after_key later key c r = (case c of None \<Rightarrow> True | Some k \<Rightarrow> later k (key r))"

locale paged_rows =
  fixes rows :: "'r list" and key :: "'r \<Rightarrow> 'k" and later :: "'k \<Rightarrow> 'k \<Rightarrow> bool"
  assumes later_trans: "later a b \<Longrightarrow> later b c \<Longrightarrow> later a c"
    and later_asym: "later a b \<Longrightarrow> \<not> later b a"
    and rows_ordered: "sorted_wrt (\<lambda>a b. key a = key b \<or> later (key a) (key b)) rows"
begin

abbreviation rest :: "'k option \<Rightarrow> 'r list" where
  "rest c \<equiv> filter (after_key later key c) rows"

lemma later_irrefl: "\<not> later a a"
  using later_asym by blast

text \<open>What is left after a page that was cut off: the rows behind it with another key.\<close>

lemma rest_next:
  assumes "rest c = xs @ [r] @ ys"
  shows "rest (Some (key r)) = filter (\<lambda>x. key x \<noteq> key r) ys"
proof -
  have "sorted_wrt (\<lambda>a b. key a = key b \<or> later (key a) (key b)) (xs @ [r] @ ys)"
    unfolding assms [symmetric] by (rule sorted_wrt_filter [OF rows_ordered])
  then have "\<forall>x \<in> set xs. key x = key r \<or> later (key x) (key r)" "\<forall>y \<in> set ys. key r = key y \<or> later (key r) (key y)"
    by (simp_all add: sorted_wrt_append)
  then have xs: "x \<in> set xs \<Longrightarrow> \<not> later (key r) (key x)" and ys: "y \<in> set ys \<Longrightarrow> later (key r) (key y) \<longleftrightarrow> key y \<noteq> key r" for x y
    using later_asym later_irrefl by metis+
  have "r \<in> set (rest c)" using assms by simp
  then have "rest (Some (key r)) = filter (after_key later key (Some (key r))) (rest c)"
    using later_trans by (auto simp: after_key_def filter_filter intro!: filter_cong split: option.splits)
  also have "\<dots> = filter (\<lambda>x. key x \<noteq> key r) ys"
    unfolding assms using xs ys later_irrefl by (auto simp: after_key_def filter_empty_conv intro!: filter_cong)
  finally show ?thesis .
qed

lemma follow_pages_rest:
  assumes "0 < limit" and "length (rest c) < n"
  shows "subseq (follow_pages (after_key later key) key limit rows n c) (rest c) \<and>
    key ` set (follow_pages (after_key later key) key limit rows n c) = key ` set (rest c) \<and>
    (distinct (map key rows) \<longrightarrow> follow_pages (after_key later key) key limit rows n c = rest c)"
  using assms(2)
proof (induction n arbitrary: c)
  case (Suc n)
  show ?case
  proof (cases "length (rest c) \<le> limit")
    case True
    then show ?thesis by (simp add: fetch_page_def Let_def)
  next
    case False
    define xs r ys where d: "xs = take (limit - 1) (rest c)" "r = rest c ! (limit - 1)" "ys = drop limit (rest c)"
    have page: "take limit (rest c) = xs @ [r]"
      using assms(1) False by (cases limit) (simp_all add: d take_Suc_conv_app_nth)
    have split: "rest c = xs @ [r] @ ys" using append_take_drop_id [of limit "rest c"] page d(3) by simp
    note nxt = rest_next [OF split]
    have run: "follow_pages (after_key later key) key limit rows (Suc n) c =
        (xs @ [r]) @ follow_pages (after_key later key) key limit rows n (Some (key r))"
      using False page by (simp add: fetch_page_def Let_def min_absorb1 split: if_splits)
    have "length (rest (Some (key r))) < n"
      using Suc.prems length_filter_le [of "\<lambda>x. key x \<noteq> key r" ys] unfolding nxt split by (simp del: length_filter_le)
    note ih = Suc.IH [OF this, unfolded nxt]
    have keys: "key ` set (filter (\<lambda>x. key x \<noteq> key r) ys) \<union> {key r} = key ` set ys \<union> {key r}" by auto
    have sub: "subseq (filter (\<lambda>x. key x \<noteq> key r) ys) ys" by (rule subseq_filter_left)
    have dist: "distinct (map key rows) \<Longrightarrow> filter (\<lambda>x. key x \<noteq> key r) ys = ys"
    proof -
      assume "distinct (map key rows)"
      then have "distinct (map key (rest c))" by (rule distinct_map_filter)
      then show ?thesis unfolding split by (intro filter_True) (force simp: image_iff)
    qed
    show ?thesis
    proof (intro conjI impI)
      show "subseq (follow_pages (after_key later key) key limit rows (Suc n) c) (rest c)"
        unfolding run split using subseq_order.trans [OF conjunct1 [OF ih] sub] by (simp add: list_emb_append_mono)
      show "key ` set (follow_pages (after_key later key) key limit rows (Suc n) c) = key ` set (rest c)"
        unfolding run using ih keys by (auto simp: split)
      assume "distinct (map key rows)"
      then show "follow_pages (after_key later key) key limit rows (Suc n) c = rest c"
        unfolding run using ih dist by (simp add: split)
    qed
  qed
qed simp

text \<open>From the first page on: in order, every key, and every row when the keys are distinct.\<close>

lemma follow_all:
  assumes "0 < limit" and "length rows < n"
  shows "subseq (follow_pages (after_key later key) key limit rows n None) rows"
    and "key ` set (follow_pages (after_key later key) key limit rows n None) = key ` set rows"
    and "distinct (map key rows) \<Longrightarrow> follow_pages (after_key later key) key limit rows n None = rows"
proof -
  have "rest None = rows" by (simp add: after_key_def)
  with follow_pages_rest [OF assms(1), of None n] assms(2)
  show "subseq (follow_pages (after_key later key) key limit rows n None) rows"
    and "key ` set (follow_pages (after_key later key) key limit rows n None) = key ` set rows"
    and "distinct (map key rows) \<Longrightarrow> follow_pages (after_key later key) key limit rows n None = rows"
    by simp_all
qed

end

subsection \<open>The audit log\<close>

definition ACTION_DESCRIPTIONS :: "(string \<times> string) list" where
  "ACTION_DESCRIPTIONS =
     [(''pending'', ''File queued for triage''), (''accepted'', ''File accepted''), (''rejected'', ''File rejected''),
      (''discard_rejected'', ''Rejected file discarded''), (''triage_accept_requested'', ''Accept requested''),
      (''triage_accept_applied'', ''Accept applied''), (''triage_reject_requested'', ''Reject requested''),
      (''triage_reject_applied'', ''Reject applied''), (''triage_defer_requested'', ''Defer requested''),
      (''triage_defer_applied'', ''Defer applied''), (''auth_failure'', ''Authentication failed'')]"

definition upper_char :: "char \<Rightarrow> char" where
  "upper_char c = (if ascii_lower c then char_of ((of_char c :: nat) - 32) else c)"

definition py_capitalize :: "string \<Rightarrow> string" where
  "py_capitalize s = (case s of [] \<Rightarrow> [] | c # cs \<Rightarrow> upper_char c # py_lower cs)"

definition describe_action :: "string \<Rightarrow> string" where
  "describe_action action =
     (case map_of ACTION_DESCRIPTIONS action of
        Some t \<Rightarrow> t
      | None \<Rightarrow> py_capitalize (py_strip (replace_str ''_'' '' '' action)))"

record audit_event =
  ae_id :: nat
  ae_sha256 :: "string option"
  ae_account_name :: "string option"
  ae_client_ip :: "string option"
  ae_action :: string
  ae_description :: string
  ae_reason :: "string option"
  ae_filename :: "string option"
  ae_details :: gobject
  ae_actor :: string
  ae_ts :: string

record audit_page =
  ap_events :: "audit_event list"
  ap_cursor :: "string option"
  ap_has_more :: bool

text \<open>Python's truth value of a JSON value, and its \<open>or\<close>; a float is zero when its text is a zero.\<close>

fun truthy :: "gval \<Rightarrow> bool" where
  "truthy GNull = False"
| "truthy (GBool b) = b"
| "truthy (GInt i) = (i \<noteq> 0)"
| "truthy (GFloat i s) = (i \<noteq> 0 \<or> list_ex (\<lambda>c. ascii_digit c \<and> c \<noteq> CHR ''0'') (takeWhile (\<lambda>c. c \<noteq> CHR ''e'') s))"
| "truthy (GStr s) = (s \<noteq> [])"
| "truthy (GList vs) = (vs \<noteq> [])"
| "truthy (GObj kvs) = (kvs \<noteq> [])"

definition gor :: "gval \<Rightarrow> gval \<Rightarrow> gval" where
  "gor a b = (if truthy a then a else b)"

text \<open>A text that is not blank, stripped.\<close>

definition stripped_text :: "gval \<Rightarrow> string option" where
  "stripped_text v = (case v of GStr s \<Rightarrow> (let t = py_strip s in if t = [] then None else Some t) | _ \<Rightarrow> None)"

definition derive_filename :: "gobject \<Rightarrow> string option \<Rightarrow> (string \<times> string) list \<Rightarrow> string option" where
  "derive_filename details sha names =
     (case stripped_text (gor (gget details ''filename'') (gget details ''original_filename'')) of
        Some n \<Rightarrow> Some n
      | None \<Rightarrow>
          (let by_sha = (case sha of None \<Rightarrow> None | Some s \<Rightarrow> if s = [] then None else map_of names s)
           in case gor (gget details ''path'') (gget details ''path_hint'') of
                GStr p \<Rightarrow>
                  (let name = py_strip (path_name (path_of p)) in
                   if py_strip p \<noteq> [] \<and> name \<noteq> [] then Some name else by_sha)
              | _ \<Rightarrow> by_sha))"

definition filename_map_for_sha :: "string list \<Rightarrow> registry_db \<Rightarrow> (string \<times> string) list" where
  "filename_map_for_sha shas d =
     List.map_filter (\<lambda>(k, r). case f_original_filename r of
         None \<Rightarrow> None
       | Some n \<Rightarrow> if k \<noteq> [] \<and> k \<in> set shas \<and> py_strip n \<noteq> [] then Some (k, n) else None) (files d)"

text \<open>\<open>details.get\<close> raises when the stored text is JSON and no object.\<close>

definition event_details :: "(string \<Rightarrow> gval option) \<Rightarrow> string option \<Rightarrow> gobject res" where
  "event_details loads t =
     (case t of
        None \<Rightarrow> Inr []
      | Some s \<Rightarrow>
          if s = [] then Inr []
          else (case loads s of
                  None \<Rightarrow> Inr []
                | Some (GObj kvs) \<Rightarrow> Inr kvs
                | Some _ \<Rightarrow> Inl (AttributeError ''get'')))"

definition audit_event_of :: "(string \<times> string) list \<Rightarrow> gobject \<Rightarrow> audit_record \<Rightarrow> audit_event" where
  "audit_event_of names details r =
     \<lparr>ae_id = au_id r, ae_sha256 = au_sha256 r, ae_account_name = au_account_name r,
      ae_client_ip = (case gget details ''client_ip'' of GStr s \<Rightarrow> Some s | _ \<Rightarrow> None),
      ae_action = au_action r, ae_description = describe_action (au_action r), ae_reason = au_reason r,
      ae_filename = derive_filename details (au_sha256 r) names, ae_details = details,
      ae_actor = au_actor r, ae_ts = au_ts r\<rparr>"

definition audit_rows :: "string option \<Rightarrow> registry_db \<Rightarrow> audit_record list" where
  "audit_rows action d =
     rev (sort_key au_id (filter (\<lambda>r. case action of None \<Rightarrow> True | Some a \<Rightarrow> a = [] \<or> au_action r = a) (audit_log d)))"

definition cursor_id :: "string option \<Rightarrow> int" where
  "cursor_id after = (case after of None \<Rightarrow> 0 | Some s \<Rightarrow> if s = [] then 0 else (case read_int s of None \<Rightarrow> 0 | Some n \<Rightarrow> n))"

definition get_audit_log ::
  "(string \<Rightarrow> gval option) \<Rightarrow> nat \<Rightarrow> string option \<Rightarrow> string option \<Rightarrow> registry_db \<Rightarrow> audit_page res" where
  "get_audit_log loads limit after action d =
     (case fetch_page (\<lambda>r. cursor_id after = 0 \<or> int (au_id r) < cursor_id after) limit (audit_rows action d) of
        (rows, has_more) \<Rightarrow>
          (let names = filename_map_for_sha (List.map_filter au_sha256 rows) d in
           case map_res (\<lambda>r. case event_details loads (au_details_json r) of
                    Inl e \<Rightarrow> Inl e | Inr details \<Rightarrow> Inr (audit_event_of names details r)) rows of
             Inl e \<Rightarrow> Inl e
           | Inr events \<Rightarrow>
               Inr \<lparr>ap_events = events,
                    ap_cursor = (if has_more \<and> events \<noteq> [] then Some (int_str (int (ae_id (last events)))) else None),
                    ap_has_more = has_more\<rparr>))"

text \<open>The counts of the current day; \<open>date\<close> is SQLite's \<open>DATE\<close>, \<open>today\<close> its value for the present.\<close>

definition get_daily_outcome_summary ::
  "(string \<Rightarrow> string option) \<Rightarrow> string \<Rightarrow> registry_db \<Rightarrow> nat \<times> nat" where
  "get_daily_outcome_summary date today d =
     (let rows = filter (\<lambda>r. date (au_ts r) = Some today) (audit_log d) in
      (length (filter (\<lambda>r. au_action r \<in> {''accepted'', ''triage_accept_applied''}) rows),
       length (filter (\<lambda>r. au_action r \<in> {''rejected'', ''triage_reject_applied''}) rows)))"

subsection \<open>The pending queue\<close>

record staging_item =
  si_sha256 :: string
  si_filename :: string
  si_size_bytes :: int
  si_first_seen_at :: string
  si_updated_at :: string
  si_account :: "string option"
  si_onedrive_id :: "string option"

record staging_page =
  sp_items :: "staging_item list"
  sp_cursor :: "string option"
  sp_has_more :: bool
  sp_total :: nat

definition staging_item_of :: "file_record \<Rightarrow> origin_row option \<Rightarrow> staging_item" where
  "staging_item_of f og =
     \<lparr>si_sha256 = f_sha256 f,
      si_filename = (case f_original_filename f of None \<Rightarrow> ''unknown'' | Some n \<Rightarrow> if n = [] then ''unknown'' else n),
      si_size_bytes = f_size_bytes f, si_first_seen_at = f_first_seen_at f, si_updated_at = f_updated_at f,
      si_account = map_option o_account og, si_onedrive_id = map_option o_onedrive_id og\<rparr>"

text \<open>The left join: a file with its origins, or alone.\<close>

definition origins_of :: "registry_db \<Rightarrow> string \<Rightarrow> origin_row list" where
  "origins_of d sha = filter (\<lambda>r. o_sha256 r = sha) (map snd (file_origins d))"

definition joined_items :: "registry_db \<Rightarrow> file_record \<Rightarrow> staging_item list" where
  "joined_items d f =
     (case origins_of d (f_sha256 f) of
        [] \<Rightarrow> [staging_item_of f None]
      | os \<Rightarrow> map (\<lambda>og. staging_item_of f (Some og)) os)"

definition pending_files :: "registry_db \<Rightarrow> file_record list" where
  "pending_files d = filter (\<lambda>r. f_status r = ''pending'') (map snd (files d))"

definition staging_rows :: "registry_db \<Rightarrow> staging_item list" where
  "staging_rows d = sort_key si_sha256 (concat (map (joined_items d) (pending_files d)))"

definition get_staging_items :: "nat \<Rightarrow> string option \<Rightarrow> registry_db \<Rightarrow> staging_page" where
  "get_staging_items limit after d =
     (case fetch_page (\<lambda>r. case after of None \<Rightarrow> True | Some c \<Rightarrow> c = [] \<or> c < si_sha256 r) limit (staging_rows d) of
        (items, has_more) \<Rightarrow>
          \<lparr>sp_items = items,
           sp_cursor = (if has_more \<and> items \<noteq> [] then Some (si_sha256 (last items)) else None),
           sp_has_more = has_more, sp_total = length (pending_files d)\<rparr>)"

definition get_item :: "string \<Rightarrow> registry_db \<Rightarrow> staging_item option" where
  "get_item item_id d =
     (case filter (\<lambda>r. f_sha256 r = item_id) (map snd (files d)) of
        [] \<Rightarrow> None
      | f # _ \<Rightarrow> Some (hd (joined_items d f)))"

subsection \<open>Reading the audit log to its end\<close>

fun follow_audit ::
  "(string \<Rightarrow> gval option) \<Rightarrow> nat \<Rightarrow> string option \<Rightarrow> registry_db \<Rightarrow> nat \<Rightarrow> string option \<Rightarrow> audit_event list res" where
  "follow_audit loads limit action d 0 c = Inr []"
| "follow_audit loads limit action d (Suc n) c =
     (case get_audit_log loads limit c action d of
        Inl e \<Rightarrow> Inl e
      | Inr page \<Rightarrow>
          (case ap_cursor page of
             None \<Rightarrow> Inr (ap_events page)
           | Some c' \<Rightarrow>
               (case follow_audit loads limit action d n (Some c') of
                  Inl e \<Rightarrow> Inl e | Inr es \<Rightarrow> Inr (ap_events page @ es))))"

lemma audit_rows_ordered:
  "sorted_wrt (\<lambda>a b. au_id a = au_id b \<or> au_id b < au_id a) (audit_rows action d)"
  unfolding audit_rows_def sorted_wrt_rev
  by (rule sorted_wrt_mono_rel [OF _ sorted_sort_key [unfolded sorted_wrt_map]]) auto

interpretation al: paged_rows "audit_rows action d" au_id "\<lambda>a b. b < a" for action d
  by unfold_locales (use audit_rows_ordered in auto)

definition wanted :: "string option \<Rightarrow> audit_record \<Rightarrow> bool" where
  "wanted action r = (case action of None \<Rightarrow> True | Some a \<Rightarrow> a = [] \<or> au_action r = a)"

lemma audit_rows_log:
  assumes "wf_audit d"
  shows "audit_rows action d = rev (filter (wanted action) (audit_log d))"
proof -
  have "sorted_wrt (\<lambda>a b. au_id a < au_id b) (filter (wanted action) (audit_log d))"
    using assms by (simp add: wf_audit_def increasing_ids_def sorted_wrt_map sorted_wrt_filter)
  then have "sorted (map au_id (filter (wanted action) (audit_log d)))"
    unfolding sorted_wrt_map by (rule sorted_wrt_mono_rel [rotated]) auto
  then show ?thesis unfolding audit_rows_def wanted_def by (simp add: sort_key_id_if_sorted)
qed

lemma audit_ids:
  assumes "wf_audit d"
  shows "distinct (map au_id (audit_rows action d))" and "r \<in> set (audit_rows action d) \<Longrightarrow> 0 < au_id r"
  using assms unfolding audit_rows_log [OF assms] wf_audit_def increasing_ids_def
  by (auto simp: rev_map [symmetric] distinct_map_filter strict_sorted_iff list_all_iff)

lemma cursor_id_simps [simp]: "cursor_id None = 0" "cursor_id (Some (int_str n)) = n"
  by (simp_all add: cursor_id_def) (simp add: int_str_def)

text \<open>What an event keeps of its row.\<close>

definition shows_row :: "audit_event \<Rightarrow> audit_record \<Rightarrow> bool" where
  "shows_row e r \<longleftrightarrow> ae_id e = au_id r \<and> ae_sha256 e = au_sha256 r \<and> ae_account_name e = au_account_name r \<and>
     ae_action e = au_action r \<and> ae_reason e = au_reason r \<and> ae_actor e = au_actor r \<and> ae_ts e = au_ts r"

definition readable :: "(string \<Rightarrow> gval option) \<Rightarrow> registry_db \<Rightarrow> bool" where
  "readable loads d \<longleftrightarrow> (\<forall>r \<in> set (audit_log d). \<exists>kvs. event_details loads (au_details_json r) = Inr kvs)"

lemma audit_page_shows:
  assumes "readable loads d" and "fetch_page (\<lambda>r. cursor_id c = 0 \<or> int (au_id r) < cursor_id c) limit (audit_rows action d) = (rows, hm)"
  shows "\<exists>page. get_audit_log loads limit c action d = Inr page \<and> list_all2 shows_row (ap_events page) rows \<and>
    ap_cursor page = (if hm \<and> rows \<noteq> [] then Some (int_str (int (au_id (last rows)))) else None)"
proof -
  have sub: "set rows \<subseteq> set (audit_log d)"
    using assms(2) by (auto simp: fetch_page_def Let_def audit_rows_def split: if_splits dest!: in_set_takeD)
  let ?names = "filename_map_for_sha (List.map_filter au_sha256 rows) d"
  let ?f = "\<lambda>r. case event_details loads (au_details_json r) of Inl e \<Rightarrow> Inl e | Inr details \<Rightarrow> Inr (audit_event_of ?names details r)"
  let ?g = "\<lambda>r. audit_event_of ?names (projr (event_details loads (au_details_json r))) r"
  have "map_res ?f rows = Inr (map ?g rows)"
    using assms(1) sub by (intro map_res_all) (fastforce simp: readable_def)
  then show ?thesis
    using assms(2) by (auto simp: get_audit_log_def Let_def list_all2_map1 list_all2_same shows_row_def audit_event_of_def last_map)
qed

lemma follow_audit_shows:
  assumes "readable loads d" and "wf_audit d"
    and "c = None \<and> k = None \<or> (\<exists>i > 0. k = Some i \<and> c = Some (int_str (int i)))"
  shows "\<exists>es. follow_audit loads limit action d n c = Inr es \<and>
    list_all2 shows_row es (follow_pages (after_key (\<lambda>a b. b < a) au_id) au_id limit (audit_rows action d) n k)"
  using assms(3)
proof (induction n arbitrary: c k)
  case (Suc n)
  have p: "(\<lambda>r. cursor_id c = 0 \<or> int (au_id r) < cursor_id c) = after_key (\<lambda>a b. b < a) au_id k"
    using Suc.prems by (auto simp: after_key_def fun_eq_iff)
  obtain rows hm where f: "fetch_page (after_key (\<lambda>a b. b < a) au_id k) limit (audit_rows action d) = (rows, hm)" by fastforce
  obtain page where page: "get_audit_log loads limit c action d = Inr page" "list_all2 shows_row (ap_events page) rows"
    "ap_cursor page = (if hm \<and> rows \<noteq> [] then Some (int_str (int (au_id (last rows)))) else None)"
    using audit_page_shows [OF assms(1), of c limit action rows hm, unfolded p, OF f] by blast
  show ?case
  proof (cases "hm \<and> rows \<noteq> []")
    case True
    then have "last rows \<in> set (audit_rows action d)"
      using f by (auto simp: fetch_page_def Let_def split: if_splits dest!: last_in_set in_set_takeD)
    then have "0 < au_id (last rows)" using audit_ids(2) [OF assms(2)] by blast
    then obtain es where "follow_audit loads limit action d n (Some (int_str (int (au_id (last rows))))) = Inr es"
      "list_all2 shows_row es (follow_pages (after_key (\<lambda>a b. b < a) au_id) au_id limit (audit_rows action d) n (Some (au_id (last rows))))"
      using Suc.IH by blast
    then show ?thesis using True f page by (auto intro: list_all2_appendI)
  next
    case False
    then show ?thesis using f page by (auto split: bool.splits)
  qed
qed simp

text \<open>
  C37: following the cursors of the audit log from the first page gives every event that passes the
  filter exactly once, newest first, whatever the page size; the listing ends.
\<close>

theorem audit_pages_list_every_event_once:
  assumes "wf_db d" and "readable loads d" and "0 < limit" and "length (audit_log d) < n"
  shows "\<exists>es. follow_audit loads limit action d n None = Inr es \<and>
    list_all2 shows_row es (rev (filter (\<lambda>r. case action of None \<Rightarrow> True | Some a \<Rightarrow> a = [] \<or> au_action r = a) (audit_log d)))"
proof -
  have wf: "wf_audit d" using assms(1) by (simp add: wf_db_def)
  have "length (audit_rows action d) < n"
    using assms(4) by (simp add: audit_rows_def le_less_trans [OF length_filter_le])
  from al.follow_all(3) [OF assms(3) this audit_ids(1) [OF wf]] follow_audit_shows [OF assms(2) wf, of None None limit action n]
  show ?thesis by (simp add: audit_rows_log [OF wf] wanted_def [abs_def])
qed

definition demo_log :: registry_db where
  "demo_log = add_audit None None ''pending'' None (Some ''x'') ''a'' ''t2''
     (add_audit None None ''accepted'' None None ''a'' ''t1'' (add_audit None None ''pending'' None None ''a'' ''t0'' empty_db))"

theorem audit_pages_list_every_event_once_witness:
  "\<exists>es. follow_audit (\<lambda>_. None) 1 (Some ''pending'') demo_log 4 None = Inr es \<and> map ae_id es = [3, 1]"
proof -
  have "wf_db demo_log" "readable (\<lambda>_. None) demo_log" "length (audit_log demo_log) = 3"
    by (simp_all add: demo_log_def wf_db_def wf_defs increasing_ids_def add_audit_def empty_db_def readable_def event_details_def)
  from audit_pages_list_every_event_once [OF this(1,2), of 1 4 "Some ''pending''"] this(3) obtain es where
    es: "follow_audit (\<lambda>_. None) 1 (Some ''pending'') demo_log 4 None = Inr es"
    "list_all2 shows_row es (rev (filter (\<lambda>r. au_action r = ''pending'') (audit_log demo_log)))" by auto
  from es(2) have "map ae_id es = map au_id (rev (filter (\<lambda>r. au_action r = ''pending'') (audit_log demo_log)))"
    by (induction rule: list_all2_induct) (simp_all add: shows_row_def)
  with es(1) show ?thesis by (simp add: demo_log_def add_audit_def empty_db_def)
qed

subsection \<open>Reading the pending queue to its end\<close>

fun follow_staging :: "nat \<Rightarrow> registry_db \<Rightarrow> nat \<Rightarrow> string option \<Rightarrow> staging_item list" where
  "follow_staging limit d 0 c = []"
| "follow_staging limit d (Suc n) c =
     (let page = get_staging_items limit c d in
      case sp_cursor page of None \<Rightarrow> sp_items page | Some c' \<Rightarrow> sp_items page @ follow_staging limit d n (Some c'))"

interpretation sl: paged_rows "staging_rows d" si_sha256 "(<)" for d
proof unfold_locales
  show "sorted_wrt (\<lambda>a b. si_sha256 a = si_sha256 b \<or> si_sha256 a < si_sha256 b) (staging_rows d)"
    unfolding staging_rows_def
    by (rule sorted_wrt_mono_rel [OF _ sorted_sort_key [unfolded sorted_wrt_map]]) (auto simp: order.order_iff_strict)
qed auto

lemma joined_sha: "si_sha256 ` set (joined_items d f) = {f_sha256 f}"
  by (auto simp: joined_items_def staging_item_of_def split: list.splits)

lemma staging_hashes: "si_sha256 ` set (staging_rows d) = f_sha256 ` set (pending_files d)"
  by (simp add: staging_rows_def image_UN joined_sha) blast

lemma pending_hashes:
  assumes "wf_files d"
  shows "f_sha256 ` set (pending_files d) = {sha. \<exists>r. get_file d sha = Some r \<and> f_status r = ''pending''}"
  using assms unfolding wf_files_def list_all_iff get_file_def
  by (force simp: pending_files_def map_of_eq_Some_iff)

lemma staging_distinct:
  assumes "distinct (map o_sha256 (map snd (file_origins d)))" and "distinct (map f_sha256 (pending_files d))"
  shows "distinct (map si_sha256 (staging_rows d))"
proof -
  have one: "map si_sha256 (joined_items d f) = [f_sha256 f]" for f
  proof -
    have "distinct (map o_sha256 (origins_of d (f_sha256 f)))"
      unfolding origins_of_def by (rule distinct_map_filter [OF assms(1)])
    moreover have "\<forall>r \<in> set (origins_of d (f_sha256 f)). o_sha256 r = f_sha256 f" by (simp add: origins_of_def)
    ultimately show ?thesis
      by (cases "origins_of d (f_sha256 f)"; cases "tl (origins_of d (f_sha256 f))")
        (auto simp: joined_items_def staging_item_of_def)
  qed
  have "map si_sha256 (concat (map (joined_items d) fs)) = map f_sha256 fs" for fs
    by (induction fs) (simp_all add: one)
  then have "mset (map si_sha256 (staging_rows d)) = mset (map f_sha256 (pending_files d))"
    unfolding staging_rows_def by (metis mset_map mset_sort)
  with assms(2) show ?thesis using mset_eq_imp_distinct_iff by metis
qed

lemma follow_staging_pages:
  assumes "\<forall>r \<in> set (staging_rows d). si_sha256 r \<noteq> []" and "c \<noteq> Some []"
  shows "follow_staging limit d n c = follow_pages (after_key (<) si_sha256) si_sha256 limit (staging_rows d) n c"
  using assms(2)
proof (induction n arbitrary: c)
  case (Suc n)
  have p: "(\<lambda>r. case c of None \<Rightarrow> True | Some c \<Rightarrow> c = [] \<or> c < si_sha256 r) = after_key (<) si_sha256 c"
    using Suc.prems by (auto simp: after_key_def fun_eq_iff split: option.splits)
  obtain rows hm where f: "fetch_page (after_key (<) si_sha256 c) limit (staging_rows d) = (rows, hm)" by fastforce
  then have "rows \<noteq> [] \<Longrightarrow> si_sha256 (last rows) \<noteq> []"
    using assms(1) by (auto simp: fetch_page_def Let_def split: if_splits dest!: last_in_set in_set_takeD)
  moreover have "get_staging_items limit c d = \<lparr>sp_items = rows, sp_cursor = (if hm \<and> rows \<noteq> [] then Some (si_sha256 (last rows)) else None),
      sp_has_more = hm, sp_total = length (pending_files d)\<rparr>"
    unfolding get_staging_items_def p f by simp
  ultimately show ?case using f Suc.IH by (cases hm) (simp_all add: Let_def)
qed simp

text \<open>
  Following the cursors of the pending queue shows exactly the pending hashes, in ascending
  order, and the total of every page is their number.  A hash shows once per origin, so a page counts
  joined rows: only when no pending file has two origins does every hash show exactly once.
\<close>

theorem staging_pages_cover_pending:
  assumes "wf_db d" and "get_file d [] = None" and "0 < limit" and "length (staging_rows d) < n"
  shows "si_sha256 ` set (follow_staging limit d n None) = {sha. \<exists>r. get_file d sha = Some r \<and> f_status r = ''pending''} \<and>
    sorted (map si_sha256 (follow_staging limit d n None)) \<and>
    sp_total (get_staging_items limit c d) = card {sha. \<exists>r. get_file d sha = Some r \<and> f_status r = ''pending''} \<and>
    (distinct (map o_sha256 (map snd (file_origins d))) \<longrightarrow> distinct (map si_sha256 (follow_staging limit d n None)))"
proof -
  have wf: "wf_files d" using assms(1) by (simp add: wf_db_def)
  note ph = pending_hashes [OF wf]
  have ne: "\<forall>r \<in> set (staging_rows d). si_sha256 r \<noteq> []"
    using staging_hashes [of d] assms(2) unfolding ph by force
  note walk = follow_staging_pages [OF ne, of None limit n, simplified]
  note all = sl.follow_all [OF assms(3,4)]
  have sorted_rows: "sorted (map si_sha256 (staging_rows d))" by (simp add: staging_rows_def)
  have "map f_sha256 (map snd (files d)) = map fst (files d)" using wf by (auto simp: wf_files_def list_all_iff)
  then have "distinct (map f_sha256 (map snd (files d)))" using wf unfolding wf_files_def by metis
  then have dp: "distinct (map f_sha256 (pending_files d))" unfolding pending_files_def by (rule distinct_map_filter)
  show ?thesis
  proof (intro conjI impI)
    show "si_sha256 ` set (follow_staging limit d n None) = {sha. \<exists>r. get_file d sha = Some r \<and> f_status r = ''pending''}"
      unfolding walk all(2) staging_hashes ph ..
    show "sorted (map si_sha256 (follow_staging limit d n None))"
      unfolding walk using all(1) sorted_rows by (auto simp: subseq_conv_nths sorted_nths nths_map [symmetric])
    have "card (f_sha256 ` set (pending_files d)) = length (pending_files d)"
      using distinct_card [OF dp] by simp
    then show "sp_total (get_staging_items limit c d) = card {sha. \<exists>r. get_file d sha = Some r \<and> f_status r = ''pending''}"
      unfolding ph by (simp add: get_staging_items_def split: prod.split)
    assume "distinct (map o_sha256 (map snd (file_origins d)))"
    then have "distinct (map si_sha256 (staging_rows d))" using dp by (rule staging_distinct)
    then show "distinct (map si_sha256 (follow_staging limit d n None))" unfolding walk by (simp add: all(3))
  qed
qed

definition demo_queue :: registry_db where
  "demo_queue = put_origin ''ann'' ''i1'' ''a1'' None ''t''
     (put_file ''a2'' 4 ''accepted'' None None ''t'' (put_file ''a1'' 3 ''pending'' None None ''t'' empty_db))"

theorem staging_pages_cover_pending_witness:
  "si_sha256 ` set (follow_staging 1 demo_queue 2 None) = {''a1''}"
proof -
  have "wf_db demo_queue"
    by (simp add: demo_queue_def wf_db_def wf_defs increasing_ids_def put_file_def put_origin_def tbl_upsert_def empty_db_def
        file_known_def validate_status_def ALLOWED_FILE_STATUSES_def)
  moreover have "get_file demo_queue [] = None"
    by (simp add: demo_queue_def get_file_def put_file_def put_origin_def tbl_upsert_def empty_db_def)
  moreover have "length (staging_rows demo_queue) < 2"
    by (simp add: staging_rows_def pending_files_def joined_items_def origins_of_def demo_queue_def put_file_def put_origin_def
        tbl_upsert_def empty_db_def)
  ultimately have "si_sha256 ` set (follow_staging 1 demo_queue 2 None) =
      {sha. \<exists>r. get_file demo_queue sha = Some r \<and> f_status r = ''pending''}"
    using staging_pages_cover_pending [of demo_queue 1 2] by simp
  also have "\<dots> = {''a1''}"
    by (auto simp: demo_queue_def get_file_def put_file_def put_origin_def tbl_upsert_def empty_db_def split: if_splits)
  finally show ?thesis .
qed

end
