(* ===== verification/Spec2Isabelle.thy ===== *)
theory Spec2Isabelle
  imports Cli Pages
begin

text \<open>
  \<^bold>\<open>Photo ingress.\<close>  The program mirrors photographs from OneDrive accounts into local queues and lets
  an operator decide what is kept.  A poll walks the change feed of every account, downloads new files
  into a staging directory and hands them to the ingest engine.  The engine hashes a staged file, looks
  the hash up in a SQLite registry, and discards it, or moves it into the pending queue.  The operator
  accepts, rejects or purges files by hash with commands, with a trash directory or through a web API
  with retry-safe writes; block rules make the engine reject matching files on arrival.  An append-only
  journal lets the next start clean up after a crash, and a cache holds thumbnails of the pending files.

  This development models these parts as executable functions and proves what makes them correct.  The
  sources are Python; the files named below are under \<open>src/src/nightfall_photo_ingress/\<close> and
  \<open>src/api/\<close>.  A method is a function from arguments and state to a result and the state left behind:
  the result is \<open>Inr\<close> of the returned value or \<open>Inl\<close> of the exception, and the state is there on both
  branches because Python keeps the effects made before a raise.  A transaction of the registry is such a
  function on the database that gives the old database back when it raises.

  \<^bold>\<open>Theories, in the order of import.\<close>

  \<^descr>[\<open>Nf_Prelude\<close>] exceptions, sequencing of steps, tables as ordered association lists; the locale
  \<open>step_frame\<close> (a reflexive and transitive relation every step respects) and \<open>keyed_table\<close>.
  \<^descr>[\<open>Py_Strings\<close>, \<open>Py_Text\<close>, \<open>Json\<close>, \<open>Paths\<close>, \<open>Filesys\<close>, \<open>Ini\<close>] the parts of Python's library the sources
  use: string methods, \<open>int\<close> and \<open>splitlines\<close>, \<open>json.dumps\<close> and \<open>json.loads\<close> on flat objects with their round
  trip, \<open>pathlib\<close>, the file interface and \<open>configparser\<close> (\<open>Ini_Write\<close> adds its writer and that what it
  writes is read back); the locale \<open>file_store\<close> has the laws of rename,
  unlink and mkdir.
  \<^descr>[\<open>Config\<close>] \<open>config.py\<close>: the data classes, every getter, section parser and check, loading and
  validation; complaints are collected in a state monad, as the source collects them in a list.
  \<^descr>[\<open>Registry\<close>, \<open>Registry_Inv\<close>, \<open>Registry_Spec\<close>] \<open>domain/registry.py\<close>: the tables, every method, the
  well-formedness invariant and its preservation by every method, the abstract lifecycle of a file status
  (\<open>lifecycle_step\<close>) and the refinement of it, the audit of status changes, bulk import against
  insert-or-ignore, and pruning of the audit log.
  \<^descr>[\<open>Storage\<close>] \<open>domain/storage.py\<close>: safe names, templates and their lint, the collision search and its
  termination, and the durable commit from one queue into the next.
  \<^descr>[\<open>Journal\<close>] \<open>domain/journal.py\<close>: append with rotation, reading, clearing, and the round trip.
  \<^descr>[\<open>World\<close>] the state shared by the flows (registry, files, journals, clock), the outside functions, and
  the locale \<open>world_frame\<close> that lifts a relation on databases to one on worlds.
  \<^descr>[\<open>Live_Photo\<close>] \<open>live_photo.py\<close>: the deferred queue of photo and video halves.
  \<^descr>[\<open>Ingest\<close>, \<open>Ingest_Props\<close>] \<open>domain/ingest.py\<close>: candidates, prefilters, block rules, the branches of
  \<open>process_one\<close>, batches, replay of the journal, staging upkeep.  The locales \<open>audit_methods\<close>,
  \<open>candidate_methods\<close> and \<open>ingest_methods\<close> prove once that a relation respected by the registry methods
  an operation calls is respected by the operation.
  \<^descr>[\<open>Reject_Flow\<close>, \<open>Reject_Props\<close>] \<open>reject.py\<close>: reject, accept, purge and trash, with the locales
  \<open>rejecting_methods\<close> and \<open>operator_methods\<close> that extend the ones before.
  \<^descr>[\<open>Thumbnails\<close>] \<open>services/thumbnail_service.py\<close>: lookup, generation, removal, garbage collection.
  \<^descr>[\<open>Idempotency\<close>, \<open>Triage\<close>, \<open>Blocklist\<close>] the idempotency table as the locale \<open>idempotency_log\<close>,
  interpreted for \<open>services/triage_service.py\<close> and for the two answer types of
  \<open>services/blocklist_service.py\<close>; both services with their audit events and compensation.
  \<^descr>[\<open>Retry\<close>, \<open>Delta\<close>, \<open>Graph\<close>, \<open>Staging\<close>, \<open>Poll\<close>] \<open>adapters/onedrive/\<close>: retry policy, reduction of
  change pages, the two request loops, downloads into staging with the handoff manifest, and the walk over
  the pages of one account with cursor, resync marker and circuit breaker.
  \<^descr>[\<open>Auth\<close>] \<open>adapters/onedrive/auth.py\<close>: token cache, identity binding, permissions and the onboarding
  file, with the MSAL library as a parameter.
  \<^descr>[\<open>Pages\<close>] \<open>services/audit_service.py\<close> and \<open>services/staging_service.py\<close>: the locale \<open>paged_rows\<close> has
  the laws of cursor pagination and is interpreted for both listings.
  \<^descr>[\<open>Library_Files\<close>, \<open>Hash_Import\<close>, \<open>Sync_Import\<close>] \<open>hash_import.py\<close> and \<open>sync_import.py\<close>: the hash
  caches of the permanent library, their validation, and the two imports into the registry.
  \<^descr>[\<open>Accounts\<close>, \<open>Workers\<close>] \<open>poll_accounts\<close> of \<open>client.py\<close> with \<open>runtime/process_lock.py\<close> and
  \<open>cache_lock.py\<close>: the poll of one account with lock, token, drift check and backpressure, the run of one worker
  over all accounts, and the pool of several workers as a step relation on their jobs and locks.  The locale
  \<open>handoff_frame\<close> is the contract with the handoff processor: a relation on the registry it respects is
  respected by every poll; \<open>Cli\<close> interprets it for the ingest.
  \<^descr>[\<open>Discovery\<close>] the search for the camera roll in \<open>client.py\<close>.
  \<^descr>[\<open>Cli\<close>] \<open>cli.py\<close>, \<open>hash_import_cli.py\<close> and \<open>status.py\<close>: the handler of every command with exit code and
  status file, and the write-back of a found folder into the configuration.
  \<^descr>[\<open>System\<close>] the processes that share a registry as a step relation over worlds, and what holds for every
  run of them.

  \<^bold>\<open>What the theorems show.\<close>  Registry: methods refine the lifecycle, every audited status change has its
  event.  Files: names and rendered paths stay below their root, a commit moves a file completely or not at
  all, a reject keeps every content, an accept moves or leaves untouched, a purge deletes below the rejected
  root only, a download is complete or absent.  Ingest: known content is discarded, new content is taken
  over completely, block rules win, no batch accepts, outcomes come in input order, the replay reports what
  was not persisted.  API: a request takes effect once under its key, whatever is repeated, and failed
  requests are compensated.  Poll: the reducer keeps the last event of an item, requests and pauses are
  bounded, transient failures are recovered from, and the manifest is read back as written.  Configuration: a
  configuration that loads is sound, and validation reports nothing exactly when loading succeeds.
  Authentication: a token is only taken from the account the identity file names.  Listings: following the
  cursors shows every event once and exactly the pending hashes.  Imports: a dry run predicts the import, a
  plan holds the hashes of the present files, a second sync import changes nothing.  Runs: there is one result
  per account in the order of the configuration, other accounts' files are left alone, a spent time budget
  skips the rest, many retries pause the account, workers never share a lock.  Discovery: a suggestion is the
  camera roll or a usual folder with photos.  Commands: a poll never accepts, exit code and status file tell
  how a command ended, the status file is replaced as a whole, a backup precedes pruning, and the write-back
  changes one option.  System: over
  every run of all processes the registry stays well-formed, the audit log grows, no hash is forgotten and
  only accept decisions accept.  Some theorems state a behaviour that surprises: a rule overrides an accepted
  status, a replay moves a registered file aside, a journal line that is JSON and no object stops the
  reading, the download budget passes over candidates, a rejected cursor is kept, a token request rebinds the
  identity to the first cached account, a stored root overrides the configured one, a stale cache is imported,
  accounts with token caches in one directory cannot be polled by two workers, an empty camera roll replaces a
  configured folder with photos.

  \<^bold>\<open>Loops and bounds.\<close>  Retry loops recurse on the attempts that are left, the walk on the pages that may
  still be read (\<open>max_delta_pages\<close>), the collision search on its attempt bound, directory pruning on the
  length of the path; these bounds are the code's own, not added fuel.  All other recursion is over the
  data.  Python's integers are unbounded, so no width is modelled; floating-point delays are rationals with
  infinities and a not-a-number, without rounding.

  \<^bold>\<open>Outside functions.\<close>  Arguments of the model, in \<open>env\<close> and \<open>net\<close>: the clock and the rendering and
  reading of dates, SHA-256, random identifiers, the matchers \<open>fnmatch\<close> and \<open>re.search\<close>, the image library,
  the HTTP client, the JSON reader of service replies, the token refresh, jitter, and the transfer of bytes
  between file systems.  What a theorem needs of them is among its hypotheses and met in its witness.

  \<^bold>\<open>Not modelled.\<close>  The thread pool of \<open>process_batch\<close> (one worker is modelled) and the interleaving of
  two polls inside \<open>poll_accounts\<close> (its pool is modelled by jobs, locks and the order of the results); the
  rewriting of the token cache by a token refresh in the middle of a poll; crashes in the middle of a step,
  except where a theorem starts from the state a crash leaves; \<open>fsync\<close> and symbolic links; log and trace
  events with their redaction; argument parsing, \<open>main\<close> and printing of the command line, and the ingest totals in
  the report of a poll; the status, settings and health services, routers and schemas of the API; metrics and
  development tools, which measure the program and are no part of it.
\<close>

end
